theory Spec2Isabelle
  imports Main "HOL-Library.Word"
begin

unbundle bit_operations_syntax

section \<open>Dense subvector views of the Blaze library\<close>

text \<open>
  This theory embeds \<^verbatim>\<open>blaze/math/views/DenseSubvector.h\<close>: the view class
  \<^verbatim>\<open>DenseSubvector<VT,TF>\<close>, its constructor, element access, assignment operators
  and the \<^verbatim>\<open>assign\<close>/\<^verbatim>\<open>addAssign\<close>/\<^verbatim>\<open>subAssign\<close>/\<^verbatim>\<open>multAssign\<close>
  kernels, together with the restricted specialisation for cross products and the
  \<^verbatim>\<open>subvector\<close> creation functions.

  \<^verbatim>\<open>size_t\<close> is a 64-bit word: \<open>+\<close> and \<open>-\<close> wrap, \<open>AND\<close> is bitwise, \<open>mod\<close> is the
  unsigned remainder. A \<^verbatim>\<open>throw std::invalid_argument\<close> is the value
  \<open>Inl InvalidArgument\<close>; a failed \<^verbatim>\<open>BLAZE_USER_ASSERT\<close>/\<^verbatim>\<open>BLAZE_INTERNAL_ASSERT\<close>
  or an access outside the allocated storage (undefined behaviour in a release build)
  is the value \<open>Inl AssertionFailure\<close>.
\<close>

subsection \<open>Machine integers, errors\<close>

type_synonym size_t = "64 word"

type_synonym addr = nat

datatype error = InvalidArgument | AssertionFailure

definition bind :: "error + 'a \<Rightarrow> ('a \<Rightarrow> error + 'b) \<Rightarrow> error + 'b" where
  "bind m f = (case m of Inl e \<Rightarrow> Inl e | Inr x \<Rightarrow> f x)"

subsection \<open>The parent container\<close>

text \<open>
  Modelled from the spec: the dense vector primitive \<^verbatim>\<open>VT\<close> the view refers to
  (\<^verbatim>\<open>blaze::DynamicVector\<close> and its relatives) is not among the sources. The spec's
  parent container interface exposes \<^verbatim>\<open>size()\<close>, \<^verbatim>\<open>capacity()\<close> and element
  access by index, and its storage may extend past \<^verbatim>\<open>size()\<close> by padding elements.
  A parent is its current size and its storage array; the capacity is the length of
  the storage. Objects live in a store indexed by their address, so that two views
  of the same vector share its elements.
\<close>

record 'a dvec =
  dv_size :: size_t
  dv_data :: "'a list"

type_synonym 'a heap = "addr \<Rightarrow> 'a dvec"

definition capacity_dv :: "'a dvec \<Rightarrow> nat" where
  "capacity_dv v = length (dv_data v)"

text \<open>
  Modelled from the spec: \<^verbatim>\<open>vector_[i]\<close> on the parent, read and write. The index
  must be below \<^verbatim>\<open>size()\<close> (a precondition violation is an assertion failure).
\<close>

definition dvec_at :: "'a dvec \<Rightarrow> size_t \<Rightarrow> error + 'a" where
  "dvec_at v i =
     (if i < dv_size v \<and> unat i < length (dv_data v) then Inr (dv_data v ! unat i)
      else Inl AssertionFailure)"

definition dvec_set :: "'a dvec \<Rightarrow> size_t \<Rightarrow> 'a \<Rightarrow> error + 'a dvec" where
  "dvec_set v i x =
     (if i < dv_size v \<and> unat i < length (dv_data v)
      then Inr (v\<lparr>dv_data := (dv_data v)[unat i := x]\<rparr>)
      else Inl AssertionFailure)"

definition heap_at :: "'a heap \<Rightarrow> addr \<Rightarrow> size_t \<Rightarrow> error + 'a" where
  "heap_at h a i = dvec_at (h a) i"

definition heap_set :: "'a heap \<Rightarrow> addr \<Rightarrow> size_t \<Rightarrow> 'a \<Rightarrow> error + 'a heap" where
  "heap_set h a i x = bind (dvec_set (h a) i x) (\<lambda>v. Inr (h(a := v)))"

subsection \<open>Compile-time parameters\<close>

text \<open>
  The headers that define the following constants are not among the sources; they are
  parameters of the model. \<open>IT_size\<close> is \<^verbatim>\<open>IntrinsicTrait<ElementType>::size\<close>,
  \<open>vectorizable\<close> is \<^verbatim>\<open>VT::vectorizable\<close> (all operands have the element type of
  the view, so \<^verbatim>\<open>VT2::vectorizable\<close> and \<^verbatim>\<open>IsSame\<close> agree with it), \<open>addition\<close>,
  \<open>subtraction\<close> and \<open>multiplication\<close> are the flags of \<^verbatim>\<open>IntrinsicTrait\<close>,
  \<open>useStreaming\<close> and \<open>cacheSize\<close> come from \<^verbatim>\<open>blaze/system\<close>, and
  \<open>sizeof_ElementType\<close> is \<^verbatim>\<open>sizeof(ElementType)\<close>.
\<close>

record config =
  IT_size :: size_t
  vectorizable :: bool
  addition :: bool
  subtraction :: bool
  multiplication :: bool
  useStreaming :: bool
  cacheSize :: size_t
  sizeof_ElementType :: size_t

subsection \<open>The view and its constructor\<close>

text \<open>
  The member variables of \<^verbatim>\<open>DenseSubvector<VT,TF>\<close>: \<^verbatim>\<open>vector_\<close>, \<^verbatim>\<open>offset_\<close>,
  \<^verbatim>\<open>size_\<close>, \<^verbatim>\<open>rest_\<close>, \<^verbatim>\<open>final_\<close> and \<^verbatim>\<open>aligned_\<close> (a name cannot end
  with an underscore here, so the fields carry the prefix \<open>sv\<close> instead).
  \<^verbatim>\<open>vector_\<close> is the reference to the parent, held as the parent's address.
\<close>

record subvector =
  sv_vector :: addr
  sv_offset :: size_t
  sv_size :: size_t
  sv_rest :: size_t
  sv_final :: size_t
  sv_aligned :: bool

text \<open>
  \<^verbatim>\<open>DenseSubvector( VT& vector, size_t index, size_t n )\<close>, where \<^verbatim>\<open>IT::size\<close>
  is \<open>IT_size cfg\<close>.
\<close>

definition DenseSubvector ::
  "config \<Rightarrow> 'a heap \<Rightarrow> addr \<Rightarrow> size_t \<Rightarrow> size_t \<Rightarrow> error + subvector" where
  "DenseSubvector cfg h vector index n =
     (if index + n > dv_size (h vector) then Inl InvalidArgument
      else Inr \<lparr> sv_vector = vector, sv_offset = index, sv_size = n,
                 sv_rest = n mod IT_size cfg, sv_final = n - n mod IT_size cfg,
                 sv_aligned = (index mod IT_size cfg = 0 \<and>
                             (index + n = dv_size (h vector) \<or> n mod IT_size cfg = 0)) \<rparr>)"

text \<open>\<^verbatim>\<open>size()\<close> and the two subscript operators (read, and write through the
  returned reference).\<close>

definition size_sv :: "subvector \<Rightarrow> size_t" where
  "size_sv sv = sv_size sv"

definition subscript :: "'a heap \<Rightarrow> subvector \<Rightarrow> size_t \<Rightarrow> error + 'a" where
  "subscript h sv index =
     (if \<not> index < size_sv sv then Inl AssertionFailure
      else heap_at h (sv_vector sv) (sv_offset sv + index))"

definition subscript_write :: "'a heap \<Rightarrow> subvector \<Rightarrow> size_t \<Rightarrow> 'a \<Rightarrow> error + 'a heap" where
  "subscript_write h sv index x =
     (if \<not> index < size_sv sv then Inl AssertionFailure
      else heap_set h (sv_vector sv) (sv_offset sv + index) x)"

subsection \<open>Views over cross products\<close>

text \<open>
  The four specialisations \<^verbatim>\<open>DenseSubvector< DVecDVecCrossExpr<VT1,VT2>, false >\<close>,
  \<^verbatim>\<open>DVecSVecCrossExpr\<close>, \<^verbatim>\<open>SVecDVecCrossExpr\<close> and \<^verbatim>\<open>SVecSVecCrossExpr\<close> have
  the same members and the same constructor; the view holds the expression by value.

  Modelled from the spec: the cross product expression classes are not among the
  sources. An expression is the pair of its operands, and since a cross product is a
  vector of three components its \<^verbatim>\<open>size()\<close> is 3.
\<close>

record cross_expr =
  cpe_lhs :: addr
  cpe_rhs :: addr

definition size_cpe :: "cross_expr \<Rightarrow> size_t" where
  "size_cpe e = 3"

record cross_subvector =
  cp_vector :: cross_expr
  cp_offset :: size_t
  cp_size :: size_t

definition DenseSubvector_CrossExpr ::
  "cross_expr \<Rightarrow> size_t \<Rightarrow> size_t \<Rightarrow> error + cross_subvector" where
  "DenseSubvector_CrossExpr vector index n =
     Inr \<lparr> cp_vector = vector, cp_offset = index, cp_size = n \<rparr>"

subsection \<open>The \<^verbatim>\<open>subvector\<close> functions\<close>

text \<open>The parameter \<^verbatim>\<open>size\<close> of the source is \<open>sz\<close> here.\<close>

text \<open>\<^verbatim>\<open>subvector( DenseVector<VT,TF>& dv, size_t index, size_t size )\<close>\<close>

definition subvector_dv ::
  "config \<Rightarrow> 'a heap \<Rightarrow> addr \<Rightarrow> size_t \<Rightarrow> size_t \<Rightarrow> error + subvector" where
  "subvector_dv cfg h dv index sz = DenseSubvector cfg h dv index sz"

text \<open>\<^verbatim>\<open>subvector( const DenseSubvector<VT,TF>& dv, size_t index, size_t size )\<close>\<close>

definition subvector_sv ::
  "config \<Rightarrow> 'a heap \<Rightarrow> subvector \<Rightarrow> size_t \<Rightarrow> size_t \<Rightarrow> error + subvector" where
  "subvector_sv cfg h dv index sz =
     DenseSubvector cfg h (sv_vector dv) (sv_offset dv + index) sz"

text \<open>\<^verbatim>\<open>subvector( const DenseVector<VT,TF>& dv, size_t index, size_t size )\<close> for a
  cross product \<^verbatim>\<open>VT\<close>.\<close>

definition subvector_cpe ::
  "cross_expr \<Rightarrow> size_t \<Rightarrow> size_t \<Rightarrow> error + cross_subvector" where
  "subvector_cpe dv index sz = DenseSubvector_CrossExpr dv index sz"


subsection \<open>Loops\<close>

text \<open>
  \<^verbatim>\<open>for( size_t i=i0; i<iend; i+=step ) body\<close>. The counter is kept as a natural
  number and handed to the body as a \<^verbatim>\<open>size_t\<close>; a step of 0 (no register has zero
  elements) is an assertion failure. The body returns the new state or an error, and
  an error ends the loop.
\<close>

function for_loop ::
  "nat \<Rightarrow> nat \<Rightarrow> nat \<Rightarrow> (size_t \<Rightarrow> 's \<Rightarrow> error + 's) \<Rightarrow> 's \<Rightarrow> error + 's" where
  "for_loop i iend step body s =
     (if step = 0 then Inl AssertionFailure
      else if i < iend then bind (body (word_of_nat i) s) (for_loop (i + step) iend step body)
      else Inr s)"
  by pat_completeness auto
termination
  by (relation "measure (\<lambda>(i, iend, step, body, s). iend - i)") auto

text \<open>Reading the elements \<open>0 .. n-1\<close> through an access function, in this order.\<close>

primrec collect :: "(size_t \<Rightarrow> error + 'a) \<Rightarrow> nat \<Rightarrow> error + 'a list" where
  "collect f 0 = Inr []"
| "collect f (Suc k) =
     bind (collect f k) (\<lambda>xs. bind (f (word_of_nat k)) (\<lambda>x. Inr (xs @ [x])))"

subsection \<open>Intrinsic registers of the parent\<close>

text \<open>
  Modelled from the spec: the vectorized access functions of the parent, which are
  not among the sources. An intrinsic register (\<^verbatim>\<open>IntrinsicType\<close>) is the list of its
  \<open>IT_size\<close> lanes. \<^verbatim>\<open>vector_.loadu(i)\<close> reads and \<^verbatim>\<open>vector_.storeu(i, value)\<close>
  and \<^verbatim>\<open>vector_.stream(i, value)\<close> write the \<open>IT_size\<close> consecutive elements of the
  storage from index \<open>i\<close> on; the index must be below \<^verbatim>\<open>size()\<close> and the register
  must lie inside the storage (the capacity), which is where a store past
  \<^verbatim>\<open>size()\<close> goes into the padding. A streaming store writes the same elements as a
  normal one. \<^verbatim>\<open>it.load()\<close> on an iterator of the parent reads the \<open>IT_size\<close>
  elements from the position of the iterator on, without any check: a lane that lies
  past the end of the storage holds an unspecified value.
\<close>

definition dvec_loadu :: "size_t \<Rightarrow> 'a dvec \<Rightarrow> size_t \<Rightarrow> error + 'a list" where
  "dvec_loadu w v i =
     (if i < dv_size v \<and> unat i + unat w \<le> length (dv_data v)
      then Inr (take (unat w) (drop (unat i) (dv_data v)))
      else Inl AssertionFailure)"

definition dvec_storeu :: "size_t \<Rightarrow> 'a dvec \<Rightarrow> size_t \<Rightarrow> 'a list \<Rightarrow> error + 'a dvec" where
  "dvec_storeu w v i val =
     (if i < dv_size v \<and> unat i + unat w \<le> length (dv_data v) \<and> length val = unat w
      then Inr (v\<lparr>dv_data := take (unat i) (dv_data v) @ val @
                               drop (unat i + unat w) (dv_data v)\<rparr>)
      else Inl AssertionFailure)"

definition dvec_stream :: "size_t \<Rightarrow> 'a dvec \<Rightarrow> size_t \<Rightarrow> 'a list \<Rightarrow> error + 'a dvec" where
  "dvec_stream w v i val = dvec_storeu w v i val"

definition dvec_it_load :: "size_t \<Rightarrow> 'a dvec \<Rightarrow> size_t \<Rightarrow> error + 'a list" where
  "dvec_it_load w v pos = Inr (map (\<lambda>j. dv_data v ! (unat pos + j)) [0..<unat w])"

definition heap_storeu :: "size_t \<Rightarrow> 'a heap \<Rightarrow> addr \<Rightarrow> size_t \<Rightarrow> 'a list \<Rightarrow> error + 'a heap" where
  "heap_storeu w h a i val = bind (dvec_storeu w (h a) i val) (\<lambda>v. Inr (h(a := v)))"

definition heap_stream :: "size_t \<Rightarrow> 'a heap \<Rightarrow> addr \<Rightarrow> size_t \<Rightarrow> 'a list \<Rightarrow> error + 'a heap" where
  "heap_stream w h a i val = bind (dvec_stream w (h a) i val) (\<lambda>v. Inr (h(a := v)))"

subsection \<open>Utility functions of the view\<close>

text \<open>\<^verbatim>\<open>operator=( const ElementType& rhs )\<close>: homogeneous assignment.\<close>

definition fill :: "'a heap \<Rightarrow> subvector \<Rightarrow> 'a \<Rightarrow> error + 'a heap" where
  "fill h sv rhs =
     (let iend = sv_offset sv + sv_size sv in
      for_loop (unat (sv_offset sv)) (unat iend) 1
        (\<lambda>i h. heap_set h (sv_vector sv) i rhs) h)"

text \<open>\<^verbatim>\<open>reset()\<close>; \<^verbatim>\<open>reset( vector_[i] )\<close> gives the element its default value 0.\<close>

definition reset :: "'a::zero heap \<Rightarrow> subvector \<Rightarrow> error + 'a heap" where
  "reset h sv =
     (let iend = sv_offset sv + sv_size sv in
      for_loop (unat (sv_offset sv)) (unat iend) 1
        (\<lambda>i h. heap_set h (sv_vector sv) i 0) h)"

text \<open>\<^verbatim>\<open>scale( const Other& scalar )\<close>\<close>

definition scale :: "'a::times heap \<Rightarrow> subvector \<Rightarrow> 'a \<Rightarrow> error + 'a heap" where
  "scale h sv scalar =
     (let iend = sv_offset sv + sv_size sv in
      for_loop (unat (sv_offset sv)) (unat iend) 1
        (\<lambda>i h. bind (heap_at h (sv_vector sv) i)
                  (\<lambda>x. heap_set h (sv_vector sv) i (x * scalar))) h)"

subsection \<open>Intrinsic access through the view\<close>

text \<open>
  \<^verbatim>\<open>loadu( size_t index )\<close> and \<^verbatim>\<open>storeu( size_t index, const IntrinsicType& value )\<close>
  with their two internal assertions; \<^verbatim>\<open>load\<close>, \<^verbatim>\<open>store\<close> and \<^verbatim>\<open>stream\<close> forward
  to them. In the branch for the last, incomplete register \<^verbatim>\<open>loadu\<close> fills
  \<^verbatim>\<open>rest_\<close> lanes of a default constructed register.

  Modelled from the spec: the register type is not among the sources; the lanes of a
  default constructed register hold the default value 0.
\<close>

definition subvector_loadu ::
  "config \<Rightarrow> 'a::zero heap \<Rightarrow> subvector \<Rightarrow> size_t \<Rightarrow> error + 'a list" where
  "subvector_loadu cfg h sv index =
     (if \<not> index < size_sv sv then Inl AssertionFailure
      else if index mod IT_size cfg \<noteq> 0 then Inl AssertionFailure
      else if sv_aligned sv \<or> index \<noteq> sv_final sv
        then dvec_loadu (IT_size cfg) (h (sv_vector sv)) (sv_offset sv + index)
      else bind (collect (\<lambda>j. heap_at h (sv_vector sv) (sv_offset sv + index + j))
                   (unat (sv_rest sv)))
             (\<lambda>xs. Inr (xs @ replicate (unat (IT_size cfg) - unat (sv_rest sv)) 0)))"

definition subvector_load ::
  "config \<Rightarrow> 'a::zero heap \<Rightarrow> subvector \<Rightarrow> size_t \<Rightarrow> error + 'a list" where
  "subvector_load cfg h sv index = subvector_loadu cfg h sv index"

definition subvector_storeu ::
  "config \<Rightarrow> 'a heap \<Rightarrow> subvector \<Rightarrow> size_t \<Rightarrow> 'a list \<Rightarrow> error + 'a heap" where
  "subvector_storeu cfg h sv index val =
     (if \<not> index < size_sv sv then Inl AssertionFailure
      else if index mod IT_size cfg \<noteq> 0 then Inl AssertionFailure
      else if sv_aligned sv \<or> index \<noteq> sv_final sv
        then heap_storeu (IT_size cfg) h (sv_vector sv) (sv_offset sv + index) val
      else for_loop 0 (unat (sv_rest sv)) 1
             (\<lambda>j h. if unat j < length val
                     then heap_set h (sv_vector sv) (sv_offset sv + index + j) (val ! unat j)
                     else Inl AssertionFailure) h)"

definition subvector_store ::
  "config \<Rightarrow> 'a heap \<Rightarrow> subvector \<Rightarrow> size_t \<Rightarrow> 'a list \<Rightarrow> error + 'a heap" where
  "subvector_store cfg h sv index val = subvector_storeu cfg h sv index val"

definition subvector_stream ::
  "config \<Rightarrow> 'a heap \<Rightarrow> subvector \<Rightarrow> size_t \<Rightarrow> 'a list \<Rightarrow> error + 'a heap" where
  "subvector_stream cfg h sv index val = subvector_storeu cfg h sv index val"

subsection \<open>Right-hand side operands\<close>

text \<open>
  Modelled from the spec: the vector classes that can stand on the right-hand side are
  not among the sources. A dense operand is a dense vector in the store, a dense
  subvector, or a temporary (an object of its own that no view refers to, as the
  \<^verbatim>\<open>ResultType tmp\<close> of the operators). A sparse operand is a sparse vector held by
  value: its size and the list of its non-zero elements (index and value) in the order
  of its iterator. An operand answers \<^verbatim>\<open>size()\<close>, \<^verbatim>\<open>canAlias\<close> and \<^verbatim>\<open>isAliased\<close>
  (for a vector, whether it is the object at the given address; for a subvector the
  functions of this header), the subscript operator, \<^verbatim>\<open>load\<close>, and the \<^verbatim>\<open>load\<close>
  of its iterator at a position. The \<^verbatim>\<open>SubvectorIterator\<close> of this header forwards
  \<^verbatim>\<open>load()\<close> to the \<^verbatim>\<open>loadu()\<close> of the parent's iterator.
\<close>

datatype 'a dense_operand = DynamicVec addr | Subvec subvector | Temp "'a dvec"

record 'a svec =
  svec_size :: size_t
  svec_elements :: "(size_t \<times> 'a) list"

datatype 'a operand = Dense "'a dense_operand" | Sparse "'a svec"

fun size_dense :: "'a heap \<Rightarrow> 'a dense_operand \<Rightarrow> size_t" where
  "size_dense h (DynamicVec a) = dv_size (h a)"
| "size_dense h (Subvec v) = size_sv v"
| "size_dense h (Temp t) = dv_size t"

fun size_op :: "'a heap \<Rightarrow> 'a operand \<Rightarrow> size_t" where
  "size_op h (Dense d) = size_dense h d"
| "size_op h (Sparse s) = svec_size s"

text \<open>\<^verbatim>\<open>canAlias\<close> and \<^verbatim>\<open>isAliased\<close> of the view compare the address of \<^verbatim>\<open>vector_\<close>
  with the given address.\<close>

definition canAlias_sv :: "subvector \<Rightarrow> addr \<Rightarrow> bool" where
  "canAlias_sv sv alias = (sv_vector sv = alias)"

definition isAliased_sv :: "subvector \<Rightarrow> addr \<Rightarrow> bool" where
  "isAliased_sv sv alias = (sv_vector sv = alias)"

fun canAlias_dense :: "'a dense_operand \<Rightarrow> addr \<Rightarrow> bool" where
  "canAlias_dense (DynamicVec a) alias = (a = alias)"
| "canAlias_dense (Subvec v) alias = canAlias_sv v alias"
| "canAlias_dense (Temp t) alias = False"

fun isAliased_dense :: "'a dense_operand \<Rightarrow> addr \<Rightarrow> bool" where
  "isAliased_dense (DynamicVec a) alias = (a = alias)"
| "isAliased_dense (Subvec v) alias = isAliased_sv v alias"
| "isAliased_dense (Temp t) alias = False"

fun canAlias_op :: "'a operand \<Rightarrow> addr \<Rightarrow> bool" where
  "canAlias_op (Dense d) alias = canAlias_dense d alias"
| "canAlias_op (Sparse s) alias = False"

fun at_dense :: "'a heap \<Rightarrow> 'a dense_operand \<Rightarrow> size_t \<Rightarrow> error + 'a" where
  "at_dense h (DynamicVec a) i = heap_at h a i"
| "at_dense h (Subvec v) i = subscript h v i"
| "at_dense h (Temp t) i = dvec_at t i"

fun load_dense :: "config \<Rightarrow> 'a::zero heap \<Rightarrow> 'a dense_operand \<Rightarrow> size_t \<Rightarrow> error + 'a list" where
  "load_dense cfg h (DynamicVec a) i = dvec_loadu (IT_size cfg) (h a) i"
| "load_dense cfg h (Subvec v) i = subvector_load cfg h v i"
| "load_dense cfg h (Temp t) i = dvec_loadu (IT_size cfg) t i"

fun it_load_dense :: "config \<Rightarrow> 'a heap \<Rightarrow> 'a dense_operand \<Rightarrow> size_t \<Rightarrow> error + 'a list" where
  "it_load_dense cfg h (DynamicVec a) pos = dvec_it_load (IT_size cfg) (h a) pos"
| "it_load_dense cfg h (Subvec v) pos =
     dvec_it_load (IT_size cfg) (h (sv_vector v)) (sv_offset v + pos)"
| "it_load_dense cfg h (Temp t) pos = dvec_it_load (IT_size cfg) t pos"

text \<open>
  Modelled from the spec: \<^verbatim>\<open>const ResultType tmp( ~rhs )\<close> materialises the operand
  in a new vector of the same size. The elements are read through the subscript
  operator; the storage of the new vector is padded with default values up to the next
  multiple of the register width. A sparse operand is copied as it is.
\<close>

definition padding :: "size_t \<Rightarrow> nat \<Rightarrow> nat" where
  "padding w n = (if unat w = 0 then 0 else (unat w - n mod unat w) mod unat w)"

definition evaluate_dense ::
  "config \<Rightarrow> 'a::zero heap \<Rightarrow> 'a dense_operand \<Rightarrow> error + 'a dvec" where
  "evaluate_dense cfg h d =
     bind (collect (at_dense h d) (unat (size_dense h d)))
       (\<lambda>xs. Inr \<lparr> dv_size = size_dense h d,
                    dv_data = xs @ replicate (padding (IT_size cfg) (length xs)) 0 \<rparr>)"

fun evaluate :: "config \<Rightarrow> 'a::zero heap \<Rightarrow> 'a operand \<Rightarrow> error + 'a operand" where
  "evaluate cfg h (Dense d) = bind (evaluate_dense cfg h d) (\<lambda>t. Inr (Dense (Temp t)))"
| "evaluate cfg h (Sparse s) = Inr (Sparse s)"

subsection \<open>Assignment kernels for dense operands\<close>

text \<open>
  The default implementation of \<^verbatim>\<open>assign( const DenseVector<VT2,TF>& rhs )\<close>: two
  elements per iteration up to \<^verbatim>\<open>size() & size_t(-2)\<close>, then the odd element. Each
  statement \<^verbatim>\<open>vector_[i+offset_] = (~rhs)[i]\<close> reads the operand in the current
  store and then writes the parent.
\<close>

definition assign_default ::
  "'a heap \<Rightarrow> subvector \<Rightarrow> 'a dense_operand \<Rightarrow> error + 'a heap" where
  "assign_default h sv rhs =
     (if size_sv sv \<noteq> size_dense h rhs then Inl AssertionFailure
      else let iend = size_sv sv AND - 2 in
        bind (for_loop 0 (unat iend) 2
               (\<lambda>i h. bind (at_dense h rhs i) (\<lambda>x.
                       bind (heap_set h (sv_vector sv) (i + sv_offset sv) x) (\<lambda>h.
                       bind (at_dense h rhs (i + 1)) (\<lambda>y.
                       heap_set h (sv_vector sv) (i + sv_offset sv + 1) y)))) h)
          (\<lambda>h. if iend < size_sv sv
                then bind (at_dense h rhs iend)
                       (\<lambda>x. heap_set h (sv_vector sv) (iend + sv_offset sv) x)
                else Inr h))"

text \<open>
  The default implementations of \<^verbatim>\<open>addAssign\<close>, \<^verbatim>\<open>subAssign\<close> and \<^verbatim>\<open>multAssign\<close>
  for a dense operand are the same loop with \<^verbatim>\<open>+=\<close>, \<^verbatim>\<open>-=\<close> and \<^verbatim>\<open>*=\<close> in the
  place of the assignment; \<open>f\<close> is the operation. The statement
  \<^verbatim>\<open>vector_[i+offset_] += (~rhs)[i]\<close> reads the operand, reads the element of the
  parent and writes it.
\<close>

definition compound_element ::
  "('a \<Rightarrow> 'a \<Rightarrow> 'a) \<Rightarrow> 'a heap \<Rightarrow> addr \<Rightarrow> size_t \<Rightarrow> 'a \<Rightarrow> error + 'a heap" where
  "compound_element f h a i x = bind (heap_at h a i) (\<lambda>old. heap_set h a i (f old x))"

definition compound_default ::
  "('a \<Rightarrow> 'a \<Rightarrow> 'a) \<Rightarrow> 'a heap \<Rightarrow> subvector \<Rightarrow> 'a dense_operand \<Rightarrow> error + 'a heap" where
  "compound_default f h sv rhs =
     (if size_sv sv \<noteq> size_dense h rhs then Inl AssertionFailure
      else let iend = size_sv sv AND - 2 in
        bind (for_loop 0 (unat iend) 2
               (\<lambda>i h. bind (at_dense h rhs i) (\<lambda>x.
                       bind (compound_element f h (sv_vector sv) (i + sv_offset sv) x) (\<lambda>h.
                       bind (at_dense h rhs (i + 1)) (\<lambda>y.
                       compound_element f h (sv_vector sv) (i + sv_offset sv + 1) y)))) h)
          (\<lambda>h. if iend < size_sv sv
                then bind (at_dense h rhs iend)
                       (\<lambda>x. compound_element f h (sv_vector sv) (iend + sv_offset sv) x)
                else Inr h))"

definition addAssign_default ::
  "'a::plus heap \<Rightarrow> subvector \<Rightarrow> 'a dense_operand \<Rightarrow> error + 'a heap" where
  "addAssign_default = compound_default (\<lambda>old x. old + x)"

definition subAssign_default ::
  "'a::minus heap \<Rightarrow> subvector \<Rightarrow> 'a dense_operand \<Rightarrow> error + 'a heap" where
  "subAssign_default = compound_default (\<lambda>old x. old - x)"

definition multAssign_default ::
  "'a::times heap \<Rightarrow> subvector \<Rightarrow> 'a dense_operand \<Rightarrow> error + 'a heap" where
  "multAssign_default = compound_default (\<lambda>old x. old * x)"

text \<open>
  The intrinsic optimised implementation of \<^verbatim>\<open>assign\<close>. With streaming, an aligned
  view, more than \<^verbatim>\<open>cacheSize/( sizeof(ElementType) * 3UL )\<close> elements and an
  operand that is not aliased, every register is loaded with \<^verbatim>\<open>(~rhs).load(i)\<close> and
  written with \<^verbatim>\<open>vector_.stream\<close>. Otherwise four registers per iteration are
  loaded through the iterator of the operand and stored with \<^verbatim>\<open>vector_.storeu\<close> up
  to \<^verbatim>\<open>size_ & size_t(-IT::size*4)\<close>, and the remaining registers are stored with
  the \<^verbatim>\<open>storeu\<close> of the view. The position of the iterator \<^verbatim>\<open>it\<close> is the index
  of the register it is about to load.
\<close>

definition assign_vectorized ::
  "config \<Rightarrow> 'a::zero heap \<Rightarrow> subvector \<Rightarrow> 'a dense_operand \<Rightarrow> error + 'a heap" where
  "assign_vectorized cfg h sv rhs =
     (if size_sv sv \<noteq> size_dense h rhs then Inl AssertionFailure
      else if useStreaming cfg \<and> sv_aligned sv \<and>
              sv_size sv > cacheSize cfg div (sizeof_ElementType cfg * 3) \<and>
              \<not> isAliased_dense rhs (sv_vector sv)
      then for_loop 0 (unat (size_sv sv)) (unat (IT_size cfg))
             (\<lambda>i h. bind (load_dense cfg h rhs i)
                       (heap_stream (IT_size cfg) h (sv_vector sv) (sv_offset sv + i))) h
      else let iend = sv_size sv AND - (IT_size cfg * 4) in
        if sv_size sv - sv_size sv mod (IT_size cfg * 4) \<noteq> iend then Inl AssertionFailure
        else
          bind (for_loop 0 (unat iend) (unat (IT_size cfg * 4))
                 (\<lambda>i h.
                    bind (it_load_dense cfg h rhs i) (\<lambda>r.
                    bind (heap_storeu (IT_size cfg) h (sv_vector sv) (sv_offset sv + i) r) (\<lambda>h.
                    bind (it_load_dense cfg h rhs (i + IT_size cfg)) (\<lambda>r.
                    bind (heap_storeu (IT_size cfg) h (sv_vector sv)
                            (sv_offset sv + i + IT_size cfg) r) (\<lambda>h.
                    bind (it_load_dense cfg h rhs (i + IT_size cfg * 2)) (\<lambda>r.
                    bind (heap_storeu (IT_size cfg) h (sv_vector sv)
                            (sv_offset sv + i + IT_size cfg * 2) r) (\<lambda>h.
                    bind (it_load_dense cfg h rhs (i + IT_size cfg * 3)) (\<lambda>r.
                    heap_storeu (IT_size cfg) h (sv_vector sv)
                      (sv_offset sv + i + IT_size cfg * 3) r)))))))) h)
            (for_loop (unat iend) (unat (sv_size sv)) (unat (IT_size cfg))
               (\<lambda>i h. bind (it_load_dense cfg h rhs i) (subvector_storeu cfg h sv i))))"

text \<open>
  The intrinsic optimised implementations of \<^verbatim>\<open>addAssign\<close>, \<^verbatim>\<open>subAssign\<close> and
  \<^verbatim>\<open>multAssign\<close>: the same two loops, each store writing
  \<^verbatim>\<open>load(i) + it.load()\<close> (or \<^verbatim>\<open>-\<close>, \<^verbatim>\<open>*\<close>), lane by lane.
\<close>

definition compound_register ::
  "('a \<Rightarrow> 'a \<Rightarrow> 'a) \<Rightarrow> config \<Rightarrow> 'a::zero heap \<Rightarrow> subvector \<Rightarrow> 'a dense_operand \<Rightarrow>
     size_t \<Rightarrow> error + 'a list" where
  "compound_register f cfg h sv rhs i =
     bind (subvector_load cfg h sv i) (\<lambda>a.
     bind (it_load_dense cfg h rhs i) (\<lambda>b. Inr (map2 f a b)))"

definition compound_vectorized ::
  "('a \<Rightarrow> 'a \<Rightarrow> 'a) \<Rightarrow> config \<Rightarrow> 'a::zero heap \<Rightarrow> subvector \<Rightarrow> 'a dense_operand \<Rightarrow>
     error + 'a heap" where
  "compound_vectorized f cfg h sv rhs =
     (if size_sv sv \<noteq> size_dense h rhs then Inl AssertionFailure
      else let iend = sv_size sv AND - (IT_size cfg * 4) in
        if sv_size sv - sv_size sv mod (IT_size cfg * 4) \<noteq> iend then Inl AssertionFailure
        else
          bind (for_loop 0 (unat iend) (unat (IT_size cfg * 4))
                 (\<lambda>i h.
                    bind (compound_register f cfg h sv rhs i) (\<lambda>r.
                    bind (heap_storeu (IT_size cfg) h (sv_vector sv) (sv_offset sv + i) r) (\<lambda>h.
                    bind (compound_register f cfg h sv rhs (i + IT_size cfg)) (\<lambda>r.
                    bind (heap_storeu (IT_size cfg) h (sv_vector sv)
                            (sv_offset sv + i + IT_size cfg) r) (\<lambda>h.
                    bind (compound_register f cfg h sv rhs (i + IT_size cfg * 2)) (\<lambda>r.
                    bind (heap_storeu (IT_size cfg) h (sv_vector sv)
                            (sv_offset sv + i + IT_size cfg * 2) r) (\<lambda>h.
                    bind (compound_register f cfg h sv rhs (i + IT_size cfg * 3)) (\<lambda>r.
                    heap_storeu (IT_size cfg) h (sv_vector sv)
                      (sv_offset sv + i + IT_size cfg * 3) r)))))))) h)
            (for_loop (unat iend) (unat (sv_size sv)) (unat (IT_size cfg))
               (\<lambda>i h. bind (compound_register f cfg h sv rhs i)
                         (subvector_storeu cfg h sv i))))"

definition addAssign_vectorized ::
  "config \<Rightarrow> 'a::{zero,plus} heap \<Rightarrow> subvector \<Rightarrow> 'a dense_operand \<Rightarrow> error + 'a heap" where
  "addAssign_vectorized = compound_vectorized (\<lambda>old x. old + x)"

definition subAssign_vectorized ::
  "config \<Rightarrow> 'a::{zero,minus} heap \<Rightarrow> subvector \<Rightarrow> 'a dense_operand \<Rightarrow> error + 'a heap" where
  "subAssign_vectorized = compound_vectorized (\<lambda>old x. old - x)"

definition multAssign_vectorized ::
  "config \<Rightarrow> 'a::{zero,times} heap \<Rightarrow> subvector \<Rightarrow> 'a dense_operand \<Rightarrow> error + 'a heap" where
  "multAssign_vectorized = compound_vectorized (\<lambda>old x. old * x)"

subsection \<open>Assignment kernels for sparse operands\<close>

text \<open>The loop over the non-zero elements of a sparse operand, from \<^verbatim>\<open>begin()\<close> to
  \<^verbatim>\<open>end()\<close>.\<close>

primrec for_each :: "'b list \<Rightarrow> ('b \<Rightarrow> 's \<Rightarrow> error + 's) \<Rightarrow> 's \<Rightarrow> error + 's" where
  "for_each [] body s = Inr s"
| "for_each (x # xs) body s = bind (body x s) (for_each xs body)"

definition assign_sparse :: "'a heap \<Rightarrow> subvector \<Rightarrow> 'a svec \<Rightarrow> error + 'a heap" where
  "assign_sparse h sv rhs =
     (if size_sv sv \<noteq> svec_size rhs then Inl AssertionFailure
      else for_each (svec_elements rhs)
             (\<lambda>element h. heap_set h (sv_vector sv) (fst element + sv_offset sv) (snd element)) h)"

definition compound_sparse ::
  "('a \<Rightarrow> 'a \<Rightarrow> 'a) \<Rightarrow> 'a heap \<Rightarrow> subvector \<Rightarrow> 'a svec \<Rightarrow> error + 'a heap" where
  "compound_sparse f h sv rhs =
     (if size_sv sv \<noteq> svec_size rhs then Inl AssertionFailure
      else for_each (svec_elements rhs)
             (\<lambda>element h. compound_element f h (sv_vector sv) (fst element + sv_offset sv)
                             (snd element)) h)"

definition addAssign_sparse :: "'a::plus heap \<Rightarrow> subvector \<Rightarrow> 'a svec \<Rightarrow> error + 'a heap" where
  "addAssign_sparse = compound_sparse (\<lambda>old x. old + x)"

definition subAssign_sparse :: "'a::minus heap \<Rightarrow> subvector \<Rightarrow> 'a svec \<Rightarrow> error + 'a heap" where
  "subAssign_sparse = compound_sparse (\<lambda>old x. old - x)"

text \<open>
  \<^verbatim>\<open>multAssign( const SparseVector<VT2,TF>& rhs )\<close>: the view is copied into
  \<^verbatim>\<open>const ResultType tmp( *this )\<close>, reset, and every non-zero element of the
  operand writes \<^verbatim>\<open>tmp[element->index()] * element->value()\<close>.
\<close>

definition multAssign_sparse ::
  "config \<Rightarrow> 'a::{zero,times} heap \<Rightarrow> subvector \<Rightarrow> 'a svec \<Rightarrow> error + 'a heap" where
  "multAssign_sparse cfg h sv rhs =
     (if size_sv sv \<noteq> svec_size rhs then Inl AssertionFailure
      else
        bind (evaluate_dense cfg h (Subvec sv)) (\<lambda>tmp.
        bind (reset h sv) (\<lambda>h.
        for_each (svec_elements rhs)
          (\<lambda>element h. bind (dvec_at tmp (fst element))
                          (\<lambda>t. heap_set h (sv_vector sv) (fst element + sv_offset sv)
                                  (t * snd element))) h)))"

subsection \<open>Selection of the kernel\<close>

text \<open>
  Modelled from the spec: the free functions \<^verbatim>\<open>blaze::assign\<close>, \<^verbatim>\<open>addAssign\<close>,
  \<^verbatim>\<open>subAssign\<close> and \<^verbatim>\<open>multAssign\<close> are not among the sources; they call the member
  function of the left-hand side, which overload resolution selects: the sparse kernel
  for a sparse operand, for a dense operand the intrinsic kernel if
  \<^verbatim>\<open>VectorizedAssign<VT2>::value\<close> (respectively \<^verbatim>\<open>VectorizedAddAssign\<close>,
  \<^verbatim>\<open>VectorizedSubAssign\<close>, \<^verbatim>\<open>VectorizedMultAssign\<close>) holds and the default kernel
  otherwise.
\<close>

fun assign :: "config \<Rightarrow> 'a::zero heap \<Rightarrow> subvector \<Rightarrow> 'a operand \<Rightarrow> error + 'a heap" where
  "assign cfg h sv (Dense d) =
     (if vectorizable cfg then assign_vectorized cfg h sv d else assign_default h sv d)"
| "assign cfg h sv (Sparse s) = assign_sparse h sv s"

fun addAssign ::
  "config \<Rightarrow> 'a::{zero,plus} heap \<Rightarrow> subvector \<Rightarrow> 'a operand \<Rightarrow> error + 'a heap" where
  "addAssign cfg h sv (Dense d) =
     (if vectorizable cfg \<and> addition cfg then addAssign_vectorized cfg h sv d
      else addAssign_default h sv d)"
| "addAssign cfg h sv (Sparse s) = addAssign_sparse h sv s"

fun subAssign ::
  "config \<Rightarrow> 'a::{zero,minus} heap \<Rightarrow> subvector \<Rightarrow> 'a operand \<Rightarrow> error + 'a heap" where
  "subAssign cfg h sv (Dense d) =
     (if vectorizable cfg \<and> subtraction cfg then subAssign_vectorized cfg h sv d
      else subAssign_default h sv d)"
| "subAssign cfg h sv (Sparse s) = subAssign_sparse h sv s"

fun multAssign ::
  "config \<Rightarrow> 'a::{zero,times} heap \<Rightarrow> subvector \<Rightarrow> 'a operand \<Rightarrow> error + 'a heap" where
  "multAssign cfg h sv (Dense d) =
     (if vectorizable cfg \<and> multiplication cfg then multAssign_vectorized cfg h sv d
      else multAssign_default h sv d)"
| "multAssign cfg h sv (Sparse s) = multAssign_sparse cfg h sv s"

subsection \<open>Assignment operators\<close>

text \<open>
  \<^verbatim>\<open>operator=( const DenseSubvector& rhs )\<close>. The test \<^verbatim>\<open>&rhs == this\<close> compares the
  two view objects; a view that is the same object has the same members, which is how
  the test appears here.
\<close>

definition copy_assign ::
  "config \<Rightarrow> 'a::zero heap \<Rightarrow> subvector \<Rightarrow> subvector \<Rightarrow> error + 'a heap" where
  "copy_assign cfg h sv rhs =
     (if rhs = sv \<or> (sv_vector sv = sv_vector rhs \<and> sv_offset sv = sv_offset rhs) then Inr h
      else if size_sv sv \<noteq> size_sv rhs then Inl InvalidArgument
      else if canAlias_sv rhs (sv_vector sv)
        then bind (evaluate cfg h (Dense (Subvec rhs))) (assign cfg h sv)
      else assign cfg h sv (Dense (Subvec rhs)))"

text \<open>\<^verbatim>\<open>operator=( const Vector<VT2,TF>& rhs )\<close>\<close>

fun IsSparseVector :: "'a operand \<Rightarrow> bool" where
  "IsSparseVector (Dense d) = False"
| "IsSparseVector (Sparse s) = True"

definition op_assign ::
  "config \<Rightarrow> 'a::zero heap \<Rightarrow> subvector \<Rightarrow> 'a operand \<Rightarrow> error + 'a heap" where
  "op_assign cfg h sv rhs =
     (if size_sv sv \<noteq> size_op h rhs then Inl InvalidArgument
      else if canAlias_op rhs (sv_vector sv)
        then bind (evaluate cfg h rhs) (assign cfg h sv)
      else bind (if IsSparseVector rhs then reset h sv else Inr h)
             (\<lambda>h. assign cfg h sv rhs))"

text \<open>\<^verbatim>\<open>operator+=( const Vector<VT2,TF>& rhs )\<close>\<close>

definition op_add_assign ::
  "config \<Rightarrow> 'a::{zero,plus} heap \<Rightarrow> subvector \<Rightarrow> 'a operand \<Rightarrow> error + 'a heap" where
  "op_add_assign cfg h sv rhs =
     (if size_sv sv \<noteq> size_op h rhs then Inl InvalidArgument
      else if canAlias_op rhs (sv_vector sv)
        then bind (evaluate cfg h rhs) (addAssign cfg h sv)
      else addAssign cfg h sv rhs)"

text \<open>\<^verbatim>\<open>operator-=( const Vector<VT2,TF>& rhs )\<close>\<close>

definition op_sub_assign ::
  "config \<Rightarrow> 'a::{zero,minus} heap \<Rightarrow> subvector \<Rightarrow> 'a operand \<Rightarrow> error + 'a heap" where
  "op_sub_assign cfg h sv rhs =
     (if size_sv sv \<noteq> size_op h rhs then Inl InvalidArgument
      else if canAlias_op rhs (sv_vector sv)
        then bind (evaluate cfg h rhs) (subAssign cfg h sv)
      else subAssign cfg h sv rhs)"

text \<open>\<^verbatim>\<open>operator*=( const Vector<VT2,TF>& rhs )\<close>\<close>

definition op_mult_assign ::
  "config \<Rightarrow> 'a::{zero,times} heap \<Rightarrow> subvector \<Rightarrow> 'a operand \<Rightarrow> error + 'a heap" where
  "op_mult_assign cfg h sv rhs =
     (if size_sv sv \<noteq> size_op h rhs then Inl InvalidArgument
      else if canAlias_op rhs (sv_vector sv) \<or> IsSparseVector rhs
        then bind (evaluate cfg h rhs) (multAssign cfg h sv)
      else multAssign cfg h sv rhs)"

subsection \<open>A concrete store\<close>

text \<open>
  The parent of the running example: ten integers \<open>0..9\<close> at address 0, stored with
  two padding elements (a capacity of 12 for registers of four elements). Every other
  address holds an empty vector.
\<close>

definition example_parent :: "int dvec" where
  "example_parent = \<lparr> dv_size = 10, dv_data = [0, 1, 2, 3, 4, 5, 6, 7, 8, 9, 0, 0] \<rparr>"

definition example_heap :: "int heap" where
  "example_heap = (\<lambda>a. \<lparr> dv_size = 0, dv_data = [] \<rparr>)(0 := example_parent)"

text \<open>
  Two sets of parameters: an element type with registers of four elements and all
  intrinsic operations, and a non-vectorizable element type (register width 1).
\<close>

definition example_config :: config where
  "example_config = \<lparr> IT_size = 4, vectorizable = True, addition = True,
     subtraction = True, multiplication = True, useStreaming = True,
     cacheSize = 3145728, sizeof_ElementType = 4 \<rparr>"

definition scalar_config :: config where
  "scalar_config = \<lparr> IT_size = 1, vectorizable = False, addition = False,
     subtraction = False, multiplication = False, useStreaming = True,
     cacheSize = 3145728, sizeof_ElementType = 4 \<rparr>"

text \<open>
  The view of the elements 1..4 of the parent, which are \<open>[1, 2, 3, 4]\<close>, and the
  sparse vector of size 4 whose only non-zero element is 5 at index 1.
\<close>

definition example_view14 :: subvector where
  "example_view14 = \<lparr> sv_vector = 0, sv_offset = 1, sv_size = 4, sv_rest = 0,
     sv_final = 4, sv_aligned = False \<rparr>"

definition example_sparse :: "int svec" where
  "example_sparse = \<lparr> svec_size = 4, svec_elements = [(1, 5)] \<rparr>"

text \<open>
  Two overlapping views of the parent, of the elements 0..4 and 2..6, a view that
  starts at an unaligned offset and has an incomplete last register, a view that is
  aligned and ends at the end of the parent, and a vector of seven elements at
  address 1.
\<close>

definition example_view05 :: subvector where
  "example_view05 = \<lparr> sv_vector = 0, sv_offset = 0, sv_size = 5, sv_rest = 1,
     sv_final = 4, sv_aligned = False \<rparr>"

definition example_view25 :: subvector where
  "example_view25 = \<lparr> sv_vector = 0, sv_offset = 2, sv_size = 5, sv_rest = 1,
     sv_final = 4, sv_aligned = False \<rparr>"

definition example_view37 :: subvector where
  "example_view37 = \<lparr> sv_vector = 0, sv_offset = 3, sv_size = 7, sv_rest = 3,
     sv_final = 4, sv_aligned = False \<rparr>"

definition example_view46 :: subvector where
  "example_view46 = \<lparr> sv_vector = 0, sv_offset = 4, sv_size = 6, sv_rest = 2,
     sv_final = 4, sv_aligned = True \<rparr>"

definition example_source :: "int dvec" where
  "example_source = \<lparr> dv_size = 7, dv_data = [10, 20, 30, 40, 50, 60, 70, 0] \<rparr>"

definition example_heap2 :: "int heap" where
  "example_heap2 = example_heap(1 := example_source)"

text \<open>
  Two more overlapping views of the parent, of the elements 3..7 and 5..9. In the store
  with the vector of seven elements, the views of its elements 0..5 and 1..6: the last
  register of the second one, counted from its offset, ends one element past the
  storage of the vector.
\<close>

definition example_view35 :: subvector where
  "example_view35 = \<lparr> sv_vector = 0, sv_offset = 3, sv_size = 5, sv_rest = 1,
     sv_final = 4, sv_aligned = False \<rparr>"

definition example_view55 :: subvector where
  "example_view55 = \<lparr> sv_vector = 0, sv_offset = 5, sv_size = 5, sv_rest = 1,
     sv_final = 4, sv_aligned = False \<rparr>"

definition example_source06 :: subvector where
  "example_source06 = \<lparr> sv_vector = 1, sv_offset = 0, sv_size = 6, sv_rest = 2,
     sv_final = 4, sv_aligned = False \<rparr>"

definition example_source16 :: subvector where
  "example_source16 = \<lparr> sv_vector = 1, sv_offset = 1, sv_size = 6, sv_rest = 2,
     sv_final = 4, sv_aligned = False \<rparr>"

text \<open>
  The view of the elements 3..6 of the parent, and a vector of four tens that is held
  by value.
\<close>

definition example_view34 :: subvector where
  "example_view34 = \<lparr> sv_vector = 0, sv_offset = 3, sv_size = 4, sv_rest = 0,
     sv_final = 4, sv_aligned = False \<rparr>"

definition example_tens :: "int dvec" where
  "example_tens = \<lparr> dv_size = 4, dv_data = [10, 10, 10, 10] \<rparr>"

text \<open>The parameters with a streaming threshold of zero elements.\<close>

definition streaming_config :: config where
  "streaming_config = example_config \<lparr> cacheSize := 0 \<rparr>"

definition example_cross :: cross_expr where
  "example_cross = \<lparr> cpe_lhs = 1, cpe_rhs = 2 \<rparr>"

section \<open>Notions of the specification\<close>

text \<open>
  The register width is a power of two (1, 2, 4, ... elements), small enough for four
  registers to be counted in a \<^verbatim>\<open>size_t\<close>.
\<close>

definition wf_config :: "config \<Rightarrow> bool" where
  "wf_config cfg \<longleftrightarrow> (\<exists>k<62. IT_size cfg = 2 ^ k)"

text \<open>
  A parent holds its elements in its storage, and the capacity is a multiple of the
  register width (the padding).
\<close>

definition wf_dvec :: "config \<Rightarrow> 'a dvec \<Rightarrow> bool" where
  "wf_dvec cfg v \<longleftrightarrow>
     unat (dv_size v) \<le> length (dv_data v) \<and> unat (IT_size cfg) dvd length (dv_data v)"

text \<open>
  A valid view is one the constructor returns for its parent, offset and size, with
  \<open>offset + size \<le> parent.size()\<close> as natural numbers.
\<close>

definition valid_view :: "config \<Rightarrow> 'a heap \<Rightarrow> subvector \<Rightarrow> bool" where
  "valid_view cfg h sv \<longleftrightarrow>
     DenseSubvector cfg h (sv_vector sv) (sv_offset sv) (sv_size sv) = Inr sv \<and>
     unat (sv_offset sv) + unat (sv_size sv) \<le> unat (dv_size (h (sv_vector sv)))"

text \<open>Two stores have the same shape if every vector has kept its size and capacity.\<close>

definition same_shape :: "'a heap \<Rightarrow> 'a heap \<Rightarrow> bool" where
  "same_shape h h' \<longleftrightarrow>
     (\<forall>a. dv_size (h' a) = dv_size (h a) \<and> length (dv_data (h' a)) = length (dv_data (h a)))"

text \<open>
  The frame of a view \<open>sv\<close> between a store \<open>h\<close> and a later store \<open>h'\<close>: every vector
  but the parent is what it was, the parent has kept its size and capacity, and each
  of its elements below \<open>size()\<close> outside of \<open>[offset, offset + size)\<close> has kept its
  value. The padding elements of the parent, from \<open>size()\<close> up to the capacity, have
  kept their values as well, unless the view is aligned and its last register is
  incomplete.
\<close>

definition frame :: "subvector \<Rightarrow> 'a heap \<Rightarrow> 'a heap \<Rightarrow> bool" where
  "frame sv h h' \<longleftrightarrow>
     same_shape h h' \<and>
     (\<forall>a. a \<noteq> sv_vector sv \<longrightarrow> h' a = h a) \<and>
     (\<forall>j. j < unat (dv_size (h (sv_vector sv))) \<longrightarrow>
          j < unat (sv_offset sv) \<or> unat (sv_offset sv) + unat (sv_size sv) \<le> j \<longrightarrow>
          dv_data (h' (sv_vector sv)) ! j = dv_data (h (sv_vector sv)) ! j) \<and>
     (\<not> (sv_aligned sv \<and> sv_rest sv \<noteq> 0) \<longrightarrow>
        (\<forall>j. unat (dv_size (h (sv_vector sv))) \<le> j \<longrightarrow>
             j < length (dv_data (h (sv_vector sv))) \<longrightarrow>
             dv_data (h' (sv_vector sv)) ! j = dv_data (h (sv_vector sv)) ! j))"

text \<open>
  An operation stays within the view if it returns a store and the frame of the view
  holds between the store it was given and the store it returns.
\<close>

definition within_view :: "subvector \<Rightarrow> 'a heap \<Rightarrow> error + 'a heap \<Rightarrow> bool" where
  "within_view sv h r \<longleftrightarrow> (\<exists>h'. r = Inr h' \<and> frame sv h h')"

text \<open>
  A well-formed sparse vector: the index of every non-zero element is below the size,
  and no index occurs twice.
\<close>

definition wf_svec :: "'a svec \<Rightarrow> bool" where
  "wf_svec s \<longleftrightarrow>
     (\<forall>e \<in> set (svec_elements s). fst e < svec_size s) \<and>
     distinct (map fst (svec_elements s))"

text \<open>
  The element \<open>i\<close> of a view after the multiplication with a sparse vector, in the
  words of the specification: zero if the position is absent from the non-zero
  elements, the old value times the value of the sparse vector if it is present.
\<close>

definition sparse_product :: "(size_t \<times> 'a) list \<Rightarrow> 'a::{zero,times} list \<Rightarrow> nat \<Rightarrow> 'a" where
  "sparse_product elems old i =
     (case map_of elems (word_of_nat i) of None \<Rightarrow> 0 | Some x \<Rightarrow> old ! i * x)"

text \<open>The elements of a view read back as a list, and the view holding the list \<open>xs\<close>.\<close>

definition view_elements :: "'a heap \<Rightarrow> subvector \<Rightarrow> 'a list" where
  "view_elements h sv =
     take (unat (sv_size sv)) (drop (unat (sv_offset sv)) (dv_data (h (sv_vector sv))))"

text \<open>
  The elements of the parent that a program can observe are those below \<open>size()\<close>.
\<close>

definition visible :: "'a dvec \<Rightarrow> 'a list" where
  "visible v = take (unat (dv_size v)) (dv_data v)"

text \<open>
  The storage (elements and padding) of the vector at an address in the store that an
  operation returns; the empty list if the operation fails.
\<close>

definition storage_after :: "error + 'a heap \<Rightarrow> addr \<Rightarrow> 'a list" where
  "storage_after r a = (case r of Inl e \<Rightarrow> [] | Inr h \<Rightarrow> dv_data (h a))"

text \<open>The same for the elements below \<^verbatim>\<open>size()\<close>.\<close>

definition visible_after :: "error + 'a heap \<Rightarrow> addr \<Rightarrow> 'a list" where
  "visible_after r a = (case r of Inl e \<Rightarrow> [] | Inr h \<Rightarrow> visible (h a))"

text \<open>
  The store after writing the list \<open>vals\<close> into the storage of the vector at address
  \<open>a\<close> from index \<open>q\<close> on.
\<close>

definition splice :: "'a heap \<Rightarrow> addr \<Rightarrow> nat \<Rightarrow> 'a list \<Rightarrow> 'a heap" where
  "splice h a q vals =
     h(a := (h a)\<lparr>dv_data := take q (dv_data (h a)) @ vals @
                               drop (q + length vals) (dv_data (h a))\<rparr>)"

text \<open>
  The state of an assignment of the list \<open>xs\<close> to the view that has reached the
  element \<open>k\<close>: the frame holds and, if the values are tracked, the elements before
  \<open>k\<close> hold the values of \<open>xs\<close>.
\<close>

definition assign_inv ::
  "subvector \<Rightarrow> bool \<Rightarrow> 'a list \<Rightarrow> 'a heap \<Rightarrow> nat \<Rightarrow> 'a heap \<Rightarrow> bool" where
  "assign_inv sv track xs h k h' \<longleftrightarrow>
     frame sv h h' \<and>
     (track \<longrightarrow> (\<forall>i. i < unat (sv_size sv) \<longrightarrow> i < k \<longrightarrow>
        dv_data (h' (sv_vector sv)) ! (unat (sv_offset sv) + i) = xs ! i))"

text \<open>
  A well-formed dense operand: a vector with padded storage, or a valid view of such a
  vector. Its elements, as a list.
\<close>

fun wf_dense :: "config \<Rightarrow> 'a heap \<Rightarrow> 'a dense_operand \<Rightarrow> bool" where
  "wf_dense cfg h (DynamicVec a) = wf_dvec cfg (h a)"
| "wf_dense cfg h (Subvec v) = (valid_view cfg h v \<and> wf_dvec cfg (h (sv_vector v)))"
| "wf_dense cfg h (Temp t) = wf_dvec cfg t"

fun dense_elements :: "'a heap \<Rightarrow> 'a dense_operand \<Rightarrow> 'a list" where
  "dense_elements h (DynamicVec a) = visible (h a)"
| "dense_elements h (Subvec v) = view_elements h v"
| "dense_elements h (Temp t) = visible t"

text \<open>An operand is well formed if it is a well-formed dense or sparse operand.\<close>

fun wf_operand :: "config \<Rightarrow> 'a heap \<Rightarrow> 'a operand \<Rightarrow> bool" where
  "wf_operand cfg h (Dense d) = wf_dense cfg h d"
| "wf_operand cfg h (Sparse s) = wf_svec s"

text \<open>
  The reference implementation of the specification for an assignment under aliasing:
  copy the source into an independent list first, then write the copy into the view
  element by element.
\<close>

definition reference_assign ::
  "'a heap \<Rightarrow> subvector \<Rightarrow> 'a dense_operand \<Rightarrow> error + 'a heap" where
  "reference_assign h sv rhs =
     bind (collect (at_dense h rhs) (unat (size_dense h rhs)))
       (\<lambda>copy. for_each (zip [0..<length copy] copy)
                  (\<lambda>e h. subscript_write h sv (word_of_nat (fst e)) (snd e)) h)"

text \<open>
  The common shape of the four default kernels, with the statement that writes an
  element as a parameter, and the common shape of the two loops of the intrinsic
  kernels, with the expression that is stored as a parameter.
\<close>

definition default_kernel ::
  "('a heap \<Rightarrow> addr \<Rightarrow> size_t \<Rightarrow> 'a \<Rightarrow> error + 'a heap) \<Rightarrow>
     'a heap \<Rightarrow> subvector \<Rightarrow> 'a dense_operand \<Rightarrow> error + 'a heap" where
  "default_kernel wr h sv rhs =
     (if size_sv sv \<noteq> size_dense h rhs then Inl AssertionFailure
      else let iend = size_sv sv AND - 2 in
        bind (for_loop 0 (unat iend) 2
               (\<lambda>i h. bind (at_dense h rhs i) (\<lambda>x.
                       bind (wr h (sv_vector sv) (i + sv_offset sv) x) (\<lambda>h.
                       bind (at_dense h rhs (i + 1)) (\<lambda>y.
                       wr h (sv_vector sv) (i + sv_offset sv + 1) y)))) h)
          (\<lambda>h. if iend < size_sv sv
                then bind (at_dense h rhs iend)
                       (\<lambda>x. wr h (sv_vector sv) (iend + sv_offset sv) x)
                else Inr h))"

definition vector_kernel ::
  "('a heap \<Rightarrow> size_t \<Rightarrow> error + 'a list) \<Rightarrow> config \<Rightarrow> 'a heap \<Rightarrow> subvector \<Rightarrow>
     error + 'a heap" where
  "vector_kernel ld cfg h sv =
     (let iend = sv_size sv AND - (IT_size cfg * 4) in
        if sv_size sv - sv_size sv mod (IT_size cfg * 4) \<noteq> iend then Inl AssertionFailure
        else
          bind (for_loop 0 (unat iend) (unat (IT_size cfg * 4))
                 (\<lambda>i h.
                    bind (ld h i) (\<lambda>r.
                    bind (heap_storeu (IT_size cfg) h (sv_vector sv) (sv_offset sv + i) r) (\<lambda>h.
                    bind (ld h (i + IT_size cfg)) (\<lambda>r.
                    bind (heap_storeu (IT_size cfg) h (sv_vector sv)
                            (sv_offset sv + i + IT_size cfg) r) (\<lambda>h.
                    bind (ld h (i + IT_size cfg * 2)) (\<lambda>r.
                    bind (heap_storeu (IT_size cfg) h (sv_vector sv)
                            (sv_offset sv + i + IT_size cfg * 2) r) (\<lambda>h.
                    bind (ld h (i + IT_size cfg * 3)) (\<lambda>r.
                    heap_storeu (IT_size cfg) h (sv_vector sv)
                      (sv_offset sv + i + IT_size cfg * 3) r)))))))) h)
            (for_loop (unat iend) (unat (sv_size sv)) (unat (IT_size cfg))
               (\<lambda>i h. bind (ld h i) (subvector_storeu cfg h sv i))))"

section \<open>Properties\<close>

subsection \<open>Index arithmetic without wrap-around\<close>

lemma unat_add_bounded:
  fixes a b c :: size_t
  assumes "unat a + unat b \<le> unat c"
  shows "unat (a + b) = unat a + unat b"
proof -
  have "unat c < 2 ^ 64" using unsigned_less [of c] by simp
  with assms have "unat a + unat b < 2 ^ LENGTH(64)" by simp
  then show ?thesis by (simp only: unat_add_lem)
qed

lemma unat_add_less_bounded:
  fixes a i n c :: size_t
  assumes "unat a + unat n \<le> unat c" and "i < n"
  shows "unat (a + i) = unat a + unat i \<and> a + i < c"
proof -
  have i: "unat i < unat n" using assms(2) by (simp add: word_less_nat_alt)
  then have "unat a + unat i \<le> unat c" using assms(1) by simp
  then have u: "unat (a + i) = unat a + unat i" by (rule unat_add_bounded)
  then show ?thesis using i assms(1) by (simp add: word_less_nat_alt)
qed

subsection \<open>Construction\<close>

lemma DenseSubvector_throws_iff:
  "DenseSubvector cfg h vector index n = Inl e \<longleftrightarrow>
     e = InvalidArgument \<and> dv_size (h vector) < index + n"
  by (auto simp: DenseSubvector_def)

lemma DenseSubvector_fields:
  assumes "DenseSubvector cfg h vector index n = Inr sv"
  shows "sv_vector sv = vector \<and> sv_offset sv = index \<and> sv_size sv = n \<and>
         sv_rest sv = n mod IT_size cfg \<and> sv_final sv = n - n mod IT_size cfg \<and>
         index + n \<le> dv_size (h vector)"
  using assms by (auto simp: DenseSubvector_def split: if_splits)

lemma DenseSubvector_aligned:
  assumes "DenseSubvector cfg h vector index n = Inr sv"
  shows "sv_aligned sv \<longleftrightarrow>
          index mod IT_size cfg = 0 \<and> (index + n = dv_size (h vector) \<or> n mod IT_size cfg = 0)"
proof (cases "dv_size (h vector) < index + n")
  case True
  with assms show ?thesis by (simp add: DenseSubvector_def)
next
  case False
  with assms have "sv = \<lparr> sv_vector = vector, sv_offset = index, sv_size = n,
       sv_rest = n mod IT_size cfg, sv_final = n - n mod IT_size cfg,
       sv_aligned = (index mod IT_size cfg = 0 \<and>
                     (index + n = dv_size (h vector) \<or> n mod IT_size cfg = 0)) \<rparr>"
    by (simp add: DenseSubvector_def)
  then have "sv_aligned sv = (index mod IT_size cfg = 0 \<and>
                     (index + n = dv_size (h vector) \<or> n mod IT_size cfg = 0))"
    by (simp only: subvector.simps)
  then show ?thesis .
qed

text \<open>
  The check of the constructor adds \<^verbatim>\<open>index\<close> and \<^verbatim>\<open>n\<close> as \<^verbatim>\<open>size_t\<close> values:
  a sum that passes \<open>2^64\<close> wraps around and is compared after the wrap. Over a parent
  of three elements, offset \<open>2^64 - 1\<close> and length 2 are accepted.
\<close>

lemma DenseSubvector_sum_wraps:
  "DenseSubvector example_config (\<lambda>a. \<lparr> dv_size = 3, dv_data = [1, 2, 3, 0 :: int] \<rparr>) 0 (- 1) 2 =
     Inr \<lparr> sv_vector = 0, sv_offset = - 1, sv_size = 2, sv_rest = 2, sv_final = 0,
           sv_aligned = False \<rparr>"
  by (simp add: DenseSubvector_def example_config_def)

text \<open>
  C1. For every parent dense vector and every offset and length with
  \<open>offset + length \<le> parent.size()\<close>, the view is constructed, \<open>view.size()\<close> is the
  length, reading \<open>view[i]\<close> for \<open>i < length\<close> returns the parent's element at
  \<open>offset + i\<close>, and a write through \<open>view[i]\<close> changes exactly that element of the
  parent. (The parent's storage holds at least \<open>size()\<close> elements.)
\<close>

theorem subvector_view_elements:
  assumes "unat index + unat n \<le> unat (dv_size (h vector))"
      and "unat (dv_size (h vector)) \<le> length (dv_data (h vector))"
  shows "\<exists>sv. DenseSubvector cfg h vector index n = Inr sv \<and> size_sv sv = n \<and>
     (\<forall>i. i < n \<longrightarrow>
         subscript h sv i = Inr (dv_data (h vector) ! (unat index + unat i)) \<and>
         subscript h sv i = heap_at h vector (index + i) \<and>
         (\<forall>x. subscript_write h sv i x = heap_set h vector (index + i) x \<and>
              subscript_write h sv i x =
                Inr (h(vector := (h vector)
                       \<lparr>dv_data := (dv_data (h vector))[unat index + unat i := x]\<rparr>))))"
proof -
  have nowrap: "unat (index + n) = unat index + unat n"
    using assms(1) by (rule unat_add_bounded)
  have ok: "\<not> dv_size (h vector) < index + n"
    using nowrap assms(1) by (simp add: word_less_nat_alt)
  have el: "unat (index + i) = unat index + unat i \<and> index + i < dv_size (h vector)"
    if "i < n" for i
    using unat_add_less_bounded [OF assms(1) that] .
  have inb: "unat index + unat i < length (dv_data (h vector))" if "i < n" for i
    using el [OF that] assms(2) by (simp add: word_less_nat_alt)
  show ?thesis
    using ok el inb
    by (simp add: DenseSubvector_def size_sv_def subscript_def subscript_write_def
        heap_at_def heap_set_def dvec_at_def dvec_set_def bind_def)
qed

theorem subvector_view_elements_witness:
  "\<exists>sv. DenseSubvector example_config example_heap 0 3 4 = Inr sv \<and> size_sv sv = 4 \<and>
     subscript example_heap sv 0 = Inr 3 \<and> subscript example_heap sv 1 = Inr 4 \<and>
     subscript example_heap sv 2 = Inr 5 \<and> subscript example_heap sv 3 = Inr 6 \<and>
     subscript_write example_heap sv 1 40 =
       Inr (example_heap(0 := \<lparr> dv_size = 10,
                                 dv_data = [0, 1, 2, 3, 40, 5, 6, 7, 8, 9, 0, 0] \<rparr>))"
  using subvector_view_elements [of 3 4 example_heap 0 example_config]
  by (simp add: example_heap_def example_parent_def example_config_def scalar_config_def DenseSubvector_def size_sv_def
      subscript_def subscript_write_def heap_at_def heap_set_def dvec_at_def dvec_set_def
      bind_def)

text \<open>
  C2, as the code has it. For a dense vector parent of any size and every offset and
  length whose sum does not overflow \<^verbatim>\<open>size_t\<close>, \<open>offset + length > parent.size()\<close>
  makes the construction fail at once with \<^verbatim>\<open>std::invalid_argument\<close>: no view is
  returned, nothing is clamped. (A view over a cross product is constructed without
  any check, see \<open>cross_subvector_unchecked\<close>.)
\<close>

theorem DenseSubvector_invalid_range:
  assumes "unat (dv_size (h vector)) < unat index + unat n"
      and "unat index + unat n < 2 ^ 64"
  shows "DenseSubvector cfg h vector index n = Inl InvalidArgument"
proof -
  have "unat (index + n) = unat index + unat n"
    using assms(2) unat_add_lem [of index n] by simp
  then have "dv_size (h vector) < index + n"
    using assms(1) by (simp add: word_less_nat_alt)
  then show ?thesis by (simp add: DenseSubvector_throws_iff)
qed

theorem DenseSubvector_invalid_range_witness:
  "unat (dv_size (example_heap 0)) < unat (8 :: size_t) + unat (4 :: size_t) \<and>
   DenseSubvector example_config example_heap 0 8 4 = Inl InvalidArgument \<and>
   DenseSubvector example_config example_heap 1 0 1 = Inl InvalidArgument"
  using DenseSubvector_invalid_range [of example_heap 0 8 4 example_config]
    DenseSubvector_invalid_range [of example_heap 1 0 1 example_config]
  by (simp add: example_heap_def example_parent_def example_config_def scalar_config_def)

text \<open>
  The claim C2 as stated includes every kind of parent. The constructor of the
  specialisation for cross products has no check: over a cross product (of size 3)
  offset 2 and length 5 yield a view.
\<close>

theorem cross_subvector_unchecked:
  "size_cpe example_cross < 2 + 5 \<and>
   subvector_cpe example_cross 2 5 \<noteq> Inl InvalidArgument \<and>
   subvector_cpe example_cross 2 5 =
     Inr \<lparr> cp_vector = example_cross, cp_offset = 2, cp_size = 5 \<rparr>"
  by (simp add: size_cpe_def subvector_cpe_def DenseSubvector_CrossExpr_def)

text \<open>
  C6. The alignment flag cached by the constructor is true exactly if the offset is a
  multiple of the register width and the view either ends at the parent's end or has a
  length that is a multiple of the width; for width 1 it is true.
\<close>

theorem aligned_flag_formula:
  assumes "DenseSubvector cfg h vector index n = Inr sv"
  shows "(sv_aligned sv \<longleftrightarrow>
            index mod IT_size cfg = 0 \<and>
            (index + n = dv_size (h vector) \<or> n mod IT_size cfg = 0)) \<and>
         (IT_size cfg = 1 \<longrightarrow> sv_aligned sv)"
proof -
  have "index mod 1 = 0 \<and> n mod 1 = 0"
    by (simp add: word_mod_def)
  with DenseSubvector_aligned [OF assms] show ?thesis
    by (cases "IT_size cfg = 1") simp_all
qed

theorem aligned_flag_formula_witness:
  "(\<exists>sv. DenseSubvector example_config example_heap 0 4 6 = Inr sv \<and> sv_aligned sv) \<and>
   (\<exists>sv. DenseSubvector example_config example_heap 0 4 4 = Inr sv \<and> sv_aligned sv) \<and>
   (\<exists>sv. DenseSubvector example_config example_heap 0 3 4 = Inr sv \<and> \<not> sv_aligned sv) \<and>
   (\<exists>sv. DenseSubvector example_config example_heap 0 4 5 = Inr sv \<and> \<not> sv_aligned sv) \<and>
   (\<exists>sv. DenseSubvector scalar_config example_heap 0 3 5 = Inr sv \<and> sv_aligned sv)"
  using aligned_flag_formula [of example_config example_heap 0 4 6]
    aligned_flag_formula [of example_config example_heap 0 4 4]
    aligned_flag_formula [of example_config example_heap 0 3 4]
    aligned_flag_formula [of example_config example_heap 0 4 5]
    aligned_flag_formula [of scalar_config example_heap 0 3 5]
  by (simp add: example_heap_def example_parent_def example_config_def scalar_config_def DenseSubvector_def)

text \<open>
  A subvector of a view \<open>dv\<close> is a view on the parent of \<open>dv\<close> (the reference to the
  parent is copied, \<open>dv\<close> itself is not referenced). As long as the sum of the offset
  of \<open>dv\<close>, the index and the size stays below \<open>2^64\<close>, its offset is
  \<open>dv.offset + index\<close>, its length the given size, the constructor throws
  \<^verbatim>\<open>std::invalid_argument\<close> exactly if the composed bound exceeds the size of that
  parent, and the elements of the new view are the parent's elements from the composed
  offset on.
\<close>

lemma subvector_sv_composed:
  assumes "unat (sv_offset dv) + unat index + unat sz < 2 ^ 64"
  shows "(unat (dv_size (h (sv_vector dv))) < unat (sv_offset dv) + unat index + unat sz \<longrightarrow>
            subvector_sv cfg h dv index sz = Inl InvalidArgument) \<and>
         (unat (sv_offset dv) + unat index + unat sz \<le> unat (dv_size (h (sv_vector dv))) \<longrightarrow>
            (\<exists>sv. subvector_sv cfg h dv index sz = Inr sv \<and>
               sv_vector sv = sv_vector dv \<and>
               unat (sv_offset sv) = unat (sv_offset dv) + unat index \<and>
               sv_size sv = sz \<and>
               (\<forall>i. i < sz \<longrightarrow>
                  subscript h sv i = heap_at h (sv_vector dv) (sv_offset sv + i) \<and>
                  unat (sv_offset sv + i) = unat (sv_offset dv) + unat index + unat i)))"
proof -
  have "unat (sv_offset dv) + unat index < 2 ^ LENGTH(64)" using assms by simp
  then have u1: "unat (sv_offset dv + index) = unat (sv_offset dv) + unat index"
    by (simp only: unat_add_lem)
  have "unat (sv_offset dv + index) + unat sz < 2 ^ LENGTH(64)" using assms u1 by simp
  then have "unat (sv_offset dv + index + sz) = unat (sv_offset dv + index) + unat sz"
    by (simp only: unat_add_lem)
  then have u2: "unat (sv_offset dv + index + sz) = unat (sv_offset dv) + unat index + unat sz"
    using u1 by simp
  have u3: "unat (sv_offset dv + index + i) = unat (sv_offset dv) + unat index + unat i"
    if "i < sz" for i
  proof -
    have "unat i < unat sz" using that by (simp add: word_less_nat_alt)
    then have "unat (sv_offset dv + index) + unat i < 2 ^ LENGTH(64)" using assms u1 by simp
    then have "unat (sv_offset dv + index + i) = unat (sv_offset dv + index) + unat i"
      by (simp only: unat_add_lem)
    then show ?thesis using u1 by simp
  qed
  show ?thesis
    using u1 u2 u3
    by (auto simp: subvector_sv_def DenseSubvector_def subscript_def size_sv_def
        word_less_nat_alt)
qed

text \<open>
  C8. The claim, with its composed bound \<open>dv.offset + index + size\<close> and the range
  error if it exceeds the size of the parent, fails where the sum passes \<open>2^64\<close>:
  \<^verbatim>\<open>dv.offset_ + index\<close> and the sum in the check of the constructor are \<^verbatim>\<open>size_t\<close>
  sums. For the view of the elements 3..6 of the parent of ten elements, the index
  \<open>2^64 - 3\<close> and the size 5 the composed bound is \<open>2^64 + 5\<close>, and the function
  returns the view of the elements 0..4 of the parent.
\<close>

theorem subvector_of_subvector_wraps:
  "unat (dv_size (example_heap (sv_vector example_view34)))
     < unat (sv_offset example_view34) + unat (18446744073709551613 :: size_t)
         + unat (5 :: size_t) \<and>
   subvector_sv example_config example_heap example_view34 18446744073709551613 5 =
     Inr \<lparr> sv_vector = 0, sv_offset = 0, sv_size = 5, sv_rest = 1, sv_final = 4,
           sv_aligned = False \<rparr>"
  by (simp add: subvector_sv_def DenseSubvector_def example_view34_def example_heap_def
      example_parent_def example_config_def)

subsection \<open>Size mismatch and self-assignment\<close>

text \<open>
  The four operators with a vector operand compare the sizes first and throw
  \<^verbatim>\<open>std::invalid_argument\<close> on a mismatch: no store is returned, so nothing has been
  written. The copy assignment operator does the same once its test for
  self-assignment has failed.
\<close>

lemma size_mismatch_throws:
  fixes h :: "'a::{zero,plus,minus,times} heap"
  assumes "size_op h rhs \<noteq> size_sv sv"
  shows "op_assign cfg h sv rhs = Inl InvalidArgument \<and>
         op_add_assign cfg h sv rhs = Inl InvalidArgument \<and>
         op_sub_assign cfg h sv rhs = Inl InvalidArgument \<and>
         op_mult_assign cfg h sv rhs = Inl InvalidArgument"
  using assms
  by (auto simp: op_assign_def op_add_assign_def op_sub_assign_def op_mult_assign_def)

lemma copy_assign_size_mismatch_throws:
  assumes "size_sv rhs \<noteq> size_sv sv"
      and "sv_vector rhs \<noteq> sv_vector sv \<or> sv_offset rhs \<noteq> sv_offset sv"
  shows "copy_assign cfg h sv rhs = Inl InvalidArgument"
  using assms by (auto simp: copy_assign_def)

text \<open>
  C7 at the copy assignment operator. Its documentation says that
  \<^verbatim>\<open>std::invalid_argument\<close> is thrown if the sizes of the two subvectors do not match,
  but the test for self-assignment (same parent, same offset) comes first and does not
  look at the sizes: assigning the view of the elements 2..6 to the view of the
  elements 2..4 of the same vector returns without an exception (and without a write).
\<close>

theorem copy_assign_ignores_size_mismatch:
  "size_sv \<lparr> sv_vector = 0, sv_offset = 2, sv_size = 5, sv_rest = 1, sv_final = 4,
             sv_aligned = False \<rparr> \<noteq>
   size_sv \<lparr> sv_vector = 0, sv_offset = 2, sv_size = 3, sv_rest = 3, sv_final = 0,
             sv_aligned = False \<rparr> \<and>
   DenseSubvector example_config example_heap 0 2 3 =
     Inr \<lparr> sv_vector = 0, sv_offset = 2, sv_size = 3, sv_rest = 3, sv_final = 0,
           sv_aligned = False \<rparr> \<and>
   DenseSubvector example_config example_heap 0 2 5 =
     Inr \<lparr> sv_vector = 0, sv_offset = 2, sv_size = 5, sv_rest = 1, sv_final = 4,
           sv_aligned = False \<rparr> \<and>
   copy_assign example_config example_heap
     \<lparr> sv_vector = 0, sv_offset = 2, sv_size = 3, sv_rest = 3, sv_final = 0,
       sv_aligned = False \<rparr>
     \<lparr> sv_vector = 0, sv_offset = 2, sv_size = 5, sv_rest = 1, sv_final = 4,
       sv_aligned = False \<rparr> = Inr example_heap"
  by (simp add: copy_assign_def size_sv_def DenseSubvector_def example_config_def
      example_heap_def example_parent_def)

text \<open>
  C9. Copy assignment from a view with the same parent and the same offset, and so the
  assignment of a view to itself, returns the store as it was: no element changes.
\<close>

theorem copy_assign_same_view:
  "(sv_vector rhs = sv_vector sv \<and> sv_offset rhs = sv_offset sv \<longrightarrow>
      copy_assign cfg h sv rhs = Inr h) \<and>
   copy_assign cfg h sv sv = Inr h"
  by (simp add: copy_assign_def)

theorem copy_assign_same_view_witness:
  "copy_assign example_config example_heap
     \<lparr> sv_vector = 0, sv_offset = 3, sv_size = 4, sv_rest = 0, sv_final = 4,
       sv_aligned = False \<rparr>
     \<lparr> sv_vector = 0, sv_offset = 3, sv_size = 4, sv_rest = 0, sv_final = 4,
       sv_aligned = False \<rparr> = Inr example_heap"
  using copy_assign_same_view [of
     "\<lparr> sv_vector = 0, sv_offset = 3, sv_size = 4, sv_rest = 0, sv_final = 4,
        sv_aligned = False \<rparr>"
     "\<lparr> sv_vector = 0, sv_offset = 3, sv_size = 4, sv_rest = 0, sv_final = 4,
        sv_aligned = False \<rparr>" example_config example_heap]
  by simp

subsection \<open>Loops and the error monad\<close>

lemma bind_Inr [simp]: "bind (Inr x) f = f x"
  by (simp add: bind_def)
lemma bind_Inl [simp]: "bind (Inl e) f = Inl e"
  by (simp add: bind_def)

lemma bind_eq_Inr: "bind m f = Inr y \<longleftrightarrow> (\<exists>x. m = Inr x \<and> f x = Inr y)"
  by (cases m) simp_all

declare for_loop.simps [simp del]

lemma for_loop_rule:
  assumes step: "0 < step"
      and inv: "I i s"
      and body: "\<And>j s. I j s \<Longrightarrow> j < iend \<Longrightarrow> \<exists>s'. body (word_of_nat j) s = Inr s' \<and> I (j + step) s'"
  shows "\<exists>s' j. for_loop i iend step body s = Inr s' \<and> I j s' \<and> iend \<le> j"
  using inv
proof (induction "iend - i" arbitrary: i s rule: less_induct)
  case less
  show ?case
  proof (cases "i < iend")
    case False
    then have "for_loop i iend step body s = Inr s"
      using step by (simp add: for_loop.simps)
    with False less.prems show ?thesis by auto
  next
    case True
    from body [OF less.prems True] obtain s1 where
      s1: "body (word_of_nat i) s = Inr s1" "I (i + step) s1" by blast
    have "iend - (i + step) < iend - i" using True step by simp
    from less.hyps [OF this s1(2)] obtain s' j where
      "for_loop (i + step) iend step body s1 = Inr s'" "I j s'" "iend \<le> j" by blast
    moreover have "for_loop i iend step body s = for_loop (i + step) iend step body s1"
      using True step s1(1) by (subst for_loop.simps) simp
    ultimately show ?thesis by auto
  qed
qed

lemma for_each_rule:
  assumes inv: "I [] s"
      and body: "\<And>done x rest s. xs = done @ x # rest \<Longrightarrow> I done s \<Longrightarrow>
                   \<exists>s'. body x s = Inr s' \<and> I (done @ [x]) s'"
  shows "\<exists>s'. for_each xs body s = Inr s' \<and> I xs s'"
proof -
  have "\<exists>s'. for_each ys body s = Inr s' \<and> I (pre @ ys) s'"
    if "I pre s" "xs = pre @ ys" for pre ys s
    using that
  proof (induction ys arbitrary: pre s)
    case Nil
    then show ?case by simp
  next
    case (Cons y ys)
    from body [OF Cons.prems(2) Cons.prems(1)] obtain s1 where
      s1: "body y s = Inr s1" "I (pre @ [y]) s1" by auto
    from Cons.IH [OF s1(2)] Cons.prems(2) obtain s' where
      "for_each ys body s1 = Inr s'" "I ((pre @ [y]) @ ys) s'" by auto
    with s1(1) show ?case by simp
  qed
  from this [of "[]" s xs] inv show ?thesis by simp
qed

lemma collect_rule:
  assumes "\<And>k. k < n \<Longrightarrow> f (word_of_nat k) = Inr (g k)"
  shows "collect f n = Inr (map g [0..<n])"
  using assms by (induction n) simp_all

subsection \<open>Word arithmetic of the loop bounds\<close>

lemma and_neg_pow2:
  fixes x :: size_t
  shows "x AND - (2 ^ k) = x - x mod 2 ^ k"
proof -
  have "x AND NOT (mask k) = push_bit k (drop_bit k x)"
    by (rule bit_eqI) (auto simp: bit_simps)
  moreover have "push_bit k (drop_bit k x) + take_bit k x = x"
    by (rule bits_ident)
  ultimately have "x AND NOT (mask k) = x - take_bit k x"
    by (metis add_diff_cancel_right')
  then show ?thesis
    by (simp add: minus_exp_eq_not_mask take_bit_eq_mod)
qed

lemma unat_pow2:
  assumes "k < 64"
  shows "unat ((2 :: size_t) ^ k) = 2 ^ k"
proof -
  have "(2 :: nat) ^ k < 2 ^ 64" using assms by (rule power_strict_increasing) simp
  then have "(2 :: nat) ^ k mod 2 ^ LENGTH(64) = 2 ^ k" by simp
  moreover have "(2 :: size_t) ^ k = word_of_nat (2 ^ k)" by simp
  ultimately show ?thesis by (simp only: unat_of_nat)
qed

lemma unat_and_neg_pow2:
  fixes x :: size_t
  assumes "k < 64"
  shows "unat (x AND - (2 ^ k)) = unat x - unat x mod 2 ^ k"
proof -
  have u: "unat (x mod 2 ^ k) = unat x mod 2 ^ k"
    using assms by (simp add: unat_mod_distrib unat_pow2)
  then have "unat (x mod 2 ^ k) \<le> unat x" by simp
  then have le: "x mod 2 ^ k \<le> x" by (simp only: word_le_nat_alt)
  with u show ?thesis
    by (simp add: and_neg_pow2 unat_sub)
qed

lemma dvd_step_le:
  fixes w c m :: nat
  assumes "w dvd c" "w dvd m" "c < m"
  shows "c + w \<le> m"
proof -
  have "w dvd m - c" using assms(2,1) by (rule dvd_diff_nat)
  moreover have "0 < m - c" using assms by simp
  ultimately have "w \<le> m - c" by (rule dvd_imp_le)
  then show ?thesis using assms by simp
qed

lemma padding_dvd:
  assumes "0 < unat w"
  shows "unat w dvd n + padding w n"
proof (cases "n mod unat w = 0")
  case True
  then show ?thesis using assms by (simp add: padding_def dvd_eq_mod_eq_0)
next
  case False
  have lt: "n mod unat w < unat w" using assms by simp
  then have "padding w n = unat w - n mod unat w" using assms False by (simp add: padding_def)
  moreover have "n mod unat w \<le> n" by simp
  ultimately have "n + padding w n = (n - n mod unat w) + unat w"
    using lt by arith
  moreover have "unat w dvd n - n mod unat w" by (simp add: dvd_minus_mod)
  ultimately show ?thesis by (simp only: dvd_add_triv_right_iff)
qed

lemma unat_of_nat_add:
  fixes off z :: size_t
  assumes "unat off + c \<le> unat z"
  shows "unat (word_of_nat c + off) = unat off + c" and "unat (off + word_of_nat c) = unat off + c"
    and "unat (word_of_nat c :: size_t) = c"
proof -
  have z: "unat z < 2 ^ 64" using unsigned_less [of z] by simp
  then have c: "c < 2 ^ LENGTH(64)" using assms by simp
  then show u: "unat (word_of_nat c :: size_t) = c" by (simp add: unat_of_nat)
  have "unat off + unat (word_of_nat c :: size_t) \<le> unat z" using u assms by simp
  from unat_add_bounded [OF this] u show "unat (off + word_of_nat c) = unat off + c" by simp
  then show "unat (word_of_nat c + off) = unat off + c" by (simp add: add.commute)
qed

subsection \<open>Writes into the parent\<close>

lemma nth_splice:
  assumes "q + length vals \<le> length d"
  shows "(take q d @ vals @ drop (q + length vals) d) ! j =
           (if q \<le> j \<and> j < q + length vals then vals ! (j - q) else d ! j)"
proof -
  have lq: "length (take q d) = q" using assms by simp
  show ?thesis
  proof (cases "j < q")
    case True
    then show ?thesis using lq by (simp add: nth_append)
  next
    case False
    show ?thesis
    proof (cases "j < q + length vals")
      case True
      with False have "j - q < length vals" by arith
      with True False show ?thesis using lq by (simp add: nth_append)
    next
      case F2: False
      with False assms show ?thesis using lq
        by (cases "j < length d") (auto simp add: nth_append )
    qed
  qed
qed

lemma length_splice:
  assumes "q + length vals \<le> length d"
  shows "length (take q d @ vals @ drop (q + length vals) d) = length d"
  using assms by simp

lemma heap_set_splice:
  assumes "i < dv_size (h a)" "unat i < length (dv_data (h a))"
  shows "heap_set h a i x = Inr (splice h a (unat i) [x])"
  using assms
  by (simp add: heap_set_def dvec_set_def splice_def upd_conv_take_nth_drop)

lemma heap_storeu_splice:
  assumes "i < dv_size (h a)" "unat i + unat w \<le> length (dv_data (h a))" "length val = unat w"
  shows "heap_storeu w h a i val = Inr (splice h a (unat i) val)"
  using assms
  by (simp add: heap_storeu_def dvec_storeu_def splice_def)

lemma heap_stream_splice:
  assumes "i < dv_size (h a)" "unat i + unat w \<le> length (dv_data (h a))" "length val = unat w"
  shows "heap_stream w h a i val = Inr (splice h a (unat i) val)"
  using assms
  by (simp add: heap_stream_def dvec_stream_def dvec_storeu_def splice_def)

lemma frame_refl: "frame sv h h"
  by (simp add: frame_def same_shape_def)

lemma assign_inv_init: "assign_inv sv track xs h 0 h"
  by (simp add: assign_inv_def frame_refl)

lemma frame_shape:
  assumes "frame sv h h'"
  shows "dv_size (h' a) = dv_size (h a)" "length (dv_data (h' a)) = length (dv_data (h a))"
  using assms by (simp_all add: frame_def same_shape_def)

lemma splice_assign_inv:
  fixes sv :: subvector and h h1 :: "'a heap"
  defines "p \<equiv> sv_vector sv" and "lo \<equiv> unat (sv_offset sv)" and "n \<equiv> unat (sv_size sv)"
  assumes I: "assign_inv sv track xs h c h1"
      and b1: "lo + n \<le> unat (dv_size (h p))"
      and cap: "lo + c + length vals \<le> length (dv_data (h p))"
      and lanes: "c + length vals \<le> n \<or>
                  (unat (dv_size (h p)) \<le> lo + n \<and> sv_aligned sv \<and> sv_rest sv \<noteq> 0)"
      and vals: "track \<Longrightarrow> \<forall>l < length vals. c + l < n \<longrightarrow> vals ! l = xs ! (c + l)"
  shows "assign_inv sv track xs h (c + length vals) (splice h1 p (lo + c) vals)"
proof -
  let ?h2 = "splice h1 p (lo + c) vals"
  from I have fr: "frame sv h h1" by (simp add: assign_inv_def)
  have len1: "length (dv_data (h1 p)) = length (dv_data (h p))"
    and sz1: "dv_size (h1 p) = dv_size (h p)"
    using frame_shape [OF fr] by simp_all
  have cap1: "lo + c + length vals \<le> length (dv_data (h1 p))" using cap len1 by simp
  have d2: "dv_data (?h2 p) ! j =
       (if lo + c \<le> j \<and> j < lo + c + length vals then vals ! (j - (lo + c)) else dv_data (h1 p) ! j)" for j
    using nth_splice [OF cap1, of j] by (simp add: splice_def)
  have "frame sv h ?h2"
    unfolding frame_def same_shape_def
  proof (intro conjI allI impI)
    fix a show "dv_size (?h2 a) = dv_size (h a)"
      using frame_shape(1) [OF fr, of a] sz1 by (cases "a = p") (simp_all add: splice_def)
    show "length (dv_data (?h2 a)) = length (dv_data (h a))"
      using frame_shape(2) [OF fr, of a] cap1 len1 by (cases "a = p") (simp_all add: splice_def)
  next
    fix a assume "a \<noteq> sv_vector sv"
    then show "?h2 a = h a" using fr by (simp add: splice_def frame_def p_def)
  next
    fix j assume j: "j < unat (dv_size (h (sv_vector sv)))"
      and out: "j < unat (sv_offset sv) \<or> unat (sv_offset sv) + unat (sv_size sv) \<le> j"
    have "\<not> (lo + c \<le> j \<and> j < lo + c + length vals)"
      using j out lanes by (auto simp: p_def lo_def n_def)
    then have "dv_data (?h2 p) ! j = dv_data (h1 p) ! j" by (simp only: d2 if_False)
    also have "\<dots> = dv_data (h p) ! j" using fr j out unfolding frame_def p_def by blast
    finally show "dv_data (?h2 (sv_vector sv)) ! j = dv_data (h (sv_vector sv)) ! j"
      by (simp add: p_def)
  next
    fix j assume na: "\<not> (sv_aligned sv \<and> sv_rest sv \<noteq> 0)"
      and j: "unat (dv_size (h (sv_vector sv))) \<le> j"
      and jl: "j < length (dv_data (h (sv_vector sv)))"
    have "c + length vals \<le> n" using lanes na by blast
    then have "\<not> (lo + c \<le> j \<and> j < lo + c + length vals)"
      using j b1 by (simp add: p_def)
    then have "dv_data (?h2 p) ! j = dv_data (h1 p) ! j" by (simp only: d2 if_False)
    also have "\<dots> = dv_data (h p) ! j" using fr na j jl unfolding frame_def p_def by blast
    finally show "dv_data (?h2 (sv_vector sv)) ! j = dv_data (h (sv_vector sv)) ! j"
      by (simp add: p_def)
  qed
  moreover have "dv_data (?h2 p) ! (lo + i) = xs ! i"
    if track and "i < n" and "i < c + length vals" for i
  proof (cases "i < c")
    case True
    then have "dv_data (?h2 p) ! (lo + i) = dv_data (h1 p) ! (lo + i)" using d2 by simp
    also have "\<dots> = xs ! i" using I True that by (simp add: assign_inv_def p_def lo_def n_def)
    finally show ?thesis .
  next
    case False
    then have "dv_data (?h2 p) ! (lo + i) = vals ! (i - c)" using d2 that by simp
    also have "\<dots> = xs ! i" using vals [OF \<open>track\<close>] False that by auto
    finally show ?thesis .
  qed
  ultimately show ?thesis by (simp add: assign_inv_def p_def lo_def n_def)
qed

subsection \<open>Views and operands\<close>

lemma wf_config_width:
  assumes "wf_config cfg"
  shows "\<exists>k<62. IT_size cfg = 2 ^ k \<and> unat (IT_size cfg) = 2 ^ k \<and>
           IT_size cfg * 4 = 2 ^ (k + 2) \<and> unat (IT_size cfg * 4) = 4 * 2 ^ k"
proof -
  from assms obtain k where k: "k < 62" "IT_size cfg = 2 ^ k" by (auto simp: wf_config_def)
  have "unat (IT_size cfg) = 2 ^ k" using k by (simp add: unat_pow2)
  moreover have "IT_size cfg * 4 = 2 ^ (k + 2)" using k by simp
  moreover have "unat ((2 :: size_t) ^ (k + 2)) = 2 ^ (k + 2)" using k by (intro unat_pow2) simp
  ultimately have "unat (IT_size cfg * 4) = 4 * 2 ^ k" by (simp only:) simp
  with \<open>unat (IT_size cfg) = 2 ^ k\<close> \<open>IT_size cfg * 4 = 2 ^ (k + 2)\<close> k
  show ?thesis by blast
qed

lemma wf_config_pos: "wf_config cfg \<Longrightarrow> 0 < unat (IT_size cfg)"
  using wf_config_width [of cfg] by auto

lemma valid_view_nat:
  assumes "valid_view cfg h sv"
  shows "unat (sv_offset sv) + unat (sv_size sv) \<le> unat (dv_size (h (sv_vector sv)))"
    and "unat (sv_rest sv) = unat (sv_size sv) mod unat (IT_size cfg)"
    and "unat (sv_final sv) = unat (sv_size sv) - unat (sv_size sv) mod unat (IT_size cfg)"
    and "sv_aligned sv \<longleftrightarrow>
           unat (sv_offset sv) mod unat (IT_size cfg) = 0 \<and>
           (unat (sv_offset sv) + unat (sv_size sv) = unat (dv_size (h (sv_vector sv))) \<or>
            unat (sv_size sv) mod unat (IT_size cfg) = 0)"
proof -
  from assms have c: "DenseSubvector cfg h (sv_vector sv) (sv_offset sv) (sv_size sv) = Inr sv"
    and b: "unat (sv_offset sv) + unat (sv_size sv) \<le> unat (dv_size (h (sv_vector sv)))"
    by (simp_all add: valid_view_def)
  show "unat (sv_offset sv) + unat (sv_size sv) \<le> unat (dv_size (h (sv_vector sv)))" by (rule b)
  from DenseSubvector_fields [OF c] have
    r: "sv_rest sv = sv_size sv mod IT_size cfg" and
    f: "sv_final sv = sv_size sv - sv_size sv mod IT_size cfg" by simp_all
  show ur: "unat (sv_rest sv) = unat (sv_size sv) mod unat (IT_size cfg)"
    by (simp add: r unat_mod_distrib)
  have "unat (sv_size sv mod IT_size cfg) \<le> unat (sv_size sv)"
    by (simp add: unat_mod_distrib)
  then have "sv_size sv mod IT_size cfg \<le> sv_size sv" by (simp only: word_le_nat_alt)
  then show "unat (sv_final sv) = unat (sv_size sv) - unat (sv_size sv) mod unat (IT_size cfg)"
    by (simp add: f unat_sub unat_mod_distrib)
  have nw: "unat (sv_offset sv + sv_size sv) = unat (sv_offset sv) + unat (sv_size sv)"
    using b by (rule unat_add_bounded)
  have m: "x mod IT_size cfg = 0 \<longleftrightarrow> unat x mod unat (IT_size cfg) = 0" for x
    by (simp add: word_unat_eq_iff [of "x mod IT_size cfg"] unat_mod_distrib)
  have e: "sv_offset sv + sv_size sv = dv_size (h (sv_vector sv)) \<longleftrightarrow>
        unat (sv_offset sv) + unat (sv_size sv) = unat (dv_size (h (sv_vector sv)))"
    using nw by (simp add: word_unat_eq_iff [of "sv_offset sv + sv_size sv"])
  show "sv_aligned sv \<longleftrightarrow>
           unat (sv_offset sv) mod unat (IT_size cfg) = 0 \<and>
           (unat (sv_offset sv) + unat (sv_size sv) = unat (dv_size (h (sv_vector sv))) \<or>
            unat (sv_size sv) mod unat (IT_size cfg) = 0)"
    unfolding DenseSubvector_aligned [OF c] m e ..
qed

lemma same_shape_refl: "same_shape h h"
  by (simp add: same_shape_def)

lemma frame_same_shape: "frame sv h h' \<Longrightarrow> same_shape h h'"
  by (simp add: frame_def)

lemma assign_inv_frame: "assign_inv sv track xs h k h' \<Longrightarrow> frame sv h h'"
  by (simp add: assign_inv_def)

lemma assign_inv_mono:
  "assign_inv sv track xs h k h' \<Longrightarrow> k' \<le> k \<Longrightarrow> assign_inv sv track xs h k' h'"
  by (simp add: assign_inv_def)

lemma valid_view_shape:
  assumes "valid_view cfg h v" "same_shape h h'"
  shows "valid_view cfg h' v"
proof -
  from assms(2) have "dv_size (h' (sv_vector v)) = dv_size (h (sv_vector v))"
    by (simp add: same_shape_def)
  then have "DenseSubvector cfg h' (sv_vector v) (sv_offset v) (sv_size v) =
        DenseSubvector cfg h (sv_vector v) (sv_offset v) (sv_size v)"
    by (simp add: DenseSubvector_def)
  with assms(1) \<open>dv_size (h' (sv_vector v)) = dv_size (h (sv_vector v))\<close>
  show ?thesis by (simp add: valid_view_def)
qed

lemma wf_dense_shape:
  assumes "wf_dense cfg h d" "same_shape h h'"
  shows "wf_dense cfg h' d"
proof (cases d)
  case (DynamicVec a)
  with assms show ?thesis by (simp add: wf_dvec_def same_shape_def)
next
  case (Subvec v)
  with assms valid_view_shape [of cfg h v h'] show ?thesis
    by (simp add: wf_dvec_def same_shape_def)
next
  case (Temp t)
  with assms show ?thesis by simp
qed

lemma size_dense_shape: "same_shape h h' \<Longrightarrow> size_dense h' d = size_dense h d"
  by (cases d) (simp_all add: same_shape_def)

lemma dense_elements_frame:
  assumes "frame sv h h'" "\<not> canAlias_dense d (sv_vector sv)"
  shows "dense_elements h' d = dense_elements h d"
  using assms by (cases d) (simp_all add: frame_def canAlias_sv_def view_elements_def)

lemma length_dense_elements:
  assumes "wf_dense cfg h d"
  shows "length (dense_elements h d) = unat (size_dense h d)"
proof (cases d)
  case (DynamicVec a)
  with assms show ?thesis by (simp add: wf_dvec_def visible_def)
next
  case (Subvec v)
  with assms valid_view_nat(1) [of cfg h v] show ?thesis
    by (auto simp add: wf_dvec_def view_elements_def size_sv_def)
next
  case (Temp t)
  with assms show ?thesis by (simp add: wf_dvec_def visible_def)
qed

lemma at_dense_read:
  assumes "wf_dense cfg h d" "i < unat (size_dense h d)"
  shows "at_dense h d (word_of_nat i) = Inr (dense_elements h d ! i)"
proof (cases d)
  case (DynamicVec a)
  from assms(2) have u: "unat (word_of_nat i :: size_t) = i"
    by (intro le_unat_uoi [of _ "size_dense h d"]) simp
  with assms DynamicVec show ?thesis
    by (simp add: heap_at_def dvec_at_def word_less_nat_alt wf_dvec_def visible_def)
next
  case (Subvec v)
  from assms Subvec have vv: "valid_view cfg h v" and wf: "wf_dvec cfg (h (sv_vector v))"
    and i: "i < unat (sv_size v)" by (simp_all add: size_sv_def)
  have b: "unat (sv_offset v) + i \<le> unat (dv_size (h (sv_vector v)))"
    using valid_view_nat(1) [OF vv] i by simp
  note u = unat_of_nat_add [OF b]
  have "unat (sv_offset v) + i < unat (dv_size (h (sv_vector v)))"
    using valid_view_nat(1) [OF vv] i by simp
  with u wf i Subvec show ?thesis
    by (simp add: subscript_def size_sv_def heap_at_def dvec_at_def word_less_nat_alt
        wf_dvec_def view_elements_def)
next
  case (Temp t)
  from assms(2) have u: "unat (word_of_nat i :: size_t) = i"
    by (intro le_unat_uoi [of _ "size_dense h d"]) simp
  with assms Temp show ?thesis
    by (simp add: dvec_at_def word_less_nat_alt wf_dvec_def visible_def)
qed

subsection \<open>The default kernels\<close>

lemma element_step:
  fixes sv :: subvector and h h1 :: "'a heap"
  assumes b1: "unat (sv_offset sv) + unat (sv_size sv) \<le> unat (dv_size (h (sv_vector sv)))"
      and b2: "unat (dv_size (h (sv_vector sv))) \<le> length (dv_data (h (sv_vector sv)))"
      and I: "assign_inv sv track xs h c h1"
      and c: "c < unat (sv_size sv)"
      and ix: "unat ix = unat (sv_offset sv) + c"
      and x: "track \<Longrightarrow> x = xs ! c"
  shows "\<exists>h2. heap_set h1 (sv_vector sv) ix x = Inr h2 \<and> assign_inv sv track xs h (Suc c) h2"
proof -
  let ?p = "sv_vector sv"
  have fr: "frame sv h h1" using I by (rule assign_inv_frame)
  have sz: "dv_size (h1 ?p) = dv_size (h ?p)" and len: "length (dv_data (h1 ?p)) = length (dv_data (h ?p))"
    using frame_shape [OF fr] by simp_all
  have lt: "unat ix < unat (dv_size (h ?p))" using ix c b1 by simp
  then have "ix < dv_size (h1 ?p)" "unat ix < length (dv_data (h1 ?p))"
    using sz len b2 by (simp_all add: word_less_nat_alt)
  then have w: "heap_set h1 ?p ix x = Inr (splice h1 ?p (unat (sv_offset sv) + c) [x])"
    using heap_set_splice [of ix h1 ?p x] ix by simp
  have "assign_inv sv track xs h (c + length [x]) (splice h1 ?p (unat (sv_offset sv) + c) [x])"
  proof (rule splice_assign_inv [OF I b1])
    show "unat (sv_offset sv) + c + length [x] \<le> length (dv_data (h ?p))"
      using lt ix b2 by simp
    show "c + length [x] \<le> unat (sv_size sv) \<or>
          (unat (dv_size (h ?p)) \<le> unat (sv_offset sv) + unat (sv_size sv) \<and>
           sv_aligned sv \<and> sv_rest sv \<noteq> 0)"
      using c by simp
    show "\<forall>l<length [x]. c + l < unat (sv_size sv) \<longrightarrow> [x] ! l = xs ! (c + l)" if track
      using x [OF that] by simp
  qed
  with w show ?thesis by simp
qed

lemma heap_at_defined:
  assumes "unat ix < unat (dv_size (h a))" "unat (dv_size (h a)) \<le> length (dv_data (h a))"
  shows "heap_at h a ix = Inr (dv_data (h a) ! unat ix)"
  using assms by (simp add: heap_at_def dvec_at_def word_less_nat_alt)

lemma compound_step:
  fixes sv :: subvector and h h1 :: "'a heap"
  assumes b1: "unat (sv_offset sv) + unat (sv_size sv) \<le> unat (dv_size (h (sv_vector sv)))"
      and b2: "unat (dv_size (h (sv_vector sv))) \<le> length (dv_data (h (sv_vector sv)))"
      and I: "frame sv h h1"
      and c: "c < unat (sv_size sv)"
      and ix: "unat ix = unat (sv_offset sv) + c"
  shows "\<exists>h2. compound_element f h1 (sv_vector sv) ix x = Inr h2 \<and> frame sv h h2"
proof -
  let ?p = "sv_vector sv"
  have sz: "dv_size (h1 ?p) = dv_size (h ?p)" and len: "length (dv_data (h1 ?p)) = length (dv_data (h ?p))"
    using frame_shape [OF I] by simp_all
  have "unat ix < unat (dv_size (h1 ?p))" "unat (dv_size (h1 ?p)) \<le> length (dv_data (h1 ?p))"
    using ix c b1 b2 sz len by simp_all
  from heap_at_defined [of ix h1 ?p, OF this] obtain old where old: "heap_at h1 ?p ix = Inr old" by blast
  have "assign_inv sv False [] h c h1" using I by (simp add: assign_inv_def)
  from element_step [OF b1 b2 this c ix, of "f old x"] obtain h2 where
    "heap_set h1 ?p ix (f old x) = Inr h2" "assign_inv sv False [] h (Suc c) h2" by auto
  with old show ?thesis by (auto simp: compound_element_def assign_inv_def)
qed

lemma unat_and_neg2:
  fixes x :: size_t
  shows "unat (x AND - 2) = unat x - unat x mod 2"
  using unat_and_neg_pow2 [of 1 x] by simp

lemma default_kernel_rule:
  fixes h :: "'a heap"
  assumes vv: "valid_view cfg h sv"
      and wfp: "unat (dv_size (h (sv_vector sv))) \<le> length (dv_data (h (sv_vector sv)))"
      and wfd: "wf_dense cfg h d"
      and sz: "size_dense h d = sv_size sv"
      and tr: "track \<Longrightarrow> \<not> canAlias_dense d (sv_vector sv)"
      and wr: "\<And>c h1 ix x. assign_inv sv track (dense_elements h d) h c h1 \<Longrightarrow>
                 c < unat (sv_size sv) \<Longrightarrow> unat ix = unat (sv_offset sv) + c \<Longrightarrow>
                 (track \<Longrightarrow> x = dense_elements h d ! c) \<Longrightarrow>
                 \<exists>h2. wr h1 (sv_vector sv) ix x = Inr h2 \<and>
                      assign_inv sv track (dense_elements h d) h (Suc c) h2"
  shows "\<exists>h'. default_kernel wr h sv d = Inr h' \<and>
           assign_inv sv track (dense_elements h d) h (unat (sv_size sv)) h'"
proof -
  let ?p = "sv_vector sv" and ?n = "unat (sv_size sv)" and ?lo = "unat (sv_offset sv)"
  let ?xs = "dense_elements h d"
  let ?iend = "size_sv sv AND - 2"
  let ?I = "\<lambda>j h'. assign_inv sv track ?xs h j h' \<and> 2 dvd j"
  let ?body = "\<lambda>i h. bind (at_dense h d i) (\<lambda>x.
                       bind (wr h (sv_vector sv) (i + sv_offset sv) x) (\<lambda>h.
                       bind (at_dense h d (i + 1)) (\<lambda>y.
                       wr h (sv_vector sv) (i + sv_offset sv + 1) y)))"
  note b1 = valid_view_nat(1) [OF vv]
  have ie: "unat ?iend = ?n - ?n mod 2" by (simp add: size_sv_def unat_and_neg2)
  have ie2: "2 dvd unat ?iend" unfolding ie by (simp add: dvd_minus_mod)
  have rd: "at_dense h' d (word_of_nat i) = Inr (dense_elements h' d ! i) \<and>
            (track \<longrightarrow> dense_elements h' d ! i = ?xs ! i)"
    if "frame sv h h'" "i < ?n" for h' i
  proof -
    have ss: "same_shape h h'" using that(1) by (rule frame_same_shape)
    have "wf_dense cfg h' d" using wfd ss by (rule wf_dense_shape)
    moreover have "i < unat (size_dense h' d)"
      using that(2) sz size_dense_shape [OF ss, of d] by simp
    ultimately have "at_dense h' d (word_of_nat i) = Inr (dense_elements h' d ! i)"
      by (rule at_dense_read)
    then show ?thesis using dense_elements_frame [OF that(1)] tr by auto
  qed
  have step: "\<exists>h2. bind (at_dense h1 d (word_of_nat c))
                      (\<lambda>x. wr h1 ?p ix x) = Inr h2 \<and>
                    assign_inv sv track ?xs h (Suc c) h2"
    if I: "assign_inv sv track ?xs h c h1" and c: "c < ?n" and ix: "unat ix = ?lo + c"
    for c h1 ix
  proof -
    from rd [OF assign_inv_frame [OF I] c] have
      r: "at_dense h1 d (word_of_nat c) = Inr (dense_elements h1 d ! c)"
      and v: "track \<Longrightarrow> dense_elements h1 d ! c = ?xs ! c" by simp_all
    from wr [OF I c ix, of "dense_elements h1 d ! c"] v
    show ?thesis using r by simp
  qed
  have ixs: "unat (word_of_nat c + sv_offset sv) = ?lo + c" if "c < ?n" for c
    using unat_of_nat_add(1) [of "sv_offset sv" c "dv_size (h ?p)"] b1 that by simp
  have "\<exists>h' j. for_loop 0 (unat ?iend) 2 ?body h = Inr h' \<and> ?I j h' \<and> unat ?iend \<le> j"
  proof (rule for_loop_rule [where I = ?I])
    show "(0::nat) < 2" by simp
    show "?I 0 h" by (simp add: assign_inv_init)
  next
    fix j h1 assume I: "?I j h1" and j: "j < unat ?iend"
    have j2: "j + 2 \<le> unat ?iend" using I ie2 j by (intro dvd_step_le) simp_all
    then have jn: "j < ?n" "Suc j < ?n" using ie by simp_all
    from step [OF _ jn(1) ixs [OF jn(1)]] I obtain h2 where
      h2: "bind (at_dense h1 d (word_of_nat j))
             (\<lambda>x. wr h1 ?p (word_of_nat j + sv_offset sv) x) = Inr h2"
          "assign_inv sv track ?xs h (Suc j) h2" by blast
    have w1: "(word_of_nat j + 1 :: size_t) = word_of_nat (Suc j)" by simp
    have w2: "word_of_nat j + sv_offset sv + 1 = word_of_nat (Suc j) + sv_offset sv" by simp
    from step [OF h2(2) jn(2) ixs [OF jn(2)]] obtain h3 where
      h3: "bind (at_dense h2 d (word_of_nat (Suc j)))
             (\<lambda>x. wr h2 ?p (word_of_nat (Suc j) + sv_offset sv) x) = Inr h3"
          "assign_inv sv track ?xs h (Suc (Suc j)) h3" by blast
    from h2(1) obtain x where x: "at_dense h1 d (word_of_nat j) = Inr x"
      "wr h1 ?p (word_of_nat j + sv_offset sv) x = Inr h2"
      by (auto simp: bind_eq_Inr)
    have "?body (word_of_nat j) h1 = Inr h3"
      using x h3(1) by (simp only: bind_Inr w1 w2)
    moreover have "?I (j + 2) h3" using h3(2) I by simp
    ultimately show "\<exists>s'. ?body (word_of_nat j) h1 = Inr s' \<and> ?I (j + 2) s'" by blast
  qed
  then obtain h1 j where l: "for_loop 0 (unat ?iend) 2 ?body h = Inr h1"
    and I1: "assign_inv sv track ?xs h j h1" and j: "unat ?iend \<le> j" by blast
  have I2: "assign_inv sv track ?xs h (unat ?iend) h1" using I1 j by (rule assign_inv_mono)
  have szd: "size_sv sv = size_dense h d" using sz by (simp add: size_sv_def)
  show ?thesis
  proof (cases "?iend < size_sv sv")
    case True
    then have lt: "unat ?iend < ?n" by (simp add: word_less_nat_alt size_sv_def)
    then have nn: "Suc (unat ?iend) = ?n" using ie by arith
    have ix: "unat (?iend + sv_offset sv) = ?lo + unat ?iend"
      using ixs [OF lt] by simp
    from step [OF I2 lt ix] obtain h2 where
      "bind (at_dense h1 d (word_of_nat (unat ?iend)))
         (\<lambda>x. wr h1 ?p (?iend + sv_offset sv) x) = Inr h2"
      "assign_inv sv track ?xs h (Suc (unat ?iend)) h2" by blast
    then show ?thesis using l True szd nn
      by (simp add: default_kernel_def Let_def)
  next
    case False
    then have "\<not> unat ?iend < ?n" by (simp add: word_less_nat_alt size_sv_def)
    then have "unat ?iend = ?n" using ie by arith
    with I2 l False szd show ?thesis by (simp add: default_kernel_def Let_def)
  qed
qed

lemma assign_default_shape: "assign_default = default_kernel heap_set"
  by (intro ext) (simp add: assign_default_def default_kernel_def)

lemma compound_default_shape: "compound_default f = default_kernel (compound_element f)"
  by (intro ext) (simp add: compound_default_def default_kernel_def)

lemma assign_default_inv:
  fixes h :: "'a heap"
  assumes vv: "valid_view cfg h sv"
      and wfp: "unat (dv_size (h (sv_vector sv))) \<le> length (dv_data (h (sv_vector sv)))"
      and wfd: "wf_dense cfg h d"
      and sz: "size_dense h d = sv_size sv"
  shows "\<exists>h'. assign_default h sv d = Inr h' \<and>
           assign_inv sv (\<not> canAlias_dense d (sv_vector sv)) (dense_elements h d) h
             (unat (sv_size sv)) h'"
  unfolding assign_default_shape
proof (rule default_kernel_rule [OF vv wfp wfd sz])
  fix c h1 x and ix :: size_t
  assume "assign_inv sv (\<not> canAlias_dense d (sv_vector sv)) (dense_elements h d) h c h1"
    "c < unat (sv_size sv)" "unat ix = unat (sv_offset sv) + c"
    "\<not> canAlias_dense d (sv_vector sv) \<Longrightarrow> x = dense_elements h d ! c"
  then show "\<exists>h2. heap_set h1 (sv_vector sv) ix x = Inr h2 \<and>
          assign_inv sv (\<not> canAlias_dense d (sv_vector sv)) (dense_elements h d) h (Suc c) h2"
    by (rule element_step [where sv = sv and h = h, OF valid_view_nat(1) [OF vv] wfp])
qed simp

lemma compound_default_frame:
  fixes h :: "'a heap"
  assumes vv: "valid_view cfg h sv"
      and wfp: "unat (dv_size (h (sv_vector sv))) \<le> length (dv_data (h (sv_vector sv)))"
      and wfd: "wf_dense cfg h d"
      and sz: "size_dense h d = sv_size sv"
  shows "\<exists>h'. compound_default f h sv d = Inr h' \<and> frame sv h h'"
proof -
  have "\<exists>h'. default_kernel (compound_element f) h sv d = Inr h' \<and>
           assign_inv sv False (dense_elements h d) h (unat (sv_size sv)) h'"
  proof (rule default_kernel_rule [OF vv wfp wfd sz])
    fix c h1 x and ix :: size_t
    assume I: "assign_inv sv False (dense_elements h d) h c h1"
      and c: "c < unat (sv_size sv)" and ix: "unat ix = unat (sv_offset sv) + c"
    from compound_step [where sv = sv and h = h and f = f and x = x,
        OF valid_view_nat(1) [OF vv] wfp assign_inv_frame [OF I] c ix]
    show "\<exists>h2. compound_element f h1 (sv_vector sv) ix x = Inr h2 \<and>
           assign_inv sv False (dense_elements h d) h (Suc c) h2"
      by (simp add: assign_inv_def)
  qed simp
  then show ?thesis by (auto simp: compound_default_shape assign_inv_def)
qed

subsection \<open>Evaluation into a temporary, fill, reset and scale\<close>

lemma subscript_read:
  fixes h :: "'a heap"
  assumes b1: "unat (sv_offset v) + unat (sv_size v) \<le> unat (dv_size (h (sv_vector v)))"
      and b2: "unat (dv_size (h (sv_vector v))) \<le> length (dv_data (h (sv_vector v)))"
      and i: "i < unat (sv_size v)"
  shows "subscript h v (word_of_nat i) = Inr (view_elements h v ! i)"
proof -
  have b: "unat (sv_offset v) + i \<le> unat (dv_size (h (sv_vector v)))"
    using b1 i by simp
  note u = unat_of_nat_add [OF b]
  have "unat (sv_offset v) + i < unat (dv_size (h (sv_vector v)))"
    using b1 i by simp
  with u b2 i show ?thesis
    by (simp add: subscript_def size_sv_def heap_at_def dvec_at_def word_less_nat_alt
        view_elements_def)
qed

lemma length_view_elements:
  assumes "unat (sv_offset v) + unat (sv_size v) \<le> unat (dv_size (h (sv_vector v)))"
      and "unat (dv_size (h (sv_vector v))) \<le> length (dv_data (h (sv_vector v)))"
  shows "length (view_elements h v) = unat (sv_size v)"
  using assms by (auto simp: view_elements_def)

lemma collect_list:
  assumes "\<And>k. k < n \<Longrightarrow> f (word_of_nat k) = Inr (xs ! k)" "length xs = n"
  shows "collect f n = Inr xs"
proof -
  have "collect f n = Inr (map (\<lambda>k. xs ! k) [0..<n])" using assms(1) by (rule collect_rule)
  also have "map (\<lambda>k. xs ! k) [0..<n] = xs" unfolding assms(2) [symmetric] by (rule map_nth)
  finally show ?thesis .
qed

lemma evaluate_view:
  fixes h :: "'a::zero heap"
  assumes b1: "unat (sv_offset v) + unat (sv_size v) \<le> unat (dv_size (h (sv_vector v)))"
      and b2: "unat (dv_size (h (sv_vector v))) \<le> length (dv_data (h (sv_vector v)))"
  shows "evaluate_dense cfg h (Subvec v) =
           Inr \<lparr> dv_size = sv_size v,
                 dv_data = view_elements h v @
                   replicate (padding (IT_size cfg) (unat (sv_size v))) 0 \<rparr>"
proof -
  have "collect (subscript h v) (unat (sv_size v)) = Inr (view_elements h v)"
    using subscript_read [where h = h and v = v, OF b1 b2]
      length_view_elements [where h = h and v = v, OF b1 b2] by (rule collect_list)
  moreover have "at_dense h (Subvec v) = subscript h v" by (intro ext) simp
  ultimately show ?thesis
    using length_view_elements [where h = h and v = v, OF b1 b2]
    by (simp add: evaluate_dense_def size_sv_def)
qed

lemma evaluate_dense_read:
  fixes h :: "'a::zero heap"
  assumes wfd: "wf_dense cfg h d" and w: "0 < unat (IT_size cfg)"
  shows "\<exists>t. evaluate_dense cfg h d = Inr t \<and> wf_dvec cfg t \<and>
           dv_size t = size_dense h d \<and> visible t = dense_elements h d"
proof -
  let ?n = "unat (size_dense h d)" and ?xs = "dense_elements h d"
  have len: "length ?xs = ?n" using wfd by (rule length_dense_elements)
  have "collect (at_dense h d) ?n = Inr ?xs"
    using at_dense_read [OF wfd] len by (rule collect_list)
  then have e: "evaluate_dense cfg h d =
      Inr \<lparr> dv_size = size_dense h d,
            dv_data = ?xs @ replicate (padding (IT_size cfg) (length ?xs)) 0 \<rparr>"
    by (simp add: evaluate_dense_def)
  have "unat (IT_size cfg) dvd length ?xs + padding (IT_size cfg) (length ?xs)"
    using w by (rule padding_dvd)
  then show ?thesis using e len by (simp add: wf_dvec_def visible_def)
qed

lemma element_write:
  fixes sv :: subvector and h h1 :: "'a heap"
  assumes b1: "unat (sv_offset sv) + unat (sv_size sv) \<le> unat (dv_size (h (sv_vector sv)))"
      and b2: "unat (dv_size (h (sv_vector sv))) \<le> length (dv_data (h (sv_vector sv)))"
      and fr: "frame sv h h1"
      and c: "c < unat (sv_size sv)"
      and ix: "unat ix = unat (sv_offset sv) + c"
  shows "\<exists>h2. heap_set h1 (sv_vector sv) ix x = Inr h2 \<and> frame sv h h2 \<and>
           dv_data (h2 (sv_vector sv)) =
             (dv_data (h1 (sv_vector sv)))[unat (sv_offset sv) + c := x]"
proof -
  let ?p = "sv_vector sv"
  have I: "assign_inv sv False [] h c h1" using fr by (simp add: assign_inv_def)
  from element_step [where sv = sv and h = h, OF b1 b2 I c ix, of x] obtain h2 where
    h2: "heap_set h1 ?p ix x = Inr h2" "frame sv h h2" by (auto simp: assign_inv_def)
  then have "dv_data (h2 ?p) = (dv_data (h1 ?p))[unat ix := x]"
    by (auto simp: heap_set_def dvec_set_def bind_eq_Inr split: if_splits)
  with h2 ix show ?thesis by simp
qed

lemma fill_inv:
  fixes h :: "'a heap"
  assumes b1: "unat (sv_offset sv) + unat (sv_size sv) \<le> unat (dv_size (h (sv_vector sv)))"
      and b2: "unat (dv_size (h (sv_vector sv))) \<le> length (dv_data (h (sv_vector sv)))"
  shows "\<exists>h'. fill h sv x = Inr h' \<and>
           assign_inv sv True (replicate (unat (sv_size sv)) x) h (unat (sv_size sv)) h'"
proof -
  let ?p = "sv_vector sv" and ?n = "unat (sv_size sv)" and ?lo = "unat (sv_offset sv)"
  let ?xs = "replicate ?n x"
  let ?I = "\<lambda>j h1. assign_inv sv True ?xs h (j - ?lo) h1 \<and> ?lo \<le> j"
  let ?body = "\<lambda>i h. heap_set h ?p i x"
  have "\<exists>h' j. for_loop ?lo (?lo + ?n) 1 ?body h = Inr h' \<and> ?I j h' \<and> ?lo + ?n \<le> j"
  proof (rule for_loop_rule [where I = ?I])
    show "(0::nat) < 1" by simp
    show "?I ?lo h" by (simp add: assign_inv_init)
  next
    fix j h1 assume I: "?I j h1" and j: "j < ?lo + ?n"
    have c: "j - ?lo < ?n" using I j by arith
    have "j \<le> unat (dv_size (h ?p))" using j b1 by simp
    then have "unat (word_of_nat j :: size_t) = j" by (rule le_unat_uoi)
    then have ix: "unat (word_of_nat j :: size_t) = ?lo + (j - ?lo)" using I by simp
    from element_step [where sv = sv and h = h, OF b1 b2 _ c ix, of True ?xs h1 x] I c
    obtain h2 where "heap_set h1 ?p (word_of_nat j) x = Inr h2"
      "assign_inv sv True ?xs h (Suc (j - ?lo)) h2" by auto
    moreover have "Suc (j - ?lo) = j + 1 - ?lo" using I by arith
    ultimately show "\<exists>s'. ?body (word_of_nat j) h1 = Inr s' \<and> ?I (j + 1) s'"
      using I by auto
  qed
  then obtain h' j where l: "for_loop ?lo (?lo + ?n) 1 ?body h = Inr h'"
    and I: "assign_inv sv True ?xs h (j - ?lo) h'" and j: "?lo + ?n \<le> j" by blast
  have "assign_inv sv True ?xs h ?n h'" using I j by (intro assign_inv_mono [OF I]) arith
  with l show ?thesis by (simp add: fill_def Let_def unat_add_bounded [OF b1])
qed

lemma reset_fill: "reset h sv = fill h sv 0"
  by (simp add: reset_def fill_def)

lemma scale_frame:
  fixes h :: "'a::times heap"
  assumes b1: "unat (sv_offset sv) + unat (sv_size sv) \<le> unat (dv_size (h (sv_vector sv)))"
      and b2: "unat (dv_size (h (sv_vector sv))) \<le> length (dv_data (h (sv_vector sv)))"
  shows "\<exists>h'. scale h sv scalar = Inr h' \<and> frame sv h h'"
proof -
  let ?p = "sv_vector sv" and ?n = "unat (sv_size sv)" and ?lo = "unat (sv_offset sv)"
  let ?I = "\<lambda>j h1. frame sv h h1 \<and> ?lo \<le> j"
  let ?body = "\<lambda>i h. compound_element (\<lambda>old s. old * s) h ?p i scalar"
  have "\<exists>h' j. for_loop ?lo (?lo + ?n) 1 ?body h = Inr h' \<and> ?I j h' \<and> ?lo + ?n \<le> j"
  proof (rule for_loop_rule [where I = ?I])
    show "(0::nat) < 1" by simp
    show "?I ?lo h" by (simp add: frame_refl)
  next
    fix j h1 assume I: "?I j h1" and j: "j < ?lo + ?n"
    have c: "j - ?lo < ?n" using I j by arith
    have "j \<le> unat (dv_size (h ?p))" using j b1 by simp
    then have "unat (word_of_nat j :: size_t) = j" by (rule le_unat_uoi)
    then have ix: "unat (word_of_nat j :: size_t) = ?lo + (j - ?lo)" using I by simp
    from compound_step [where sv = sv and h = h and f = "\<lambda>old s. old * s" and x = scalar,
        OF b1 b2 _ c ix] I
    show "\<exists>s'. ?body (word_of_nat j) h1 = Inr s' \<and> ?I (j + 1) s'" by auto
  qed
  then show ?thesis
    by (auto simp: scale_def Let_def unat_add_bounded [OF b1] compound_element_def)
qed

subsection \<open>The sparse kernels\<close>

lemma sparse_loop_frame:
  fixes sv :: subvector and h h0 :: "'a heap"
  assumes b1: "unat (sv_offset sv) + unat (sv_size sv) \<le> unat (dv_size (h (sv_vector sv)))"
      and fr: "frame sv h h0"
      and ix: "\<forall>e \<in> set elems. fst e < sv_size sv"
      and wr: "\<And>h1 c ix x. frame sv h h1 \<Longrightarrow> c < unat (sv_size sv) \<Longrightarrow>
                 unat ix = unat (sv_offset sv) + c \<Longrightarrow>
                 \<exists>h2. wr h1 (sv_vector sv) ix x = Inr h2 \<and> frame sv h h2"
  shows "\<exists>h'. for_each elems (\<lambda>element h. wr h (sv_vector sv) (fst element + sv_offset sv)
                  (snd element)) h0 = Inr h' \<and> frame sv h h'"
proof -
  let ?body = "\<lambda>element h. wr h (sv_vector sv) (fst element + sv_offset sv) (snd element)"
  have "\<exists>h'. for_each elems ?body h0 = Inr h' \<and> (\<lambda>done h1. frame sv h h1) elems h'"
  proof (rule for_each_rule [where I = "\<lambda>done h1. frame sv h h1"])
    show "frame sv h h0" by (rule fr)
  next
    fix dn e rest h1
    assume xs: "elems = dn @ e # rest" and I: "frame sv h h1"
    have c: "unat (fst e) < unat (sv_size sv)"
      using ix xs by (simp add: word_less_nat_alt)
    then have "unat (fst e) + unat (sv_offset sv) \<le> unat (dv_size (h (sv_vector sv)))"
      using b1 by simp
    then have "unat (fst e + sv_offset sv) = unat (sv_offset sv) + unat (fst e)"
      using unat_add_bounded [of "fst e" "sv_offset sv"] by simp
    from wr [OF I c this]
    show "\<exists>s'. ?body e h1 = Inr s' \<and> frame sv h s'" .
  qed
  then show ?thesis by simp
qed

lemma assign_sparse_frame:
  fixes h :: "'a heap"
  assumes b1: "unat (sv_offset sv) + unat (sv_size sv) \<le> unat (dv_size (h (sv_vector sv)))"
      and b2: "unat (dv_size (h (sv_vector sv))) \<le> length (dv_data (h (sv_vector sv)))"
      and fr: "frame sv h h0"
      and sz: "svec_size s = sv_size sv" and wf: "wf_svec s"
  shows "\<exists>h'. assign_sparse h0 sv s = Inr h' \<and> frame sv h h'"
proof -
  have ix: "\<forall>e \<in> set (svec_elements s). fst e < sv_size sv"
    using wf sz by (simp add: wf_svec_def)
  have "\<exists>h'. for_each (svec_elements s)
           (\<lambda>element h. heap_set h (sv_vector sv) (fst element + sv_offset sv) (snd element)) h0
            = Inr h' \<and> frame sv h h'"
  proof (rule sparse_loop_frame [where sv = sv and h = h, OF b1 fr ix])
    fix h1 c x and ix :: size_t
    assume "frame sv h h1" "c < unat (sv_size sv)" "unat ix = unat (sv_offset sv) + c"
    from element_write [where sv = sv and h = h, OF b1 b2 this, of x]
    show "\<exists>h2. heap_set h1 (sv_vector sv) ix x = Inr h2 \<and> frame sv h h2" by blast
  qed
  then show ?thesis using sz by (simp add: assign_sparse_def size_sv_def)
qed

lemma compound_sparse_frame:
  fixes h :: "'a heap"
  assumes b1: "unat (sv_offset sv) + unat (sv_size sv) \<le> unat (dv_size (h (sv_vector sv)))"
      and b2: "unat (dv_size (h (sv_vector sv))) \<le> length (dv_data (h (sv_vector sv)))"
      and sz: "svec_size s = sv_size sv" and wf: "wf_svec s"
  shows "\<exists>h'. compound_sparse f h sv s = Inr h' \<and> frame sv h h'"
proof -
  have ix: "\<forall>e \<in> set (svec_elements s). fst e < sv_size sv"
    using wf sz by (simp add: wf_svec_def)
  have "\<exists>h'. for_each (svec_elements s)
           (\<lambda>element h. compound_element f h (sv_vector sv) (fst element + sv_offset sv)
              (snd element)) h = Inr h' \<and> frame sv h h'"
  proof (rule sparse_loop_frame [where sv = sv and h = h, OF b1 frame_refl ix])
    fix h1 c x and ix :: size_t
    assume "frame sv h h1" "c < unat (sv_size sv)" "unat ix = unat (sv_offset sv) + c"
    from compound_step [where sv = sv and h = h and f = f and x = x, OF b1 b2 this]
    show "\<exists>h2. compound_element f h1 (sv_vector sv) ix x = Inr h2 \<and> frame sv h h2" .
  qed
  then show ?thesis using sz by (simp add: compound_sparse_def size_sv_def)
qed

lemma multAssign_sparse_elements:
  fixes h :: "'a::{zero,times} heap"
  assumes b1: "unat (sv_offset sv) + unat (sv_size sv) \<le> unat (dv_size (h (sv_vector sv)))"
      and b2: "unat (dv_size (h (sv_vector sv))) \<le> length (dv_data (h (sv_vector sv)))"
      and sz: "svec_size s = sv_size sv" and wf: "wf_svec s"
  shows "\<exists>h'. multAssign_sparse cfg h sv s = Inr h' \<and> frame sv h h' \<and>
           view_elements h' sv =
             map (sparse_product (svec_elements s) (view_elements h sv))
               [0..<unat (sv_size sv)]"
proof -
  let ?p = "sv_vector sv" and ?n = "unat (sv_size sv)" and ?lo = "unat (sv_offset sv)"
  let ?old = "view_elements h sv"
  let ?tmp = "\<lparr> dv_size = sv_size sv,
                dv_data = ?old @ replicate (padding (IT_size cfg) ?n) 0 \<rparr>"
  let ?val = "\<lambda>dn i. sparse_product dn ?old i"
  let ?J = "\<lambda>dn h1. frame sv h h1 \<and>
              (\<forall>i<?n. dv_data (h1 ?p) ! (?lo + i) = ?val dn i)"
  let ?body = "\<lambda>element h. bind (dvec_at ?tmp (fst element))
                          (\<lambda>t. heap_set h ?p (fst element + sv_offset sv) (t * snd element))"
  have lo: "length ?old = ?n" using b1 b2 by (rule length_view_elements)
  have ev: "evaluate_dense cfg h (Subvec sv) = Inr ?tmp" using b1 b2 by (rule evaluate_view)
  from fill_inv [where sv = sv and h = h, OF b1 b2, of 0] obtain h0 where
    h0: "reset h sv = Inr h0" and I0: "assign_inv sv True (replicate ?n 0) h ?n h0"
    by (auto simp: reset_fill)
  have J0: "?J [] h0" using I0 by (simp add: assign_inv_def sparse_product_def)
  have ix: "\<forall>e \<in> set (svec_elements s). fst e < sv_size sv"
    using wf sz by (simp add: wf_svec_def)
  have "\<exists>h'. for_each (svec_elements s) ?body h0 = Inr h' \<and> ?J (svec_elements s) h'"
  proof (rule for_each_rule [where I = ?J])
    show "?J [] h0" by (rule J0)
  next
    fix dn e rest h1
    assume xs: "svec_elements s = dn @ e # rest" and J: "?J dn h1"
    have c: "unat (fst e) < ?n" using ix xs by (simp add: word_less_nat_alt)
    have t: "dvec_at ?tmp (fst e) = Inr (?old ! unat (fst e))"
      using c lo by (simp add: dvec_at_def word_less_nat_alt nth_append)
    have "unat (fst e) + ?lo \<le> unat (dv_size (h ?p))" using b1 c by simp
    then have u: "unat (fst e + sv_offset sv) = ?lo + unat (fst e)"
      using unat_add_bounded [of "fst e" "sv_offset sv"] by simp
    from element_write [where sv = sv and h = h, OF b1 b2 _ c u, of h1 "?old ! unat (fst e) * snd e"] J
    obtain h2 where h2: "heap_set h1 ?p (fst e + sv_offset sv) (?old ! unat (fst e) * snd e) = Inr h2"
      "frame sv h h2"
      "dv_data (h2 ?p) = (dv_data (h1 ?p))[?lo + unat (fst e) := ?old ! unat (fst e) * snd e]"
      by blast
    have fresh: "map_of dn (fst e) = None"
    proof -
      have "distinct (map fst (dn @ e # rest))" using wf xs by (simp add: wf_svec_def)
      then have "fst e \<notin> fst ` set dn" by auto
      then show ?thesis by (simp add: map_of_eq_None_iff)
    qed
    have len1: "length (dv_data (h1 ?p)) = length (dv_data (h ?p))"
      using J frame_shape(2) [of sv h h1 ?p] by simp
    have "dv_data (h2 ?p) ! (?lo + i) = ?val (dn @ [e]) i" if i: "i < ?n" for i
    proof (cases "i = unat (fst e)")
      case True
      then have "word_of_nat i = fst e" by simp
      moreover have "?lo + i < length (dv_data (h1 ?p))" using len1 b1 b2 i by simp
      ultimately show ?thesis using h2(3) True fresh
        by (simp add: map_add_def sparse_product_def)
    next
      case False
      have "unat (word_of_nat i :: size_t) = i" using i by (intro le_unat_uoi [of _ "sv_size sv"]) simp
      with False have ne: "word_of_nat i \<noteq> fst e" by auto
      then have "map_of (dn @ [e]) (word_of_nat i) = map_of dn (word_of_nat i)"
        by (cases e) (auto simp: map_add_def split: option.splits)
      moreover have "dv_data (h2 ?p) ! (?lo + i) = dv_data (h1 ?p) ! (?lo + i)"
        using h2(3) False by simp
      ultimately show ?thesis using J i by (simp add: sparse_product_def)
    qed
    with h2 t show "\<exists>s'. ?body e h1 = Inr s' \<and> ?J (dn @ [e]) s'" by simp
  qed
  then obtain h' where l: "for_each (svec_elements s) ?body h0 = Inr h'"
    and fr: "frame sv h h'"
    and v: "\<forall>i<?n. dv_data (h' ?p) ! (?lo + i) = ?val (svec_elements s) i" by blast
  have len': "length (dv_data (h' ?p)) = length (dv_data (h ?p))"
    using frame_shape(2) [OF fr] by simp
  have "view_elements h' sv = map (?val (svec_elements s)) [0..<?n]"
  proof (rule nth_equalityI)
    show "length (view_elements h' sv) = length (map (?val (svec_elements s)) [0..<?n])"
      using len' b1 b2 by (simp add: view_elements_def)
  next
    fix i assume "i < length (view_elements h' sv)"
    then have i: "i < ?n" by (simp add: view_elements_def)
    have "map (?val (svec_elements s)) [0..<?n] ! i = ?val (svec_elements s) i"
      using i nth_map_upt [of i ?n 0 "?val (svec_elements s)"] by simp
    moreover have "view_elements h' sv ! i = dv_data (h' ?p) ! (?lo + i)"
      using i len' b1 b2 by (simp add: view_elements_def)
    ultimately show "view_elements h' sv ! i = map (?val (svec_elements s)) [0..<?n] ! i"
      using v i by simp
  qed
  with l fr h0 ev sz show ?thesis by (simp add: multAssign_sparse_def size_sv_def)
qed


lemma op_mult_assign_sparse:
  fixes h :: "'a::{zero,times} heap"
  assumes "svec_size s = sv_size sv"
  shows "op_mult_assign cfg h sv (Sparse s) = multAssign_sparse cfg h sv s"
  using assms by (simp add: op_mult_assign_def size_sv_def)


subsection \<open>Registers\<close>

lemma assign_inv_saturate:
  assumes "assign_inv sv track xs h k h'" "unat (sv_size sv) \<le> k"
  shows "assign_inv sv track xs h k' h'"
  using assms by (simp add: assign_inv_def)

lemma nth_register:
  assumes "q + w \<le> length d" "l < w"
  shows "take w (drop q d) ! l = d ! (q + l)"
  using assms by simp

lemma dvec_it_load_read:
  "\<exists>reg. dvec_it_load w v pos = Inr reg \<and> length reg = unat w \<and>
     (\<forall>l < unat w. reg ! l = dv_data v ! (unat pos + l))"
  by (simp add: dvec_it_load_def)

lemma word_of_nat_mod:
  fixes W :: size_t
  assumes "c \<le> unat (z :: size_t)" "unat W dvd c"
  shows "(word_of_nat c :: size_t) mod W = 0"
proof -
  have "unat (word_of_nat c :: size_t) = c" using assms(1) by (rule le_unat_uoi)
  then have "unat ((word_of_nat c :: size_t) mod W) = c mod unat W"
    by (simp add: unat_mod_distrib)
  also have "\<dots> = 0" using assms(2) by simp
  finally show ?thesis by (simp add: unat_0_iff)
qed

lemma it_load_dense_read:
  fixes h :: "'a heap"
  assumes wfc: "wf_config cfg" and wfd: "wf_dense cfg h d"
      and c: "c < unat (size_dense h d)" and dv: "unat (IT_size cfg) dvd c"
  shows "\<exists>reg. it_load_dense cfg h d (word_of_nat c) = Inr reg \<and>
           length reg = unat (IT_size cfg) \<and>
           (\<forall>l < unat (IT_size cfg). c + l < unat (size_dense h d) \<longrightarrow>
              reg ! l = dense_elements h d ! (c + l))"
proof -
  let ?w = "unat (IT_size cfg)"
  have uc: "unat (word_of_nat c :: size_t) = c"
    using c by (intro le_unat_uoi [of _ "size_dense h d"]) simp
  have vec: "\<exists>reg. dvec_it_load (IT_size cfg) v (word_of_nat c) = Inr reg \<and>
           length reg = ?w \<and> (\<forall>l < ?w. c + l < unat (dv_size v) \<longrightarrow> reg ! l = visible v ! (c + l))"
    for v :: "'a dvec"
    using dvec_it_load_read [of "IT_size cfg" v "word_of_nat c"] uc
    by (auto simp: visible_def)
  show ?thesis
  proof (cases d)
    case (DynamicVec a)
    with vec [of "h a"] show ?thesis by simp
  next
    case (Temp t)
    with vec [of t] show ?thesis by simp
  next
    case (Subvec v)
    let ?lo = "unat (sv_offset v)" and ?n = "unat (sv_size v)" and ?d = "dv_data (h (sv_vector v))"
    from wfd Subvec have vv: "valid_view cfg h v"
      and len: "unat (dv_size (h (sv_vector v))) \<le> length ?d" by (simp_all add: wf_dvec_def)
    from c Subvec have cn: "c < ?n" by (simp add: size_sv_def)
    note b1 = valid_view_nat(1) [OF vv]
    have "?lo + c \<le> unat (dv_size (h (sv_vector v)))" using b1 cn by simp
    note u = unat_of_nat_add(2) [OF this]
    have "?d ! (?lo + c + l) = view_elements h v ! (c + l)" if "c + l < ?n" for l
      using that b1 len by (simp add: view_elements_def add.assoc)
    with dvec_it_load_read [of "IT_size cfg" "h (sv_vector v)" "sv_offset v + word_of_nat c"]
      u Subvec show ?thesis by (auto simp: size_sv_def)
  qed
qed

lemma tail_cases:
  fixes h :: "'a heap"
  assumes wfc: "wf_config cfg" and vv: "valid_view cfg h v"
      and wfp: "wf_dvec cfg (h (sv_vector v))"
      and c: "c < unat (sv_size v)" and dv: "unat (IT_size cfg) dvd c"
  shows "sv_aligned v \<or> word_of_nat c \<noteq> sv_final v \<Longrightarrow>
           unat (sv_offset v) + c + unat (IT_size cfg) \<le> length (dv_data (h (sv_vector v))) \<and>
           (c + unat (IT_size cfg) \<le> unat (sv_size v) \<or>
            (unat (dv_size (h (sv_vector v))) \<le> unat (sv_offset v) + unat (sv_size v) \<and>
             sv_aligned v \<and> sv_rest v \<noteq> 0))"
    and "\<not> (sv_aligned v \<or> word_of_nat c \<noteq> sv_final v) \<Longrightarrow>
           c + unat (sv_rest v) = unat (sv_size v) \<and> unat (sv_rest v) < unat (IT_size cfg)"
proof -
  let ?w = "unat (IT_size cfg)" and ?lo = "unat (sv_offset v)" and ?n = "unat (sv_size v)"
  let ?sz = "unat (dv_size (h (sv_vector v)))" and ?len = "length (dv_data (h (sv_vector v)))"
  note b1 = valid_view_nat(1) [OF vv] and r = valid_view_nat(2) [OF vv]
    and f = valid_view_nat(3) [OF vv] and al = valid_view_nat(4) [OF vv]
  have w0: "0 < ?w" using wfc by (rule wf_config_pos)
  have szl: "?sz \<le> ?len" and wl: "?w dvd ?len" using wfp by (simp_all add: wf_dvec_def)
  have uc: "unat (word_of_nat c :: size_t) = c"
    using c by (intro le_unat_uoi [of _ "sv_size v"]) simp
  have fin: "word_of_nat c = sv_final v \<longleftrightarrow> c = ?n - ?n mod ?w"
    using uc f by (simp add: word_unat_eq_iff [of "word_of_nat c"])
  have wf: "?w dvd ?n - ?n mod ?w" by (simp add: dvd_minus_mod)
  have cf: "c \<le> ?n - ?n mod ?w"
  proof (rule ccontr)
    assume "\<not> c \<le> ?n - ?n mod ?w"
    then have "?n - ?n mod ?w < c" by simp
    with wf dv have "?n - ?n mod ?w + ?w \<le> c" by (intro dvd_step_le)
    moreover have "?n mod ?w < ?w" using w0 by simp
    ultimately show False using c by arith
  qed
  {
    assume A: "sv_aligned v \<or> word_of_nat c \<noteq> sv_final v"
    have full: "?lo + c + ?w \<le> ?len" if "c + ?w \<le> ?n"
      using that b1 szl by simp
    consider (mult) "?n mod ?w = 0"
      | (flush) "?lo mod ?w = 0" "?lo + ?n = ?sz" "sv_aligned v" "?n mod ?w \<noteq> 0"
      | (inner) "c \<noteq> ?n - ?n mod ?w"
      using A al fin by (cases "sv_aligned v") auto
    then show "?lo + c + ?w \<le> ?len \<and>
      (c + ?w \<le> ?n \<or> (?sz \<le> ?lo + ?n \<and> sv_aligned v \<and> sv_rest v \<noteq> 0))"
    proof cases
      case mult
      then have "?w dvd ?n" by (simp add: dvd_eq_mod_eq_0)
      with dv c have "c + ?w \<le> ?n" by (intro dvd_step_le)
      with full show ?thesis by simp
    next
      case flush
      have "?w dvd ?lo" using flush(1) by (simp add: dvd_eq_mod_eq_0)
      then have "?w dvd ?lo + c" using dv by (rule dvd_add)
      moreover have "?lo + c < ?len" using flush(2) c szl by simp
      ultimately have "?lo + c + ?w \<le> ?len" using wl by (intro dvd_step_le)
      moreover have "sv_rest v \<noteq> 0" using flush(4) r by auto
      ultimately show ?thesis using flush(2,3) by simp
    next
      case inner
      with cf have "c < ?n - ?n mod ?w" by simp
      with dv wf have "c + ?w \<le> ?n - ?n mod ?w" by (intro dvd_step_le)
      then have "c + ?w \<le> ?n" by simp
      with full show ?thesis by simp
    qed
  }
  {
    assume "\<not> (sv_aligned v \<or> word_of_nat c \<noteq> sv_final v)"
    then have "c = ?n - ?n mod ?w" using fin by simp
    moreover have "?n mod ?w < ?w" using w0 by simp
    moreover have "?n mod ?w \<le> ?n" by simp
    ultimately show "c + unat (sv_rest v) = ?n \<and> unat (sv_rest v) < ?w" using r by simp
  }
qed

lemma dvec_loadu_read:
  assumes "pos < dv_size v" "unat pos + unat w \<le> length (dv_data v)"
  shows "dvec_loadu w v pos = Inr (take (unat w) (drop (unat pos) (dv_data v)))"
    and "length (take (unat w) (drop (unat pos) (dv_data v))) = unat w"
  using assms by (simp_all add: dvec_loadu_def)

lemma subvector_loadu_read:
  fixes h :: "'a::zero heap"
  assumes wfc: "wf_config cfg" and vv: "valid_view cfg h v"
      and wfp: "wf_dvec cfg (h (sv_vector v))"
      and c: "c < unat (sv_size v)" and dv: "unat (IT_size cfg) dvd c"
  shows "\<exists>reg. subvector_loadu cfg h v (word_of_nat c) = Inr reg \<and>
           length reg = unat (IT_size cfg) \<and>
           (\<forall>l < unat (IT_size cfg). c + l < unat (sv_size v) \<longrightarrow>
              reg ! l = view_elements h v ! (c + l))"
proof -
  let ?w = "unat (IT_size cfg)" and ?lo = "unat (sv_offset v)" and ?n = "unat (sv_size v)"
  let ?p = "sv_vector v"
  let ?d = "dv_data (h ?p)"
  note b1 = valid_view_nat(1) [OF vv]
  have szl: "unat (dv_size (h ?p)) \<le> length ?d" using wfp by (simp add: wf_dvec_def)
  have uc: "unat (word_of_nat c :: size_t) = c"
    using c by (intro le_unat_uoi [of _ "sv_size v"]) simp
  have a1: "word_of_nat c < size_sv v" using uc c by (simp add: word_less_nat_alt size_sv_def)
  have a2: "(word_of_nat c :: size_t) mod IT_size cfg = 0"
    using c dv by (intro word_of_nat_mod [of _ "sv_size v"]) simp_all
  have "?lo + c \<le> unat (dv_size (h ?p))" using b1 c by simp
  note u = unat_of_nat_add(2) [OF this]
  show ?thesis
  proof (cases "sv_aligned v \<or> word_of_nat c \<noteq> sv_final v")
    case True
    from tail_cases(1) [OF wfc vv wfp c dv True] have
      cap0: "?lo + c + ?w \<le> length ?d" by simp
    then have cap: "unat (sv_offset v + word_of_nat c) + ?w \<le> length ?d" using u by simp
    have lt: "sv_offset v + word_of_nat c < dv_size (h ?p)"
      using u b1 c by (simp add: word_less_nat_alt)
    have "take ?w (drop (?lo + c) ?d) ! l = view_elements h v ! (c + l)"
      if "l < ?w" "c + l < ?n" for l
      using that cap0 by (simp add: view_elements_def add.assoc)
    with dvec_loadu_read [OF lt cap] u True a1 a2 show ?thesis
      by (simp add: subvector_loadu_def)
  next
    case False
    from tail_cases(2) [OF wfc vv wfp c dv False] have
      cr: "c + unat (sv_rest v) = ?n" and rw: "unat (sv_rest v) < ?w" by simp_all
    let ?r = "unat (sv_rest v)"
    let ?xs = "take ?r (drop c (view_elements h v))"
    have lv: "length (view_elements h v) = ?n" using b1 szl by (rule length_view_elements)
    have "collect (\<lambda>j. heap_at h ?p (sv_offset v + word_of_nat c + j)) ?r = Inr ?xs"
    proof (rule collect_list)
      fix k assume k: "k < ?r"
      have "?lo + (c + k) \<le> unat (dv_size (h ?p))" using b1 cr k by simp
      from unat_of_nat_add(2) [OF this]
      have uk: "unat (sv_offset v + word_of_nat c + word_of_nat k) = ?lo + (c + k)"
        by (simp add: add.assoc)
      have "?lo + (c + k) < unat (dv_size (h ?p))" using b1 cr k by simp
      with uk szl have "heap_at h ?p (sv_offset v + word_of_nat c + word_of_nat k) = Inr (?d ! (?lo + (c + k)))"
        by (simp add: heap_at_def dvec_at_def word_less_nat_alt)
      moreover have "?xs ! k = ?d ! (?lo + (c + k))"
        using k cr lv b1 szl by (simp add: view_elements_def)
      ultimately show "heap_at h ?p (sv_offset v + word_of_nat c + word_of_nat k) = Inr (?xs ! k)"
        by simp
    next
      show "length ?xs = ?r" using lv cr by simp
    qed
    moreover have "length (?xs @ replicate (?w - ?r) (0::'a)) = ?w" using lv cr rw by simp
    moreover have "(?xs @ replicate (?w - ?r) 0) ! l = view_elements h v ! (c + l)"
      if "l < ?w" "c + l < ?n" for l
    proof -
      have l: "l < ?r" using that cr by arith
      have lx: "length ?xs = ?r" using lv cr by simp
      have "(?xs @ replicate (?w - ?r) 0) ! l = ?xs ! l"
        using l lx by (simp only: nth_append_left)
      also have "\<dots> = view_elements h v ! (c + l)" using l lv cr by simp
      finally show ?thesis .
    qed
    ultimately show ?thesis using False a1 a2
      by (simp add: subvector_loadu_def)
  qed
qed

lemma load_dense_read:
  fixes h :: "'a::zero heap"
  assumes wfc: "wf_config cfg" and wfd: "wf_dense cfg h d"
      and c: "c < unat (size_dense h d)" and dv: "unat (IT_size cfg) dvd c"
  shows "\<exists>reg. load_dense cfg h d (word_of_nat c) = Inr reg \<and>
           length reg = unat (IT_size cfg) \<and>
           (\<forall>l < unat (IT_size cfg). c + l < unat (size_dense h d) \<longrightarrow>
              reg ! l = dense_elements h d ! (c + l))"
proof -
  let ?w = "unat (IT_size cfg)"
  have uc: "unat (word_of_nat c :: size_t) = c"
    using c by (intro le_unat_uoi [of _ "size_dense h d"]) simp
  have vec: "\<exists>reg. dvec_loadu (IT_size cfg) v (word_of_nat c) = Inr reg \<and>
           length reg = ?w \<and> (\<forall>l < ?w. c + l < unat (dv_size v) \<longrightarrow> reg ! l = visible v ! (c + l))"
    if wf: "wf_dvec cfg v" and cv: "c < unat (dv_size v)" for v :: "'a dvec"
  proof -
    have "c + ?w \<le> length (dv_data v)"
      using dv wf cv by (intro dvd_step_le) (simp_all add: wf_dvec_def)
    then have cap: "unat (word_of_nat c :: size_t) + ?w \<le> length (dv_data v)" using uc by simp
    have lt: "word_of_nat c < dv_size v" using uc cv by (simp add: word_less_nat_alt)
    have "take ?w (drop c (dv_data v)) ! l = visible v ! (c + l)"
      if "l < ?w" "c + l < unat (dv_size v)" for l
      using that \<open>c + ?w \<le> length (dv_data v)\<close> by (simp add: visible_def)
    with dvec_loadu_read [OF lt cap] uc show ?thesis by simp
  qed
  show ?thesis
  proof (cases d)
    case (DynamicVec a)
    with vec [of "h a"] wfd c show ?thesis by simp
  next
    case (Temp t)
    with vec [of t] wfd c show ?thesis by simp
  next
    case (Subvec v)
    with wfd c subvector_loadu_read [OF wfc _ _ _ dv, of h v] show ?thesis
      by (simp add: subvector_load_def size_sv_def)
  qed
qed

lemma chunk_store:
  fixes sv :: subvector and h h1 :: "'a heap"
  assumes b1: "unat (sv_offset sv) + unat (sv_size sv) \<le> unat (dv_size (h (sv_vector sv)))"
      and I: "assign_inv sv track xs h c h1"
      and c: "c < unat (sv_size sv)"
      and cap: "unat (sv_offset sv) + c + unat w \<le> length (dv_data (h (sv_vector sv)))"
      and lanes: "c + unat w \<le> unat (sv_size sv) \<or>
                  (unat (dv_size (h (sv_vector sv))) \<le> unat (sv_offset sv) + unat (sv_size sv) \<and>
                   sv_aligned sv \<and> sv_rest sv \<noteq> 0)"
      and len: "length reg = unat w"
      and ix: "unat ix = unat (sv_offset sv) + c"
      and vals: "track \<Longrightarrow> \<forall>l < unat w. c + l < unat (sv_size sv) \<longrightarrow> reg ! l = xs ! (c + l)"
  shows "\<exists>h2. heap_storeu w h1 (sv_vector sv) ix reg = Inr h2 \<and>
              heap_stream w h1 (sv_vector sv) ix reg = Inr h2 \<and>
              assign_inv sv track xs h (c + unat w) h2"
proof -
  let ?p = "sv_vector sv"
  have fr: "frame sv h h1" using I by (rule assign_inv_frame)
  have szp: "dv_size (h1 ?p) = dv_size (h ?p)"
    and lenp: "length (dv_data (h1 ?p)) = length (dv_data (h ?p))"
    using frame_shape [OF fr] by simp_all
  have lt: "ix < dv_size (h1 ?p)" using ix c b1 szp by (simp add: word_less_nat_alt)
  have cp: "unat ix + unat w \<le> length (dv_data (h1 ?p))" using ix cap lenp by simp
  have "assign_inv sv track xs h (c + length reg) (splice h1 ?p (unat (sv_offset sv) + c) reg)"
  proof (rule splice_assign_inv [OF I b1])
    show "unat (sv_offset sv) + c + length reg \<le> length (dv_data (h ?p))" using cap len by simp
    show "c + length reg \<le> unat (sv_size sv) \<or>
          (unat (dv_size (h ?p)) \<le> unat (sv_offset sv) + unat (sv_size sv) \<and>
           sv_aligned sv \<and> sv_rest sv \<noteq> 0)"
      using lanes len by simp
    show "\<forall>l<length reg. c + l < unat (sv_size sv) \<longrightarrow> reg ! l = xs ! (c + l)" if track
      using vals [OF that] len by simp
  qed
  with heap_storeu_splice [where h = h1 and a = ?p, OF lt cp len]
    heap_stream_splice [where h = h1 and a = ?p, OF lt cp len] ix len
  show ?thesis by simp
qed

subsection \<open>The intrinsic kernels\<close>

lemma subvector_storeu_step:
  fixes h h1 :: "'a heap"
  assumes wfc: "wf_config cfg" and vv: "valid_view cfg h sv"
      and wfp: "wf_dvec cfg (h (sv_vector sv))"
      and I: "assign_inv sv track xs h c h1"
      and c: "c < unat (sv_size sv)" and dv: "unat (IT_size cfg) dvd c"
      and len: "length reg = unat (IT_size cfg)"
      and vals: "track \<Longrightarrow> \<forall>l < unat (IT_size cfg). c + l < unat (sv_size sv) \<longrightarrow>
                   reg ! l = xs ! (c + l)"
  shows "\<exists>h2. subvector_storeu cfg h1 sv (word_of_nat c) reg = Inr h2 \<and>
              assign_inv sv track xs h (c + unat (IT_size cfg)) h2"
proof -
  let ?w = "unat (IT_size cfg)" and ?lo = "unat (sv_offset sv)" and ?n = "unat (sv_size sv)"
  let ?p = "sv_vector sv"
  note b1 = valid_view_nat(1) [OF vv]
  have szl: "unat (dv_size (h ?p)) \<le> length (dv_data (h ?p))" using wfp by (simp add: wf_dvec_def)
  have uc: "unat (word_of_nat c :: size_t) = c"
    using c by (intro le_unat_uoi [of _ "sv_size sv"]) simp
  have a1: "word_of_nat c < size_sv sv" using uc c by (simp add: word_less_nat_alt size_sv_def)
  have a2: "(word_of_nat c :: size_t) mod IT_size cfg = 0"
    using c dv by (intro word_of_nat_mod [of _ "sv_size sv"]) simp_all
  have "?lo + c \<le> unat (dv_size (h ?p))" using b1 c by simp
  note u = unat_of_nat_add(2) [OF this]
  show ?thesis
  proof (cases "sv_aligned sv \<or> word_of_nat c \<noteq> sv_final sv")
    case True
    from tail_cases(1) [OF wfc vv wfp c dv True] have
      cap: "?lo + c + ?w \<le> length (dv_data (h ?p))"
      and lanes: "c + ?w \<le> ?n \<or>
        (unat (dv_size (h ?p)) \<le> ?lo + ?n \<and> sv_aligned sv \<and> sv_rest sv \<noteq> 0)" by simp_all
    from chunk_store [where sv = sv and h = h, OF b1 I c cap lanes len u vals]
    show ?thesis using True a1 a2 by (auto simp: subvector_storeu_def)
  next
    case False
    from tail_cases(2) [OF wfc vv wfp c dv False] have
      cr: "c + unat (sv_rest sv) = ?n" and rw: "unat (sv_rest sv) < ?w" by simp_all
    let ?r = "unat (sv_rest sv)"
    let ?K = "\<lambda>j h2. assign_inv sv track xs h (c + j) h2 \<and> j \<le> ?r"
    let ?body = "\<lambda>j h. if unat j < length reg
                     then heap_set h ?p (sv_offset sv + word_of_nat c + j) (reg ! unat j)
                     else Inl AssertionFailure"
    have "\<exists>h2 j. for_loop 0 ?r 1 ?body h1 = Inr h2 \<and> ?K j h2 \<and> ?r \<le> j"
    proof (rule for_loop_rule [where I = ?K])
      show "(0::nat) < 1" by simp
      show "?K 0 h1" using I by simp
    next
      fix j h2 assume K: "?K j h2" and j: "j < ?r"
      have cj: "c + j < ?n" using cr j by simp
      have uj: "unat (word_of_nat j :: size_t) = j"
        using j by (intro le_unat_uoi [of _ "sv_rest sv"]) simp
      have "?lo + (c + j) \<le> unat (dv_size (h ?p))" using b1 cj by simp
      from unat_of_nat_add(2) [OF this]
      have ix: "unat (sv_offset sv + word_of_nat c + word_of_nat j) = ?lo + (c + j)"
        by (simp add: add.assoc)
      have x: "reg ! j = xs ! (c + j)" if track
        using vals [OF that] j rw cj by simp
      from element_step [where sv = sv and h = h, OF b1 szl _ cj ix x] K
      obtain h3 where "heap_set h2 ?p (sv_offset sv + word_of_nat c + word_of_nat j) (reg ! j) = Inr h3"
        "assign_inv sv track xs h (Suc (c + j)) h3" by blast
      then show "\<exists>s'. ?body (word_of_nat j) h2 = Inr s' \<and> ?K (j + 1) s'"
        using uj j rw len by simp
    qed
    then obtain h2 j where l: "for_loop 0 ?r 1 ?body h1 = Inr h2"
      and K: "assign_inv sv track xs h (c + j) h2" and j: "j \<le> ?r" "?r \<le> j" by blast
    from K j cr have "assign_inv sv track xs h (c + ?w) h2"
      by (intro assign_inv_saturate [OF K]) simp
    moreover have "subvector_storeu cfg h1 sv (word_of_nat c) reg = for_loop 0 ?r 1 ?body h1"
    proof -
      from False have eq: "sv_final sv = word_of_nat c" and na: "\<not> sv_aligned sv" by simp_all
      show ?thesis unfolding subvector_storeu_def eq using a1 a2 na by simp
    qed
    ultimately show ?thesis using l by auto
  qed
qed

lemma word_of_nat_plus_width:
  fixes W :: size_t
  shows "word_of_nat (j + unat W) = word_of_nat j + W"
    and "word_of_nat (j + 2 * unat W) = word_of_nat j + W * 2"
    and "word_of_nat (j + 3 * unat W) = word_of_nat j + W * 3"
  by simp_all

lemma vector_kernel_rule:
  fixes h :: "'a heap"
  assumes wfc: "wf_config cfg" and vv: "valid_view cfg h sv"
      and wfp: "wf_dvec cfg (h (sv_vector sv))"
      and ld: "\<And>c h1. assign_inv sv track xs h c h1 \<Longrightarrow> c < unat (sv_size sv) \<Longrightarrow>
                 unat (IT_size cfg) dvd c \<Longrightarrow>
                 \<exists>reg. ld h1 (word_of_nat c) = Inr reg \<and> length reg = unat (IT_size cfg) \<and>
                   (track \<longrightarrow> (\<forall>l < unat (IT_size cfg). c + l < unat (sv_size sv) \<longrightarrow>
                      reg ! l = xs ! (c + l)))"
  shows "\<exists>h'. vector_kernel ld cfg h sv = Inr h' \<and>
           assign_inv sv track xs h (unat (sv_size sv)) h'"
proof -
  let ?W = "IT_size cfg"
  let ?w = "unat ?W" and ?lo = "unat (sv_offset sv)" and ?n = "unat (sv_size sv)"
  let ?p = "sv_vector sv"
  let ?iend = "sv_size sv AND - (?W * 4)"
  note b1 = valid_view_nat(1) [OF vv]
  have szl: "unat (dv_size (h ?p)) \<le> length (dv_data (h ?p))" using wfp by (simp add: wf_dvec_def)
  from wf_config_width [OF wfc] obtain k where k: "k < 62" "?W = 2 ^ k" "?w = 2 ^ k"
    "?W * 4 = 2 ^ (k + 2)" "unat (?W * 4) = 4 * 2 ^ k" by blast
  have w0: "0 < ?w" using k by simp
  have w4: "unat (?W * 4) = 4 * ?w" using k by simp
  have ie: "?iend = sv_size sv - sv_size sv mod (?W * 4)"
    unfolding k(4) by (rule and_neg_pow2)
  have "unat ?iend = ?n - ?n mod 2 ^ (k + 2)"
    unfolding k(4) using k(1) by (intro unat_and_neg_pow2) simp
  moreover have "(2::nat) ^ (k + 2) = 4 * ?w" using k(3) by simp
  ultimately have uie: "unat ?iend = ?n - ?n mod (4 * ?w)" by (simp only:)
  have d4: "4 * ?w dvd unat ?iend" unfolding uie by (simp add: dvd_minus_mod)
  then have d1: "?w dvd unat ?iend" by (rule dvd_mult_right)
  have ien: "unat ?iend \<le> ?n" unfolding uie by simp
  \<comment> \<open>one full register inside the view\<close>
  have chunk: "\<exists>reg h2. ld h1 (word_of_nat c) = Inr reg \<and>
                 heap_storeu ?W h1 ?p (sv_offset sv + word_of_nat c) reg = Inr h2 \<and>
                 assign_inv sv track xs h (c + ?w) h2"
    if I: "assign_inv sv track xs h c h1" and dv: "?w dvd c" and cw: "c + ?w \<le> ?n" for c h1
  proof -
    have c: "c < ?n" using cw w0 by simp
    from ld [OF I c dv] obtain reg where reg: "ld h1 (word_of_nat c) = Inr reg"
      "length reg = ?w" "track \<Longrightarrow> \<forall>l < ?w. c + l < ?n \<longrightarrow> reg ! l = xs ! (c + l)" by blast
    have "?lo + c \<le> unat (dv_size (h ?p))" using b1 c by simp
    note u = unat_of_nat_add(2) [OF this]
    have cap: "?lo + c + ?w \<le> length (dv_data (h ?p))" using cw b1 szl by simp
    from chunk_store [where sv = sv and h = h, OF b1 I c cap _ reg(2) u reg(3)] cw
    obtain h2 where "heap_storeu ?W h1 ?p (sv_offset sv + word_of_nat c) reg = Inr h2"
      "assign_inv sv track xs h (c + ?w) h2" by blast
    with reg(1) show ?thesis by blast
  qed
  let ?I1 = "\<lambda>j h1. assign_inv sv track xs h j h1 \<and> 4 * ?w dvd j \<and> j \<le> unat ?iend"
  let ?body1 = "\<lambda>i h.
                    bind (ld h i) (\<lambda>r.
                    bind (heap_storeu ?W h ?p (sv_offset sv + i) r) (\<lambda>h.
                    bind (ld h (i + ?W)) (\<lambda>r.
                    bind (heap_storeu ?W h ?p (sv_offset sv + i + ?W) r) (\<lambda>h.
                    bind (ld h (i + ?W * 2)) (\<lambda>r.
                    bind (heap_storeu ?W h ?p (sv_offset sv + i + ?W * 2) r) (\<lambda>h.
                    bind (ld h (i + ?W * 3)) (\<lambda>r.
                    heap_storeu ?W h ?p (sv_offset sv + i + ?W * 3) r)))))))"
  have "\<exists>h1 j. for_loop 0 (unat ?iend) (4 * ?w) ?body1 h = Inr h1 \<and> ?I1 j h1 \<and> unat ?iend \<le> j"
  proof (rule for_loop_rule [where I = ?I1])
    show "0 < 4 * ?w" using w0 by simp
    show "?I1 0 h" by (simp add: assign_inv_init)
  next
    fix j h1 assume I: "?I1 j h1" and j: "j < unat ?iend"
    have j4: "j + 4 * ?w \<le> unat ?iend" using I d4 j by (intro dvd_step_le) simp_all
    have dj: "?w dvd j" using I by (auto dest: dvd_mult_right)
    from chunk [of j h1] I dj j4 ien obtain r0 h2 where
      s0: "ld h1 (word_of_nat j) = Inr r0"
          "heap_storeu ?W h1 ?p (sv_offset sv + word_of_nat j) r0 = Inr h2"
          "assign_inv sv track xs h (j + ?w) h2" by auto
    from chunk [of "j + ?w" h2] s0(3) dj j4 ien obtain r1 h3 where
      s1: "ld h2 (word_of_nat (j + ?w)) = Inr r1"
          "heap_storeu ?W h2 ?p (sv_offset sv + word_of_nat (j + ?w)) r1 = Inr h3"
          "assign_inv sv track xs h (j + ?w + ?w) h3" by auto
    have e2: "j + ?w + ?w = j + 2 * ?w" by simp
    from chunk [of "j + 2 * ?w" h3] s1(3) dj j4 ien obtain r2 h4 where
      s2: "ld h3 (word_of_nat (j + 2 * ?w)) = Inr r2"
          "heap_storeu ?W h3 ?p (sv_offset sv + word_of_nat (j + 2 * ?w)) r2 = Inr h4"
          "assign_inv sv track xs h (j + 2 * ?w + ?w) h4" unfolding e2 by auto
    have e3: "j + 2 * ?w + ?w = j + 3 * ?w" by simp
    from chunk [of "j + 3 * ?w" h4] s2(3) dj j4 ien obtain r3 h5 where
      s3: "ld h4 (word_of_nat (j + 3 * ?w)) = Inr r3"
          "heap_storeu ?W h4 ?p (sv_offset sv + word_of_nat (j + 3 * ?w)) r3 = Inr h5"
          "assign_inv sv track xs h (j + 3 * ?w + ?w) h5" unfolding e3 by auto
    have e4: "j + 3 * ?w + ?w = j + 4 * ?w" by simp
    have "?body1 (word_of_nat j) h1 = Inr h5"
      using s0(1,2) s1(1,2) s2(1,2) s3(1,2)
      by (simp only: bind_Inr word_of_nat_plus_width add.assoc)
    moreover have "?I1 (j + 4 * ?w) h5" using s3(3) I j4 unfolding e4 by simp
    ultimately show "\<exists>s'. ?body1 (word_of_nat j) h1 = Inr s' \<and> ?I1 (j + 4 * ?w) s'" by blast
  qed
  then obtain h1 j1 where l1: "for_loop 0 (unat ?iend) (4 * ?w) ?body1 h = Inr h1"
    and I1: "assign_inv sv track xs h j1 h1" and j1: "j1 \<le> unat ?iend" "unat ?iend \<le> j1"
    by blast
  have I1': "assign_inv sv track xs h (unat ?iend) h1" using I1 j1 by simp
  let ?I2 = "\<lambda>j h2. assign_inv sv track xs h j h2 \<and> ?w dvd j"
  let ?body2 = "\<lambda>i h. bind (ld h i) (subvector_storeu cfg h sv i)"
  have "\<exists>h2 j. for_loop (unat ?iend) ?n ?w ?body2 h1 = Inr h2 \<and> ?I2 j h2 \<and> ?n \<le> j"
  proof (rule for_loop_rule [where I = ?I2])
    show "0 < ?w" by (rule w0)
    show "?I2 (unat ?iend) h1" using I1' d1 by simp
  next
    fix j h2 assume I: "?I2 j h2" and j: "j < ?n"
    from ld [of j h2] I j obtain reg where reg: "ld h2 (word_of_nat j) = Inr reg"
      "length reg = ?w" "track \<Longrightarrow> \<forall>l < ?w. j + l < ?n \<longrightarrow> reg ! l = xs ! (j + l)" by blast
    from subvector_storeu_step [OF wfc vv wfp _ j _ reg(2) reg(3)] I
    obtain h3 where "subvector_storeu cfg h2 sv (word_of_nat j) reg = Inr h3"
      "assign_inv sv track xs h (j + ?w) h3" by blast
    with reg(1) I show "\<exists>s'. ?body2 (word_of_nat j) h2 = Inr s' \<and> ?I2 (j + ?w) s'" by simp
  qed
  then obtain h2 j2 where l2: "for_loop (unat ?iend) ?n ?w ?body2 h1 = Inr h2"
    and I2: "assign_inv sv track xs h j2 h2" and j2: "?n \<le> j2" by blast
  have "assign_inv sv track xs h ?n h2" using I2 j2 by (rule assign_inv_mono)
  with l1 l2 ie w4 show ?thesis
    by (simp add: vector_kernel_def Let_def)
qed

lemma isAliased_canAlias: "isAliased_dense d a = canAlias_dense d a"
  by (cases d) (simp_all add: isAliased_sv_def canAlias_sv_def)

lemma wf_dvec_shape:
  assumes "wf_dvec cfg (h a)" "same_shape h h'"
  shows "wf_dvec cfg (h' a)"
  using assms by (simp add: wf_dvec_def same_shape_def)

lemma assign_vectorized_shape:
  "assign_vectorized cfg h sv rhs =
     (if size_sv sv \<noteq> size_dense h rhs then Inl AssertionFailure
      else if useStreaming cfg \<and> sv_aligned sv \<and>
              sv_size sv > cacheSize cfg div (sizeof_ElementType cfg * 3) \<and>
              \<not> isAliased_dense rhs (sv_vector sv)
      then for_loop 0 (unat (size_sv sv)) (unat (IT_size cfg))
             (\<lambda>i h. bind (load_dense cfg h rhs i)
                       (heap_stream (IT_size cfg) h (sv_vector sv) (sv_offset sv + i))) h
      else vector_kernel (\<lambda>h i. it_load_dense cfg h rhs i) cfg h sv)"
  by (simp add: assign_vectorized_def vector_kernel_def Let_def)

lemma compound_vectorized_shape:
  "compound_vectorized f cfg h sv rhs =
     (if size_sv sv \<noteq> size_dense h rhs then Inl AssertionFailure
      else vector_kernel (\<lambda>h i. compound_register f cfg h sv rhs i) cfg h sv)"
  by (simp add: compound_vectorized_def vector_kernel_def Let_def)

lemma streaming_loop:
  fixes h :: "'a::zero heap"
  assumes wfc: "wf_config cfg" and vv: "valid_view cfg h sv"
      and wfp: "wf_dvec cfg (h (sv_vector sv))"
      and wfd: "wf_dense cfg h d" and sz: "size_dense h d = sv_size sv"
      and al: "sv_aligned sv" and na: "\<not> canAlias_dense d (sv_vector sv)"
  shows "\<exists>h'. for_loop 0 (unat (size_sv sv)) (unat (IT_size cfg))
             (\<lambda>i h. bind (load_dense cfg h d i)
                       (heap_stream (IT_size cfg) h (sv_vector sv) (sv_offset sv + i))) h = Inr h' \<and>
           assign_inv sv True (dense_elements h d) h (unat (sv_size sv)) h'"
proof -
  let ?W = "IT_size cfg"
  let ?w = "unat ?W" and ?lo = "unat (sv_offset sv)" and ?n = "unat (sv_size sv)"
  let ?p = "sv_vector sv" and ?xs = "dense_elements h d"
  let ?I = "\<lambda>j h1. assign_inv sv True ?xs h j h1 \<and> ?w dvd j"
  let ?body = "\<lambda>i h. bind (load_dense cfg h d i) (heap_stream ?W h ?p (sv_offset sv + i))"
  note b1 = valid_view_nat(1) [OF vv]
  have "\<exists>h' j. for_loop 0 ?n ?w ?body h = Inr h' \<and> ?I j h' \<and> ?n \<le> j"
  proof (rule for_loop_rule [where I = ?I])
    show "0 < ?w" using wfc by (rule wf_config_pos)
    show "?I 0 h" by (simp add: assign_inv_init)
  next
    fix j h1 assume I: "?I j h1" and j: "j < ?n"
    then have fr: "frame sv h h1" by (auto intro: assign_inv_frame)
    have ss: "same_shape h h1" using fr by (rule frame_same_shape)
    have wfd1: "wf_dense cfg h1 d" using wfd ss by (rule wf_dense_shape)
    have sz1: "unat (size_dense h1 d) = ?n" using sz size_dense_shape [OF ss, of d] by simp
    have el: "dense_elements h1 d = ?xs" using fr na by (rule dense_elements_frame)
    from load_dense_read [OF wfc wfd1, of j] I j sz1 el obtain reg where
      reg: "load_dense cfg h1 d (word_of_nat j) = Inr reg" "length reg = ?w"
        "\<forall>l < ?w. j + l < ?n \<longrightarrow> reg ! l = ?xs ! (j + l)" by auto
    have A: "sv_aligned sv \<or> word_of_nat j \<noteq> sv_final sv" using al by simp
    from tail_cases(1) [OF wfc vv wfp j _ A] I have
      cap: "?lo + j + ?w \<le> length (dv_data (h ?p))"
      and lanes: "j + ?w \<le> ?n \<or>
        (unat (dv_size (h ?p)) \<le> ?lo + ?n \<and> sv_aligned sv \<and> sv_rest sv \<noteq> 0)" by simp_all
    have "?lo + j \<le> unat (dv_size (h ?p))" using b1 j by simp
    note u = unat_of_nat_add(2) [OF this]
    from chunk_store [where sv = sv and h = h, OF b1 _ j cap lanes reg(2) u] I reg(3)
    obtain h2 where "heap_stream ?W h1 ?p (sv_offset sv + word_of_nat j) reg = Inr h2"
      "assign_inv sv True ?xs h (j + ?w) h2" by blast
    with reg(1) I show "\<exists>s'. ?body (word_of_nat j) h1 = Inr s' \<and> ?I (j + ?w) s'" by simp
  qed
  then obtain h' j where l: "for_loop 0 ?n ?w ?body h = Inr h'"
    and I: "assign_inv sv True ?xs h j h'" and j: "?n \<le> j" by blast
  have "assign_inv sv True ?xs h ?n h'" using I j by (rule assign_inv_mono)
  with l show ?thesis by (simp add: size_sv_def)
qed

lemma assign_vectorized_inv:
  fixes h :: "'a::zero heap"
  assumes wfc: "wf_config cfg" and vv: "valid_view cfg h sv"
      and wfp: "wf_dvec cfg (h (sv_vector sv))"
      and wfd: "wf_dense cfg h d" and sz: "size_dense h d = sv_size sv"
  shows "\<exists>h'. assign_vectorized cfg h sv d = Inr h' \<and>
           assign_inv sv (\<not> canAlias_dense d (sv_vector sv)) (dense_elements h d) h
             (unat (sv_size sv)) h'"
proof (cases "useStreaming cfg \<and> sv_aligned sv \<and>
              sv_size sv > cacheSize cfg div (sizeof_ElementType cfg * 3) \<and>
              \<not> isAliased_dense d (sv_vector sv)")
  case True
  then have al: "sv_aligned sv" and na: "\<not> canAlias_dense d (sv_vector sv)"
    by (simp_all add: isAliased_canAlias)
  from streaming_loop [OF wfc vv wfp wfd sz al na] True na sz show ?thesis
    by (simp add: assign_vectorized_shape size_sv_def)
next
  case False
  let ?tr = "\<not> canAlias_dense d (sv_vector sv)" and ?xs = "dense_elements h d"
  have "\<exists>h'. vector_kernel (\<lambda>h i. it_load_dense cfg h d i) cfg h sv = Inr h' \<and>
           assign_inv sv ?tr ?xs h (unat (sv_size sv)) h'"
  proof (rule vector_kernel_rule [OF wfc vv wfp])
    fix c h1
    assume I: "assign_inv sv ?tr ?xs h c h1" and c: "c < unat (sv_size sv)"
      and dv: "unat (IT_size cfg) dvd c"
    have fr: "frame sv h h1" using I by (rule assign_inv_frame)
    have ss: "same_shape h h1" using fr by (rule frame_same_shape)
    have wfd1: "wf_dense cfg h1 d" using wfd ss by (rule wf_dense_shape)
    have sz1: "unat (size_dense h1 d) = unat (sv_size sv)"
      using sz size_dense_shape [OF ss, of d] by simp
    have el: "?tr \<Longrightarrow> dense_elements h1 d = ?xs" using fr by (rule dense_elements_frame)
    from it_load_dense_read [OF wfc wfd1, of c] c dv sz1 el
    show "\<exists>reg. it_load_dense cfg h1 d (word_of_nat c) = Inr reg \<and>
            length reg = unat (IT_size cfg) \<and>
            (?tr \<longrightarrow> (\<forall>l<unat (IT_size cfg). c + l < unat (sv_size sv) \<longrightarrow>
               reg ! l = ?xs ! (c + l)))"
      by auto
  qed
  moreover have "assign_vectorized cfg h sv d =
      vector_kernel (\<lambda>h i. it_load_dense cfg h d i) cfg h sv"
    using False sz unfolding assign_vectorized_shape by (simp only: size_sv_def if_False simp_thms)
  ultimately show ?thesis by simp
qed

lemma compound_vectorized_frame:
  fixes h :: "'a::zero heap"
  assumes wfc: "wf_config cfg" and vv: "valid_view cfg h sv"
      and wfp: "wf_dvec cfg (h (sv_vector sv))"
      and wfd: "wf_dense cfg h d" and sz: "size_dense h d = sv_size sv"
  shows "\<exists>h'. compound_vectorized f cfg h sv d = Inr h' \<and> frame sv h h'"
proof -
  have "\<exists>h'. vector_kernel (\<lambda>h i. compound_register f cfg h sv d i) cfg h sv = Inr h' \<and>
           assign_inv sv False [] h (unat (sv_size sv)) h'"
  proof (rule vector_kernel_rule [OF wfc vv wfp])
    fix c h1
    assume I: "assign_inv sv False [] h c h1" and c: "c < unat (sv_size sv)"
      and dv: "unat (IT_size cfg) dvd c"
    have fr: "frame sv h h1" using I by (rule assign_inv_frame)
    have ss: "same_shape h h1" using fr by (rule frame_same_shape)
    have wfd1: "wf_dense cfg h1 d" using wfd ss by (rule wf_dense_shape)
    have sz1: "unat (size_dense h1 d) = unat (sv_size sv)"
      using sz size_dense_shape [OF ss, of d] by simp
    have vv1: "valid_view cfg h1 sv" using vv ss by (rule valid_view_shape)
    have wfp1: "wf_dvec cfg (h1 (sv_vector sv))" using wfp ss by (rule wf_dvec_shape)
    from subvector_loadu_read [OF wfc vv1 wfp1 c dv] obtain a where
      a: "subvector_load cfg h1 sv (word_of_nat c) = Inr a" "length a = unat (IT_size cfg)"
      by (auto simp: subvector_load_def)
    from it_load_dense_read [OF wfc wfd1, of c] c dv sz1 obtain b where
      b: "it_load_dense cfg h1 d (word_of_nat c) = Inr b" "length b = unat (IT_size cfg)"
      by auto
    from a b
    show "\<exists>reg. compound_register f cfg h1 sv d (word_of_nat c) = Inr reg \<and>
            length reg = unat (IT_size cfg) \<and>
            (False \<longrightarrow> (\<forall>l<unat (IT_size cfg). c + l < unat (sv_size sv) \<longrightarrow>
               reg ! l = [] ! (c + l)))"
      by (simp add: compound_register_def)
  qed
  with sz show ?thesis
    by (auto simp: compound_vectorized_shape size_sv_def assign_inv_def)
qed

subsection \<open>Operators with a dense operand\<close>

lemma assign_inv_complete:
  fixes h h' :: "'a heap"
  assumes I: "assign_inv sv True xs h (unat (sv_size sv)) h'"
      and len: "length xs = unat (sv_size sv)"
      and b1: "unat (sv_offset sv) + unat (sv_size sv) \<le> unat (dv_size (h (sv_vector sv)))"
      and b2: "unat (dv_size (h (sv_vector sv))) \<le> length (dv_data (h (sv_vector sv)))"
  shows "view_elements h' sv = xs"
    and "\<forall>i < unat (sv_size sv). subscript h' sv (word_of_nat i) = Inr (xs ! i)"
proof -
  let ?p = "sv_vector sv" and ?n = "unat (sv_size sv)" and ?lo = "unat (sv_offset sv)"
  have fr: "frame sv h h'" using I by (rule assign_inv_frame)
  have sz': "dv_size (h' ?p) = dv_size (h ?p)"
    and len': "length (dv_data (h' ?p)) = length (dv_data (h ?p))"
    using frame_shape [OF fr] by simp_all
  have b1': "?lo + ?n \<le> unat (dv_size (h' ?p))" using b1 sz' by simp
  have b2': "unat (dv_size (h' ?p)) \<le> length (dv_data (h' ?p))" using b2 sz' len' by simp
  have lv: "length (view_elements h' sv) = ?n" using b1' b2' by (rule length_view_elements)
  show ve: "view_elements h' sv = xs"
  proof (rule nth_equalityI)
    show "length (view_elements h' sv) = length xs" using lv len by simp
  next
    fix i assume "i < length (view_elements h' sv)"
    then have i: "i < ?n" using lv by simp
    then have "view_elements h' sv ! i = dv_data (h' ?p) ! (?lo + i)"
      using b1' b2' by (simp add: view_elements_def)
    also have "\<dots> = xs ! i" using I i by (simp add: assign_inv_def)
    finally show "view_elements h' sv ! i = xs ! i" .
  qed
  show "\<forall>i < ?n. subscript h' sv (word_of_nat i) = Inr (xs ! i)"
    using subscript_read [where h = h' and v = sv, OF b1' b2'] ve by simp
qed

lemma assign_inv_unique:
  fixes h h1 h2 :: "'a heap"
  assumes I1: "assign_inv sv True xs h (unat (sv_size sv)) h1"
      and I2: "assign_inv sv True xs h (unat (sv_size sv)) h2"
      and b2: "unat (dv_size (h (sv_vector sv))) \<le> length (dv_data (h (sv_vector sv)))"
  shows "visible (h1 a) = visible (h2 a)"
proof (cases "a = sv_vector sv")
  case False
  then have "h1 a = h a" "h2 a = h a"
    using assign_inv_frame [OF I1] assign_inv_frame [OF I2] by (simp_all add: frame_def)
  then show ?thesis by simp
next
  case True
  let ?p = "sv_vector sv" and ?n = "unat (sv_size sv)" and ?lo = "unat (sv_offset sv)"
  note f1 = assign_inv_frame [OF I1] and f2 = assign_inv_frame [OF I2]
  have s1: "dv_size (h1 ?p) = dv_size (h ?p)" "length (dv_data (h1 ?p)) = length (dv_data (h ?p))"
    using frame_shape [OF f1] by simp_all
  have s2: "dv_size (h2 ?p) = dv_size (h ?p)" "length (dv_data (h2 ?p)) = length (dv_data (h ?p))"
    using frame_shape [OF f2] by simp_all
  have "visible (h1 ?p) = visible (h2 ?p)"
  proof (rule nth_equalityI)
    show "length (visible (h1 ?p)) = length (visible (h2 ?p))"
      using s1 s2 by (simp add: visible_def)
  next
    fix j assume "j < length (visible (h1 ?p))"
    then have j: "j < unat (dv_size (h ?p))" using s1 by (simp add: visible_def)
    have "dv_data (h1 ?p) ! j = dv_data (h2 ?p) ! j"
    proof (cases "j < ?lo \<or> ?lo + ?n \<le> j")
      case True
      then have "dv_data (h1 ?p) ! j = dv_data (h ?p) ! j" "dv_data (h2 ?p) ! j = dv_data (h ?p) ! j"
        using f1 f2 j unfolding frame_def by blast+
      then show ?thesis by simp
    next
      case False
      then obtain i where i: "j = ?lo + i" "i < ?n" by (metis add_diff_inverse_nat nat_add_left_cancel_less not_le)
      then have "dv_data (h1 ?p) ! (?lo + i) = xs ! i" "dv_data (h2 ?p) ! (?lo + i) = xs ! i"
        using I1 I2 by (simp_all add: assign_inv_def)
      with i show ?thesis by simp
    qed
    then show "visible (h1 ?p) ! j = visible (h2 ?p) ! j"
      using j s1 s2 by (simp add: visible_def)
  qed
  with True show ?thesis by simp
qed

lemma reference_assign_inv:
  fixes h :: "'a heap"
  assumes vv: "valid_view cfg h sv"
      and b2: "unat (dv_size (h (sv_vector sv))) \<le> length (dv_data (h (sv_vector sv)))"
      and wfd: "wf_dense cfg h d" and sz: "size_dense h d = sv_size sv"
  shows "\<exists>hr. reference_assign h sv d = Inr hr \<and>
           assign_inv sv True (dense_elements h d) h (unat (sv_size sv)) hr"
proof -
  let ?p = "sv_vector sv" and ?n = "unat (sv_size sv)" and ?lo = "unat (sv_offset sv)"
  let ?xs = "dense_elements h d"
  let ?zs = "zip [0..<length ?xs] ?xs"
  let ?body = "\<lambda>e h. subscript_write h sv (word_of_nat (fst e)) (snd e)"
  let ?J = "\<lambda>dn h1. assign_inv sv True ?xs h (length dn) h1"
  note b1 = valid_view_nat(1) [OF vv]
  have len: "length ?xs = ?n" using length_dense_elements [OF wfd] sz by simp
  have col: "collect (at_dense h d) (unat (size_dense h d)) = Inr ?xs"
    using at_dense_read [OF wfd] length_dense_elements [OF wfd] by (rule collect_list)
  have "\<exists>hr. for_each ?zs ?body h = Inr hr \<and> ?J ?zs hr"
  proof (rule for_each_rule [where I = ?J])
    show "?J [] h" by (simp add: assign_inv_init)
  next
    fix dn e rest h1
    assume zs: "?zs = dn @ e # rest" and J: "?J dn h1"
    have "length ?zs = ?n" using len by simp
    then have c: "length dn < ?n" using zs by simp
    have "?zs ! length dn = e" using zs by simp
    then have e: "e = (length dn, ?xs ! length dn)" using c len by simp
    have uc: "unat (word_of_nat (length dn) :: size_t) = length dn"
      using c by (intro le_unat_uoi [of _ "sv_size sv"]) simp
    have "?lo + length dn \<le> unat (dv_size (h ?p))" using b1 c by simp
    note u = unat_of_nat_add(2) [OF this]
    from element_step [where sv = sv and h = h, OF b1 b2 J c u, of "?xs ! length dn"]
    obtain h2 where "heap_set h1 ?p (sv_offset sv + word_of_nat (length dn)) (?xs ! length dn) = Inr h2"
      "assign_inv sv True ?xs h (Suc (length dn)) h2" by auto
    then show "\<exists>s'. ?body e h1 = Inr s' \<and> ?J (dn @ [e]) s'"
      using e uc c by (simp add: subscript_write_def size_sv_def word_less_nat_alt)
  qed
  then obtain hr where "for_each ?zs ?body h = Inr hr" "assign_inv sv True ?xs h (length ?zs) hr"
    by blast
  with col len show ?thesis by (simp add: reference_assign_def)
qed

lemma assign_dense_inv:
  fixes h :: "'a::zero heap"
  assumes wfc: "wf_config cfg" and vv: "valid_view cfg h sv"
      and wfp: "wf_dvec cfg (h (sv_vector sv))"
      and wfd: "wf_dense cfg h d" and sz: "size_dense h d = sv_size sv"
  shows "\<exists>h'. assign cfg h sv (Dense d) = Inr h' \<and>
           assign_inv sv (\<not> canAlias_dense d (sv_vector sv)) (dense_elements h d) h
             (unat (sv_size sv)) h'"
proof -
  have b2: "unat (dv_size (h (sv_vector sv))) \<le> length (dv_data (h (sv_vector sv)))"
    using wfp by (simp add: wf_dvec_def)
  show ?thesis
    using assign_vectorized_inv [OF wfc vv wfp wfd sz] assign_default_inv [OF vv b2 wfd sz]
    by simp
qed

lemma op_assign_dense_inv:
  fixes h :: "'a::zero heap"
  assumes wfc: "wf_config cfg" and vv: "valid_view cfg h sv"
      and wfp: "wf_dvec cfg (h (sv_vector sv))"
      and wfd: "wf_dense cfg h d" and sz: "size_dense h d = sv_size sv"
  shows "\<exists>h'. op_assign cfg h sv (Dense d) = Inr h' \<and>
           assign_inv sv True (dense_elements h d) h (unat (sv_size sv)) h'"
    and "canAlias_dense d (sv_vector sv) \<Longrightarrow>
           \<exists>tmp. evaluate cfg h (Dense d) = Inr (Dense (Temp tmp)) \<and>
             visible tmp = dense_elements h d \<and> dv_size tmp = size_dense h d \<and>
             op_assign cfg h sv (Dense d) = assign cfg h sv (Dense (Temp tmp))"
    and "\<not> canAlias_dense d (sv_vector sv) \<Longrightarrow>
           op_assign cfg h sv (Dense d) = assign cfg h sv (Dense d)"
proof -
  from evaluate_dense_read [OF wfd wf_config_pos [OF wfc]] obtain t where
    t: "evaluate_dense cfg h d = Inr t" "wf_dvec cfg t" "dv_size t = size_dense h d"
       "visible t = dense_elements h d" by blast
  have szs: "size_sv sv = size_dense h d" using sz by (simp add: size_sv_def)
  show al: "\<exists>tmp. evaluate cfg h (Dense d) = Inr (Dense (Temp tmp)) \<and>
             visible tmp = dense_elements h d \<and> dv_size tmp = size_dense h d \<and>
             op_assign cfg h sv (Dense d) = assign cfg h sv (Dense (Temp tmp))"
    if "canAlias_dense d (sv_vector sv)"
    using that t szs by (simp add: op_assign_def)
  show na: "op_assign cfg h sv (Dense d) = assign cfg h sv (Dense d)"
    if "\<not> canAlias_dense d (sv_vector sv)"
    using that szs by (simp add: op_assign_def)
  show "\<exists>h'. op_assign cfg h sv (Dense d) = Inr h' \<and>
           assign_inv sv True (dense_elements h d) h (unat (sv_size sv)) h'"
  proof (cases "canAlias_dense d (sv_vector sv)")
    case True
    have "wf_dense cfg h (Temp t)" "size_dense h (Temp t) = sv_size sv"
      using t sz by simp_all
    from assign_dense_inv [OF wfc vv wfp this] t(4) have
      "\<exists>h'. assign cfg h sv (Dense (Temp t)) = Inr h' \<and>
           assign_inv sv True (dense_elements h d) h (unat (sv_size sv)) h'" by simp
    moreover have "op_assign cfg h sv (Dense d) = assign cfg h sv (Dense (Temp t))"
      using True t szs by (simp add: op_assign_def)
    ultimately show ?thesis by simp
  next
    case False
    from assign_dense_inv [OF wfc vv wfp wfd sz] False na [OF False] show ?thesis by simp
  qed
qed

lemma copy_assign_inv:
  fixes h :: "'a::zero heap"
  assumes wfc: "wf_config cfg" and vv: "valid_view cfg h sv"
      and wfp: "wf_dvec cfg (h (sv_vector sv))"
      and wfd: "wf_dense cfg h (Subvec rhs)" and sz: "sv_size rhs = sv_size sv"
  shows "\<exists>h'. copy_assign cfg h sv rhs = Inr h' \<and>
           assign_inv sv True (view_elements h rhs) h (unat (sv_size sv)) h'"
proof (cases "rhs = sv \<or> (sv_vector sv = sv_vector rhs \<and> sv_offset sv = sv_offset rhs)")
  case True
  then have same: "sv_vector rhs = sv_vector sv" "sv_offset rhs = sv_offset sv" by auto
  have "view_elements h rhs = view_elements h sv" using same sz by (simp add: view_elements_def)
  moreover have "assign_inv sv True (view_elements h sv) h (unat (sv_size sv)) h"
    using valid_view_nat(1) [OF vv] wfp
    by (simp add: assign_inv_def frame_refl view_elements_def wf_dvec_def)
  ultimately show ?thesis using True by (simp add: copy_assign_def)
next
  case False
  have "copy_assign cfg h sv rhs = op_assign cfg h sv (Dense (Subvec rhs))"
    using False sz by (auto simp add: copy_assign_def op_assign_def size_sv_def)
  with op_assign_dense_inv(1) [OF wfc vv wfp wfd] sz show ?thesis by (simp add: size_sv_def)
qed

subsection \<open>Multiplication by a sparse vector\<close>

text \<open>
  C5. For a valid view and a sparse operand of the same size, \<^verbatim>\<open>operator*=\<close> runs
  the sparse kernel \<^verbatim>\<open>multAssign\<close> (which copies the view, resets it and writes
  \<^verbatim>\<open>tmp[index] * value\<close> for every non-zero element). It returns a store in which
  the frame of the view holds and every element of the view is zero if its position is
  absent from the non-zero elements of the operand, and its old value times the value of
  the operand if it is present.
\<close>

theorem sparse_mult_assign:
  fixes h :: "'a::{zero,times} heap"
  assumes "valid_view cfg h sv"
      and "unat (dv_size (h (sv_vector sv))) \<le> length (dv_data (h (sv_vector sv)))"
      and "svec_size s = sv_size sv"
      and "wf_svec s"
  shows "op_mult_assign cfg h sv (Sparse s) = multAssign_sparse cfg h sv s \<and>
         (\<exists>h'. op_mult_assign cfg h sv (Sparse s) = Inr h' \<and> frame sv h h' \<and>
            view_elements h' sv =
              map (sparse_product (svec_elements s) (view_elements h sv))
                [0..<unat (sv_size sv)])"
  using multAssign_sparse_elements [where h = h and sv = sv and s = s and cfg = cfg,
      OF valid_view_nat(1) [OF assms(1)] assms(2,3,4)]
    op_mult_assign_sparse [OF assms(3), of cfg h]
  by simp

theorem sparse_mult_assign_witness:
  "view_elements example_heap example_view14 = [1, 2, 3, 4] \<and>
   (\<exists>h'. op_mult_assign example_config example_heap example_view14 (Sparse example_sparse)
            = Inr h' \<and>
          view_elements h' example_view14 = [0, 10, 0, 0])"
proof -
  have "valid_view example_config example_heap example_view14"
    "unat (dv_size (example_heap (sv_vector example_view14)))
       \<le> length (dv_data (example_heap (sv_vector example_view14)))"
    "svec_size example_sparse = sv_size example_view14" "wf_svec example_sparse"
    by (simp_all add: example_view14_def example_sparse_def example_heap_def
        example_parent_def example_config_def wf_svec_def valid_view_def DenseSubvector_def)
  from sparse_mult_assign [OF this] obtain h' where
    "op_mult_assign example_config example_heap example_view14 (Sparse example_sparse) = Inr h'"
    "view_elements h' example_view14 =
       map (sparse_product (svec_elements example_sparse)
              (view_elements example_heap example_view14))
         [0..<unat (sv_size example_view14)]"
    by blast
  moreover have "view_elements example_heap example_view14 = [1, 2, 3, 4]"
    by (simp add: view_elements_def example_view14_def example_heap_def example_parent_def)
  moreover have "map (sparse_product (svec_elements example_sparse) [1, 2, 3, 4])
         [0..<unat (sv_size example_view14)] = [0, 10, 0, 0]"
    by (simp add: example_view14_def example_sparse_def sparse_product_def upt_rec)
  ultimately show ?thesis by simp
qed

subsection \<open>Assignment under aliasing, and the two paths of assign\<close>

lemma wf_config_examples:
  "wf_config example_config \<and> wf_config scalar_config \<and> wf_config streaming_config"
proof -
  have "\<exists>k<62. (4 :: size_t) = 2 ^ k" by (intro exI [of _ 2]) simp
  moreover have "\<exists>k<62. (1 :: size_t) = 2 ^ k" by (intro exI [of _ 0]) simp
  ultimately show ?thesis
    by (simp add: wf_config_def example_config_def scalar_config_def streaming_config_def)
qed

text \<open>
  Two complete assignments of the same list to the same view, from the same store, end
  in the same store, unless the view is aligned and its last register is incomplete
  (the padding of the parent can differ then).
\<close>

lemma assign_inv_unique_store:
  fixes h h1 h2 :: "'a heap"
  assumes I1: "assign_inv sv True xs h (unat (sv_size sv)) h1"
      and I2: "assign_inv sv True xs h (unat (sv_size sv)) h2"
      and b2: "unat (dv_size (h (sv_vector sv))) \<le> length (dv_data (h (sv_vector sv)))"
      and na: "\<not> (sv_aligned sv \<and> sv_rest sv \<noteq> 0)"
  shows "h1 = h2"
proof (rule ext)
  fix a
  let ?p = "sv_vector sv"
  note f1 = assign_inv_frame [OF I1] and f2 = assign_inv_frame [OF I2]
  show "h1 a = h2 a"
  proof (cases "a = ?p")
    case False
    then have "h1 a = h a" "h2 a = h a" using f1 f2 by (simp_all add: frame_def)
    then show ?thesis by simp
  next
    case True
    have s1: "dv_size (h1 ?p) = dv_size (h ?p)"
      "length (dv_data (h1 ?p)) = length (dv_data (h ?p))"
      using frame_shape [OF f1] by simp_all
    have s2: "dv_size (h2 ?p) = dv_size (h ?p)"
      "length (dv_data (h2 ?p)) = length (dv_data (h ?p))"
      using frame_shape [OF f2] by simp_all
    have v: "visible (h1 ?p) = visible (h2 ?p)" using I1 I2 b2 by (rule assign_inv_unique)
    have "dv_data (h1 ?p) = dv_data (h2 ?p)"
    proof (rule nth_equalityI)
      show "length (dv_data (h1 ?p)) = length (dv_data (h2 ?p))" using s1 s2 by simp
    next
      fix j assume "j < length (dv_data (h1 ?p))"
      then have jl: "j < length (dv_data (h ?p))" using s1 by simp
      show "dv_data (h1 ?p) ! j = dv_data (h2 ?p) ! j"
      proof (cases "j < unat (dv_size (h ?p))")
        case True
        then have "visible (h1 ?p) ! j = dv_data (h1 ?p) ! j"
          "visible (h2 ?p) ! j = dv_data (h2 ?p) ! j"
          using s1 s2 by (simp_all add: visible_def)
        with v show ?thesis by simp
      next
        case False
        then have "unat (dv_size (h ?p)) \<le> j" by simp
        then have "dv_data (h1 ?p) ! j = dv_data (h ?p) ! j"
          "dv_data (h2 ?p) ! j = dv_data (h ?p) ! j"
          using f1 f2 na jl unfolding frame_def by blast+
        then show ?thesis by simp
      qed
    qed
    then have "h1 ?p = h2 ?p" using s1 s2 by (intro dvec.equality) simp_all
    with True show ?thesis by simp
  qed
qed

text \<open>
  C3. For a valid view of a parent with padded storage and a dense operand of the size
  of the view (a vector with padded storage or a valid view of one), \<^verbatim>\<open>operator=\<close>
  returns a store whose vectors have the elements that the reference implementation
  (copy the source first, then write the copy) produces, and the view holds the
  elements the operand had before the assignment. If \<^verbatim>\<open>canAlias\<close> is true, the
  operand is evaluated into a temporary that holds its elements and the temporary is
  assigned; if it is false, the kernel runs on the operand itself (and reads it in the
  store it writes). The copy assignment operator of two views gives the same elements.
  Unless the view is aligned with an incomplete last register, the stores are equal,
  padding included.
\<close>

theorem assignment_under_aliasing:
  fixes h :: "'a::zero heap"
  assumes "wf_config cfg" and "valid_view cfg h sv" and "wf_dvec cfg (h (sv_vector sv))"
      and "wf_dense cfg h d" and "size_dense h d = sv_size sv"
  shows "\<exists>h' hr. op_assign cfg h sv (Dense d) = Inr h' \<and> reference_assign h sv d = Inr hr \<and>
           (\<forall>a. visible (h' a) = visible (hr a)) \<and>
           (\<not> (sv_aligned sv \<and> sv_rest sv \<noteq> 0) \<longrightarrow> h' = hr) \<and>
           view_elements h' sv = dense_elements h d \<and>
           (canAlias_dense d (sv_vector sv) \<longrightarrow>
              (\<exists>tmp. evaluate cfg h (Dense d) = Inr (Dense (Temp tmp)) \<and>
                 visible tmp = dense_elements h d \<and>
                 op_assign cfg h sv (Dense d) = assign cfg h sv (Dense (Temp tmp)))) \<and>
           (\<not> canAlias_dense d (sv_vector sv) \<longrightarrow>
              op_assign cfg h sv (Dense d) = assign cfg h sv (Dense d)) \<and>
           (\<forall>rhs. d = Subvec rhs \<longrightarrow>
              (\<exists>hc. copy_assign cfg h sv rhs = Inr hc \<and>
                 (\<forall>a. visible (hc a) = visible (hr a)) \<and>
                 (\<not> (sv_aligned sv \<and> sv_rest sv \<noteq> 0) \<longrightarrow> hc = hr) \<and>
                 view_elements hc sv = view_elements h rhs))"
proof -
  note b1 = valid_view_nat(1) [OF assms(2)]
  have b2: "unat (dv_size (h (sv_vector sv))) \<le> length (dv_data (h (sv_vector sv)))"
    using assms(3) by (simp add: wf_dvec_def)
  have len: "length (dense_elements h d) = unat (sv_size sv)"
    using length_dense_elements [OF assms(4)] assms(5) by simp
  from op_assign_dense_inv(1) [OF assms] obtain h' where
    h': "op_assign cfg h sv (Dense d) = Inr h'"
        "assign_inv sv True (dense_elements h d) h (unat (sv_size sv)) h'" by blast
  from reference_assign_inv [OF assms(2) b2 assms(4,5)] obtain hr where
    hr: "reference_assign h sv d = Inr hr"
        "assign_inv sv True (dense_elements h d) h (unat (sv_size sv)) hr" by blast
  have v1: "\<forall>a. visible (h' a) = visible (hr a)"
    using assign_inv_unique [OF h'(2) hr(2) b2] by simp
  have q1: "\<not> (sv_aligned sv \<and> sv_rest sv \<noteq> 0) \<longrightarrow> h' = hr"
    using assign_inv_unique_store [OF h'(2) hr(2) b2] by blast
  have e1: "view_elements h' sv = dense_elements h d"
    using h'(2) len b1 b2 by (rule assign_inv_complete(1))
  have cp: "\<exists>hc. copy_assign cfg h sv rhs = Inr hc \<and>
                 (\<forall>a. visible (hc a) = visible (hr a)) \<and>
                 (\<not> (sv_aligned sv \<and> sv_rest sv \<noteq> 0) \<longrightarrow> hc = hr) \<and>
                 view_elements hc sv = view_elements h rhs" if d: "d = Subvec rhs" for rhs
  proof -
    have wfd: "wf_dense cfg h (Subvec rhs)" and sz: "sv_size rhs = sv_size sv"
      using assms(4,5) d by (simp_all add: size_sv_def)
    from copy_assign_inv [OF assms(1,2,3) wfd sz] obtain hc where
      hc: "copy_assign cfg h sv rhs = Inr hc"
          "assign_inv sv True (view_elements h rhs) h (unat (sv_size sv)) hc" by blast
    have r: "assign_inv sv True (view_elements h rhs) h (unat (sv_size sv)) hr"
      using hr(2) d by simp
    have "\<forall>a. visible (hc a) = visible (hr a)"
      using assign_inv_unique [OF hc(2) r b2] by simp
    moreover have "\<not> (sv_aligned sv \<and> sv_rest sv \<noteq> 0) \<longrightarrow> hc = hr"
      using assign_inv_unique_store [OF hc(2) r b2] by blast
    moreover have "view_elements hc sv = view_elements h rhs"
      using hc(2) _ b1 b2 by (rule assign_inv_complete(1)) (use len d in simp)
    ultimately show ?thesis using hc(1) by blast
  qed
  have al: "canAlias_dense d (sv_vector sv) \<longrightarrow>
      (\<exists>tmp. evaluate cfg h (Dense d) = Inr (Dense (Temp tmp)) \<and>
         visible tmp = dense_elements h d \<and>
         op_assign cfg h sv (Dense d) = assign cfg h sv (Dense (Temp tmp)))"
    using op_assign_dense_inv(2) [OF assms] by blast
  have nal: "\<not> canAlias_dense d (sv_vector sv) \<longrightarrow>
      op_assign cfg h sv (Dense d) = assign cfg h sv (Dense d)"
    using op_assign_dense_inv(3) [OF assms] by blast
  have cpa: "\<forall>rhs. d = Subvec rhs \<longrightarrow>
      (\<exists>hc. copy_assign cfg h sv rhs = Inr hc \<and>
         (\<forall>a. visible (hc a) = visible (hr a)) \<and>
         (\<not> (sv_aligned sv \<and> sv_rest sv \<noteq> 0) \<longrightarrow> hc = hr) \<and>
         view_elements hc sv = view_elements h rhs)"
    using cp by blast
  from h'(1) hr(1) v1 q1 e1 al nal cpa show ?thesis by blast
qed

theorem assignment_under_aliasing_witness:
  "canAlias_dense (Subvec example_view05 :: int dense_operand) (sv_vector example_view25) \<and>
   (\<exists>h'. op_assign example_config example_heap example_view25
             (Dense (Subvec example_view05)) = Inr h' \<and>
          visible (h' 0) = [0, 1, 0, 1, 2, 3, 4, 7, 8, 9]) \<and>
   (\<exists>hc. copy_assign example_config example_heap example_view25 example_view05 = Inr hc \<and>
          visible (hc 0) = [0, 1, 0, 1, 2, 3, 4, 7, 8, 9]) \<and>
   (\<exists>h'. op_assign example_config example_heap example_view35
             (Dense (Subvec example_view55)) = Inr h' \<and>
          visible (h' 0) = [0, 1, 2, 5, 6, 7, 8, 9, 8, 9]) \<and>
   (\<exists>hc. copy_assign example_config example_heap example_view35 example_view55 = Inr hc \<and>
          visible (hc 0) = [0, 1, 2, 5, 6, 7, 8, 9, 8, 9])"
proof -
  have c: "wf_config example_config" using wf_config_examples by simp
  have "valid_view example_config example_heap example_view25"
    "wf_dvec example_config (example_heap (sv_vector example_view25))"
    "wf_dense example_config example_heap (Subvec example_view05)"
    "size_dense example_heap (Subvec example_view05) = sv_size example_view25"
    by (simp_all add: example_view05_def example_view25_def
        example_heap_def example_parent_def example_config_def valid_view_def
        DenseSubvector_def wf_dvec_def size_sv_def dvd_eq_mod_eq_0 mod_Suc)
  from assignment_under_aliasing [OF c this] obtain h' hc hr where 1:
    "op_assign example_config example_heap example_view25 (Dense (Subvec example_view05))
       = Inr h'"
    "reference_assign example_heap example_view25 (Subvec example_view05) = Inr hr"
    "visible (h' 0) = visible (hr 0)"
    "copy_assign example_config example_heap example_view25 example_view05 = Inr hc"
    "visible (hc 0) = visible (hr 0)"
    by blast
  have "visible_after (reference_assign example_heap example_view25 (Subvec example_view05)) 0
      = [0, 1, 0, 1, 2, 3, 4, 7, 8, 9]"
    by code_simp
  with 1 have r1: "visible (hr 0) = [0, 1, 0, 1, 2, 3, 4, 7, 8, 9]"
    by (simp add: visible_after_def)
  have "valid_view example_config example_heap example_view35"
    "wf_dvec example_config (example_heap (sv_vector example_view35))"
    "wf_dense example_config example_heap (Subvec example_view55)"
    "size_dense example_heap (Subvec example_view55) = sv_size example_view35"
    by (simp_all add: example_view35_def example_view55_def
        example_heap_def example_parent_def example_config_def valid_view_def
        DenseSubvector_def wf_dvec_def size_sv_def dvd_eq_mod_eq_0 mod_Suc)
  from assignment_under_aliasing [OF c this] obtain g' gc gr where 2:
    "op_assign example_config example_heap example_view35 (Dense (Subvec example_view55))
       = Inr g'"
    "reference_assign example_heap example_view35 (Subvec example_view55) = Inr gr"
    "visible (g' 0) = visible (gr 0)"
    "copy_assign example_config example_heap example_view35 example_view55 = Inr gc"
    "visible (gc 0) = visible (gr 0)"
    by blast
  have "visible_after (reference_assign example_heap example_view35 (Subvec example_view55)) 0
      = [0, 1, 2, 5, 6, 7, 8, 9, 8, 9]"
    by code_simp
  with 2 have r2: "visible (gr 0) = [0, 1, 2, 5, 6, 7, 8, 9, 8, 9]"
    by (simp add: visible_after_def)
  have "canAlias_dense (Subvec example_view05 :: int dense_operand)
      (sv_vector example_view25)"
    by (simp add: canAlias_sv_def example_view25_def example_view05_def)
  with 1 2 r1 r2 show ?thesis by simp
qed

text \<open>
  The claim C4 as stated has the two paths of \<^verbatim>\<open>assign\<close> end in the same state of
  the parent. For the view of the elements 4..9 of the parent, which is aligned and has
  an incomplete last register, and the view of the elements 0..5 of the vector of
  seven elements as the operand, the default kernel leaves the padding of the parent
  as it is, and the intrinsic kernel stores the whole last register: the element 6 of
  the vector goes into the padding.
\<close>

theorem assign_kernels_differ_in_padding:
  "\<not> canAlias_dense (Subvec example_source06 :: int dense_operand) (sv_vector example_view46) \<and>
   size_dense example_heap2 (Subvec example_source06) = sv_size example_view46 \<and>
   storage_after (assign_default example_heap2 example_view46 (Subvec example_source06)) 0
     = [0, 1, 2, 3, 10, 20, 30, 40, 50, 60, 0, 0] \<and>
   storage_after (assign_vectorized example_config example_heap2 example_view46
       (Subvec example_source06)) 0
     = [0, 1, 2, 3, 10, 20, 30, 40, 50, 60, 70, 0] \<and>
   assign_default example_heap2 example_view46 (Subvec example_source06)
     \<noteq> assign_vectorized example_config example_heap2 example_view46 (Subvec example_source06)"
proof -
  have a: "storage_after (assign_default example_heap2 example_view46
      (Subvec example_source06)) 0 = [0, 1, 2, 3, 10, 20, 30, 40, 50, 60, 0, 0]"
    by code_simp
  have b: "storage_after (assign_vectorized example_config example_heap2 example_view46
      (Subvec example_source06)) 0 = [0, 1, 2, 3, 10, 20, 30, 40, 50, 60, 70, 0]"
    by code_simp
  have "assign_default example_heap2 example_view46 (Subvec example_source06)
     \<noteq> assign_vectorized example_config example_heap2 example_view46 (Subvec example_source06)"
  proof
    assume "assign_default example_heap2 example_view46 (Subvec example_source06)
      = assign_vectorized example_config example_heap2 example_view46 (Subvec example_source06)"
    with a b show False by simp
  qed
  moreover have "\<not> canAlias_dense (Subvec example_source06 :: int dense_operand)
      (sv_vector example_view46)"
    "size_dense example_heap2 (Subvec example_source06) = sv_size example_view46"
    by (simp_all add: canAlias_sv_def example_source06_def example_view46_def size_sv_def)
  ultimately show ?thesis using a b by simp
qed

text \<open>
  C4, as the code has it. For a valid view of a parent with padded storage and a dense
  operand of the size of the view that is not aliased (a vector with padded storage or
  a valid view of one), the default kernel and the intrinsic kernel of \<^verbatim>\<open>assign\<close>
  (whichever of its branches the parameters select) both return a store; reading the
  view back gives the elements of the operand in both; the two stores have the same
  elements below \<^verbatim>\<open>size()\<close> in every vector, and they are equal, padding included,
  unless the view is aligned and its last register is incomplete.
\<close>

theorem assign_kernels_equivalent:
  fixes h :: "'a::zero heap"
  assumes "wf_config cfg" and "valid_view cfg h sv" and "wf_dvec cfg (h (sv_vector sv))"
      and "wf_dense cfg h d" and "size_dense h d = sv_size sv"
      and "\<not> canAlias_dense d (sv_vector sv)"
  shows "\<exists>h1 h2. assign_default h sv d = Inr h1 \<and> assign_vectorized cfg h sv d = Inr h2 \<and>
           (\<forall>a. visible (h1 a) = visible (h2 a)) \<and>
           (\<not> (sv_aligned sv \<and> sv_rest sv \<noteq> 0) \<longrightarrow> h1 = h2) \<and>
           frame sv h h1 \<and> frame sv h h2 \<and>
           view_elements h1 sv = dense_elements h d \<and>
           view_elements h2 sv = dense_elements h d \<and>
           (\<forall>i < unat (sv_size sv).
              at_dense h d (word_of_nat i) = Inr (dense_elements h d ! i) \<and>
              subscript h1 sv (word_of_nat i) = Inr (dense_elements h d ! i) \<and>
              subscript h2 sv (word_of_nat i) = Inr (dense_elements h d ! i))"
proof -
  note b1 = valid_view_nat(1) [OF assms(2)]
  have b2: "unat (dv_size (h (sv_vector sv))) \<le> length (dv_data (h (sv_vector sv)))"
    using assms(3) by (simp add: wf_dvec_def)
  have len: "length (dense_elements h d) = unat (sv_size sv)"
    using length_dense_elements [OF assms(4)] assms(5) by simp
  from assign_default_inv [OF assms(2) b2 assms(4,5)] assms(6) obtain h1 where
    h1: "assign_default h sv d = Inr h1"
        "assign_inv sv True (dense_elements h d) h (unat (sv_size sv)) h1" by auto
  from assign_vectorized_inv [OF assms(1-5)] assms(6) obtain h2 where
    h2: "assign_vectorized cfg h sv d = Inr h2"
        "assign_inv sv True (dense_elements h d) h (unat (sv_size sv)) h2" by auto
  have "\<forall>a. visible (h1 a) = visible (h2 a)"
    using assign_inv_unique [OF h1(2) h2(2) b2] by simp
  moreover have "\<not> (sv_aligned sv \<and> sv_rest sv \<noteq> 0) \<longrightarrow> h1 = h2"
    using assign_inv_unique_store [OF h1(2) h2(2) b2] by blast
  moreover note assign_inv_frame [OF h1(2)] assign_inv_frame [OF h2(2)]
    assign_inv_complete [OF h1(2) len b1 b2] assign_inv_complete [OF h2(2) len b1 b2]
  moreover have "\<forall>i < unat (sv_size sv).
      at_dense h d (word_of_nat i) = Inr (dense_elements h d ! i)"
    using at_dense_read [OF assms(4)] assms(5) by simp
  ultimately show ?thesis using h1(1) h2(1) by blast
qed

theorem assign_kernels_equivalent_witness:
  "(\<exists>h1. assign_default example_heap2 example_view37 (DynamicVec 1) = Inr h1 \<and>
      assign_vectorized example_config example_heap2 example_view37 (DynamicVec 1) = Inr h1 \<and>
      view_elements h1 example_view37 = [10, 20, 30, 40, 50, 60, 70]) \<and>
   (\<exists>h1 h2. assign_default example_heap example_view46
        (Temp \<lparr> dv_size = 6, dv_data = [1, 2, 3, 4, 5, 6, 0, 0] \<rparr>) = Inr h1 \<and>
      assign_vectorized streaming_config example_heap example_view46
        (Temp \<lparr> dv_size = 6, dv_data = [1, 2, 3, 4, 5, 6, 0, 0] \<rparr>) = Inr h2 \<and>
      visible (h1 0) = visible (h2 0) \<and>
      view_elements h2 example_view46 = [1, 2, 3, 4, 5, 6]) \<and>
   (\<exists>h1 h2. assign_default example_heap2 example_view46 (Subvec example_source16) = Inr h1 \<and>
      assign_vectorized example_config example_heap2 example_view46 (Subvec example_source16)
        = Inr h2 \<and>
      visible (h1 0) = visible (h2 0) \<and>
      view_elements h1 example_view46 = [20, 30, 40, 50, 60, 70] \<and>
      view_elements h2 example_view46 = [20, 30, 40, 50, 60, 70])"
proof -
  have c: "wf_config example_config" "wf_config streaming_config"
    using wf_config_examples by simp_all
  have "valid_view example_config example_heap2 example_view37"
    "wf_dvec example_config (example_heap2 (sv_vector example_view37))"
    "wf_dense example_config example_heap2 (DynamicVec 1)"
    "size_dense example_heap2 (DynamicVec 1) = sv_size example_view37"
    "\<not> canAlias_dense (DynamicVec 1 :: int dense_operand) (sv_vector example_view37)"
    by (simp_all add: example_view37_def example_heap2_def
        example_source_def example_heap_def example_parent_def example_config_def
        valid_view_def DenseSubvector_def wf_dvec_def dvd_eq_mod_eq_0 mod_Suc)
  from assign_kernels_equivalent [OF c(1) this] obtain h1 h2 where
    "assign_default example_heap2 example_view37 (DynamicVec 1) = Inr h1"
    "assign_vectorized example_config example_heap2 example_view37 (DynamicVec 1) = Inr h2"
    "\<not> (sv_aligned example_view37 \<and> sv_rest example_view37 \<noteq> 0) \<longrightarrow> h1 = h2"
    "view_elements h1 example_view37 = dense_elements example_heap2 (DynamicVec 1)"
    by blast
  moreover have "dense_elements example_heap2 (DynamicVec 1) = [10, 20, 30, 40, 50, 60, 70]"
    by (simp add: visible_def example_heap2_def example_source_def)
  moreover have "\<not> sv_aligned example_view37" by (simp add: example_view37_def)
  ultimately have A: "\<exists>h1.
      assign_default example_heap2 example_view37 (DynamicVec 1) = Inr h1 \<and>
      assign_vectorized example_config example_heap2 example_view37 (DynamicVec 1) = Inr h1 \<and>
      view_elements h1 example_view37 = [10, 20, 30, 40, 50, 60, 70]"
    by auto
  let ?t = "Temp \<lparr> dv_size = 6, dv_data = [1, 2, 3, 4, 5, 6, 0, 0 :: int] \<rparr>"
  have "valid_view streaming_config example_heap example_view46"
    "wf_dvec streaming_config (example_heap (sv_vector example_view46))"
    "wf_dense streaming_config example_heap ?t"
    "size_dense example_heap ?t = sv_size example_view46"
    "\<not> canAlias_dense ?t (sv_vector example_view46)"
    by (simp_all add: example_view46_def streaming_config_def
        example_heap_def example_parent_def example_config_def
        valid_view_def DenseSubvector_def wf_dvec_def dvd_eq_mod_eq_0 mod_Suc)
  from assign_kernels_equivalent [OF c(2) this] obtain h1 h2 where
    "assign_default example_heap example_view46 ?t = Inr h1"
    "assign_vectorized streaming_config example_heap example_view46 ?t = Inr h2"
    "visible (h1 0) = visible (h2 0)"
    "view_elements h2 example_view46 = dense_elements example_heap ?t"
    by blast
  moreover have "dense_elements example_heap ?t = [1, 2, 3, 4, 5, 6]"
    by (simp add: visible_def)
  ultimately have B: "\<exists>h1 h2. assign_default example_heap example_view46 ?t = Inr h1 \<and>
      assign_vectorized streaming_config example_heap example_view46 ?t = Inr h2 \<and>
      visible (h1 0) = visible (h2 0) \<and>
      view_elements h2 example_view46 = [1, 2, 3, 4, 5, 6]"
    by auto
  let ?s = "Subvec example_source16 :: int dense_operand"
  have "valid_view example_config example_heap2 example_view46"
    "wf_dvec example_config (example_heap2 (sv_vector example_view46))"
    "wf_dense example_config example_heap2 ?s"
    "size_dense example_heap2 ?s = sv_size example_view46"
    "\<not> canAlias_dense ?s (sv_vector example_view46)"
    by (simp_all add: example_view46_def example_source16_def example_heap2_def
        example_source_def example_heap_def example_parent_def example_config_def
        valid_view_def DenseSubvector_def wf_dvec_def size_sv_def canAlias_sv_def
        dvd_eq_mod_eq_0 mod_Suc)
  from assign_kernels_equivalent [OF c(1) this] obtain h1 h2 where
    "assign_default example_heap2 example_view46 ?s = Inr h1"
    "assign_vectorized example_config example_heap2 example_view46 ?s = Inr h2"
    "visible (h1 0) = visible (h2 0)"
    "view_elements h1 example_view46 = dense_elements example_heap2 ?s"
    "view_elements h2 example_view46 = dense_elements example_heap2 ?s"
    by blast
  moreover have "dense_elements example_heap2 ?s = [20, 30, 40, 50, 60, 70]"
    by (simp add: view_elements_def example_source16_def example_heap2_def example_source_def)
  ultimately have C: "\<exists>h1 h2.
      assign_default example_heap2 example_view46 ?s = Inr h1 \<and>
      assign_vectorized example_config example_heap2 example_view46 ?s = Inr h2 \<and>
      visible (h1 0) = visible (h2 0) \<and>
      view_elements h1 example_view46 = [20, 30, 40, 50, 60, 70] \<and>
      view_elements h2 example_view46 = [20, 30, 40, 50, 60, 70]"
    by auto
  from A B C show ?thesis by simp
qed

subsection \<open>The frame of the mutating operations\<close>

lemma kernel_frame:
  fixes h :: "'a::{zero,plus,minus,times} heap"
  assumes wfc: "wf_config cfg" and vv: "valid_view cfg h sv"
      and wfp: "wf_dvec cfg (h (sv_vector sv))"
      and wfo: "wf_operand cfg h rhs" and sz: "size_op h rhs = sv_size sv"
  shows "\<exists>h'. assign cfg h sv rhs = Inr h' \<and> frame sv h h'"
    and "\<exists>h'. addAssign cfg h sv rhs = Inr h' \<and> frame sv h h'"
    and "\<exists>h'. subAssign cfg h sv rhs = Inr h' \<and> frame sv h h'"
    and "\<exists>h'. multAssign cfg h sv rhs = Inr h' \<and> frame sv h h'"
proof -
  note b1 = valid_view_nat(1) [OF vv]
  have b2: "unat (dv_size (h (sv_vector sv))) \<le> length (dv_data (h (sv_vector sv)))"
    using wfp by (simp add: wf_dvec_def)
  show "\<exists>h'. assign cfg h sv rhs = Inr h' \<and> frame sv h h'"
  proof (cases rhs)
    case (Dense d)
    with wfo sz have "wf_dense cfg h d" "size_dense h d = sv_size sv" by simp_all
    from assign_dense_inv [OF wfc vv wfp this] show ?thesis
      using Dense assign_inv_frame by blast
  next
    case (Sparse s)
    with wfo sz have "svec_size s = sv_size sv" "wf_svec s" by simp_all
    from assign_sparse_frame [where sv = sv and h = h, OF b1 b2 frame_refl this] show ?thesis using Sparse by simp
  qed
  show "\<exists>h'. addAssign cfg h sv rhs = Inr h' \<and> frame sv h h'"
  proof (cases rhs)
    case (Dense d)
    with wfo sz have d: "wf_dense cfg h d" "size_dense h d = sv_size sv" by simp_all
    from compound_vectorized_frame [OF wfc vv wfp d] compound_default_frame [OF vv b2 d]
    show ?thesis using Dense by (simp add: addAssign_vectorized_def addAssign_default_def)
  next
    case (Sparse s)
    with wfo sz have "svec_size s = sv_size sv" "wf_svec s" by simp_all
    from compound_sparse_frame [where sv = sv and h = h, OF b1 b2 this] show ?thesis
      using Sparse by (simp add: addAssign_sparse_def)
  qed
  show "\<exists>h'. subAssign cfg h sv rhs = Inr h' \<and> frame sv h h'"
  proof (cases rhs)
    case (Dense d)
    with wfo sz have d: "wf_dense cfg h d" "size_dense h d = sv_size sv" by simp_all
    from compound_vectorized_frame [OF wfc vv wfp d] compound_default_frame [OF vv b2 d]
    show ?thesis using Dense by (simp add: subAssign_vectorized_def subAssign_default_def)
  next
    case (Sparse s)
    with wfo sz have "svec_size s = sv_size sv" "wf_svec s" by simp_all
    from compound_sparse_frame [where sv = sv and h = h, OF b1 b2 this] show ?thesis
      using Sparse by (simp add: subAssign_sparse_def)
  qed
  show "\<exists>h'. multAssign cfg h sv rhs = Inr h' \<and> frame sv h h'"
  proof (cases rhs)
    case (Dense d)
    with wfo sz have d: "wf_dense cfg h d" "size_dense h d = sv_size sv" by simp_all
    from compound_vectorized_frame [OF wfc vv wfp d] compound_default_frame [OF vv b2 d]
    show ?thesis using Dense by (simp add: multAssign_vectorized_def multAssign_default_def)
  next
    case (Sparse s)
    with wfo sz have "svec_size s = sv_size sv" "wf_svec s" by simp_all
    from multAssign_sparse_elements [where sv = sv and h = h and cfg = cfg, OF b1 b2 this] show ?thesis
      using Sparse by auto
  qed
qed

lemma evaluate_operand:
  fixes h :: "'a::zero heap"
  assumes wfc: "wf_config cfg" and wfo: "wf_operand cfg h rhs"
  shows "\<exists>t. evaluate cfg h rhs = Inr t \<and> wf_operand cfg h t \<and> size_op h t = size_op h rhs"
proof (cases rhs)
  case (Dense d)
  with wfo have "wf_dense cfg h d" by simp
  from evaluate_dense_read [OF this wf_config_pos [OF wfc]] show ?thesis
    using Dense by auto
next
  case (Sparse s)
  with wfo show ?thesis by simp
qed

lemma operator_frame:
  fixes h :: "'a::{zero,plus,minus,times} heap"
  assumes wfc: "wf_config cfg" and vv: "valid_view cfg h sv"
      and wfp: "wf_dvec cfg (h (sv_vector sv))"
      and wfo: "wf_operand cfg h rhs" and sz: "size_op h rhs = sv_size sv"
  shows "\<exists>h'. op_assign cfg h sv rhs = Inr h' \<and> frame sv h h'"
    and "\<exists>h'. op_add_assign cfg h sv rhs = Inr h' \<and> frame sv h h'"
    and "\<exists>h'. op_sub_assign cfg h sv rhs = Inr h' \<and> frame sv h h'"
    and "\<exists>h'. op_mult_assign cfg h sv rhs = Inr h' \<and> frame sv h h'"
proof -
  note b1 = valid_view_nat(1) [OF vv]
  have b2: "unat (dv_size (h (sv_vector sv))) \<le> length (dv_data (h (sv_vector sv)))"
    using wfp by (simp add: wf_dvec_def)
  from evaluate_operand [OF wfc wfo] sz obtain t where
    t: "evaluate cfg h rhs = Inr t" "wf_operand cfg h t" "size_op h t = sv_size sv" by auto
  note kt = kernel_frame [OF wfc vv wfp t(2,3)]
  note kr = kernel_frame [OF wfc vv wfp wfo sz]
  show "\<exists>h'. op_assign cfg h sv rhs = Inr h' \<and> frame sv h h'"
  proof (cases rhs)
    case (Dense d)
    with wfo sz have "wf_dense cfg h d" "size_dense h d = sv_size sv" by simp_all
    from op_assign_dense_inv(1) [OF wfc vv wfp this] show ?thesis
      using Dense assign_inv_frame by blast
  next
    case (Sparse s)
    with wfo sz have s: "svec_size s = sv_size sv" "wf_svec s" by simp_all
    from fill_inv [where sv = sv and h = h and x = 0, OF b1 b2] obtain h0 where
      h0: "reset h sv = Inr h0" "frame sv h h0"
      by (auto simp: reset_fill assign_inv_def)
    from assign_sparse_frame [where sv = sv and h = h, OF b1 b2 h0(2) s] show ?thesis
      using Sparse s h0(1) by (simp add: op_assign_def size_sv_def)
  qed
  show "\<exists>h'. op_add_assign cfg h sv rhs = Inr h' \<and> frame sv h h'"
    using kt(2) kr(2) t(1) sz by (simp add: op_add_assign_def size_sv_def)
  show "\<exists>h'. op_sub_assign cfg h sv rhs = Inr h' \<and> frame sv h h'"
    using kt(3) kr(3) t(1) sz by (simp add: op_sub_assign_def size_sv_def)
  show "\<exists>h'. op_mult_assign cfg h sv rhs = Inr h' \<and> frame sv h h'"
    using kt(4) kr(4) t(1) sz by (simp add: op_mult_assign_def size_sv_def)
qed

lemma dense_kernel_frame:
  fixes h :: "'a::{zero,plus,minus,times} heap"
  assumes wfc: "wf_config cfg" and vv: "valid_view cfg h sv"
      and wfp: "wf_dvec cfg (h (sv_vector sv))"
      and wfd: "wf_dense cfg h d" and sz: "size_dense h d = sv_size sv"
  shows "\<exists>h'. assign_default h sv d = Inr h' \<and> frame sv h h'"
    and "\<exists>h'. addAssign_default h sv d = Inr h' \<and> frame sv h h'"
    and "\<exists>h'. subAssign_default h sv d = Inr h' \<and> frame sv h h'"
    and "\<exists>h'. multAssign_default h sv d = Inr h' \<and> frame sv h h'"
    and "\<exists>h'. assign_vectorized cfg h sv d = Inr h' \<and> frame sv h h'"
    and "\<exists>h'. addAssign_vectorized cfg h sv d = Inr h' \<and> frame sv h h'"
    and "\<exists>h'. subAssign_vectorized cfg h sv d = Inr h' \<and> frame sv h h'"
    and "\<exists>h'. multAssign_vectorized cfg h sv d = Inr h' \<and> frame sv h h'"
proof -
  have b2: "unat (dv_size (h (sv_vector sv))) \<le> length (dv_data (h (sv_vector sv)))"
    using wfp by (simp add: wf_dvec_def)
  show "\<exists>h'. assign_default h sv d = Inr h' \<and> frame sv h h'"
    using assign_default_inv [OF vv b2 wfd sz] assign_inv_frame by blast
  show "\<exists>h'. assign_vectorized cfg h sv d = Inr h' \<and> frame sv h h'"
    using assign_vectorized_inv [OF wfc vv wfp wfd sz] assign_inv_frame by blast
  show "\<exists>h'. addAssign_default h sv d = Inr h' \<and> frame sv h h'"
    "\<exists>h'. subAssign_default h sv d = Inr h' \<and> frame sv h h'"
    "\<exists>h'. multAssign_default h sv d = Inr h' \<and> frame sv h h'"
    using compound_default_frame [OF vv b2 wfd sz]
    by (simp_all add: addAssign_default_def subAssign_default_def multAssign_default_def)
  show "\<exists>h'. addAssign_vectorized cfg h sv d = Inr h' \<and> frame sv h h'"
    "\<exists>h'. subAssign_vectorized cfg h sv d = Inr h' \<and> frame sv h h'"
    "\<exists>h'. multAssign_vectorized cfg h sv d = Inr h' \<and> frame sv h h'"
    using compound_vectorized_frame [OF wfc vv wfp wfd sz]
    by (simp_all add: addAssign_vectorized_def subAssign_vectorized_def
        multAssign_vectorized_def)
qed

lemma sparse_kernel_frame:
  fixes h :: "'a::{zero,plus,minus,times} heap"
  assumes vv: "valid_view cfg h sv"
      and wfp: "wf_dvec cfg (h (sv_vector sv))"
      and wf: "wf_svec s" and sz: "svec_size s = sv_size sv"
  shows "\<exists>h'. assign_sparse h sv s = Inr h' \<and> frame sv h h'"
    and "\<exists>h'. addAssign_sparse h sv s = Inr h' \<and> frame sv h h'"
    and "\<exists>h'. subAssign_sparse h sv s = Inr h' \<and> frame sv h h'"
    and "\<exists>h'. multAssign_sparse cfg h sv s = Inr h' \<and> frame sv h h'"
proof -
  note b1 = valid_view_nat(1) [OF vv]
  have b2: "unat (dv_size (h (sv_vector sv))) \<le> length (dv_data (h (sv_vector sv)))"
    using wfp by (simp add: wf_dvec_def)
  show "\<exists>h'. assign_sparse h sv s = Inr h' \<and> frame sv h h'"
    using assign_sparse_frame [where sv = sv and h = h, OF b1 b2 frame_refl sz wf] .
  show "\<exists>h'. addAssign_sparse h sv s = Inr h' \<and> frame sv h h'"
    "\<exists>h'. subAssign_sparse h sv s = Inr h' \<and> frame sv h h'"
    using compound_sparse_frame [where sv = sv and h = h, OF b1 b2 sz wf]
    by (simp_all add: addAssign_sparse_def subAssign_sparse_def)
  show "\<exists>h'. multAssign_sparse cfg h sv s = Inr h' \<and> frame sv h h'"
    using multAssign_sparse_elements [where sv = sv and h = h and cfg = cfg, OF b1 b2 sz wf] by blast
qed

lemma storeu_frame:
  fixes h :: "'a heap"
  assumes wfc: "wf_config cfg" and vv: "valid_view cfg h sv"
      and wfp: "wf_dvec cfg (h (sv_vector sv))"
      and c: "c < unat (sv_size sv)" and dv: "unat (IT_size cfg) dvd c"
      and len: "length reg = unat (IT_size cfg)"
  shows "\<exists>h'. subvector_storeu cfg h sv (word_of_nat c) reg = Inr h' \<and> frame sv h h'"
proof -
  have I: "assign_inv sv False [] h c h" by (simp add: assign_inv_def frame_refl)
  from subvector_storeu_step [OF wfc vv wfp I c dv len] show ?thesis
    using assign_inv_frame by blast
qed

lemma aligned_tail_flush:
  assumes wfc: "wf_config cfg" and vv: "valid_view cfg h sv"
      and al: "sv_aligned sv" and r: "sv_rest sv \<noteq> 0"
  shows "unat (sv_offset sv) + unat (sv_size sv) = unat (dv_size (h (sv_vector sv)))"
proof -
  from r have "unat (sv_rest sv) \<noteq> 0" by (simp add: unat_eq_0)
  with valid_view_nat(2) [OF vv] have "unat (sv_size sv) mod unat (IT_size cfg) \<noteq> 0" by simp
  with valid_view_nat(4) [OF vv] al show ?thesis by simp
qed

lemma within_view_iff: "within_view sv h r \<longleftrightarrow> (\<exists>h'. r = Inr h' \<and> frame sv h h')"
  by (simp add: within_view_def)

text \<open>
  C10. For a valid view of a parent with padded storage, every mutating operation
  returns a store in which every vector but the parent is unchanged, the parent has
  kept its size and capacity, and every element of the parent below \<^verbatim>\<open>size()\<close> whose
  index is outside of \<open>[offset, offset + size)\<close> has kept its value (and so has the
  padding of the parent, unless the view is aligned with an incomplete last register):
  the homogeneous
  assignment, \<^verbatim>\<open>reset\<close>, \<^verbatim>\<open>scale\<close>, the copy assignment, the operators
  \<^verbatim>\<open>=\<close>, \<^verbatim>\<open>+=\<close>, \<^verbatim>\<open>-=\<close>, \<^verbatim>\<open>*=\<close> and the kernels \<^verbatim>\<open>assign\<close>,
  \<^verbatim>\<open>addAssign\<close>, \<^verbatim>\<open>subAssign\<close>, \<^verbatim>\<open>multAssign\<close> (default, intrinsic and
  sparse) for an operand of the size of the view (a vector with padded storage, a valid
  view of one, aliased or not, or a sparse vector whose indices are below its size),
  and \<^verbatim>\<open>storeu\<close> of one register at any register index of the view. A view that
  is aligned and has an incomplete last register ends at the end of its parent. (The
  operators \<^verbatim>\<open>*=\<close> and \<^verbatim>\<open>/=\<close> with a scalar call \<^verbatim>\<open>operator=\<close> with a
  scalar expression, whose class is not part of this header.)
\<close>

theorem mutating_operations_frame:
  fixes h :: "'a::{zero,plus,minus,times} heap"
  assumes "wf_config cfg" and "valid_view cfg h sv" and "wf_dvec cfg (h (sv_vector sv))"
  shows "within_view sv h (fill h sv x) \<and>
         within_view sv h (reset h sv) \<and>
         within_view sv h (scale h sv x) \<and>
         (wf_dense cfg h (Subvec v) \<and> sv_size v = sv_size sv \<longrightarrow>
            within_view sv h (copy_assign cfg h sv v)) \<and>
         (wf_operand cfg h rhs \<and> size_op h rhs = sv_size sv \<longrightarrow>
            within_view sv h (op_assign cfg h sv rhs) \<and>
            within_view sv h (op_add_assign cfg h sv rhs) \<and>
            within_view sv h (op_sub_assign cfg h sv rhs) \<and>
            within_view sv h (op_mult_assign cfg h sv rhs) \<and>
            within_view sv h (assign cfg h sv rhs) \<and>
            within_view sv h (addAssign cfg h sv rhs) \<and>
            within_view sv h (subAssign cfg h sv rhs) \<and>
            within_view sv h (multAssign cfg h sv rhs)) \<and>
         (wf_dense cfg h d \<and> size_dense h d = sv_size sv \<longrightarrow>
            within_view sv h (assign_default h sv d) \<and>
            within_view sv h (addAssign_default h sv d) \<and>
            within_view sv h (subAssign_default h sv d) \<and>
            within_view sv h (multAssign_default h sv d) \<and>
            within_view sv h (assign_vectorized cfg h sv d) \<and>
            within_view sv h (addAssign_vectorized cfg h sv d) \<and>
            within_view sv h (subAssign_vectorized cfg h sv d) \<and>
            within_view sv h (multAssign_vectorized cfg h sv d)) \<and>
         (wf_svec s \<and> svec_size s = sv_size sv \<longrightarrow>
            within_view sv h (assign_sparse h sv s) \<and>
            within_view sv h (addAssign_sparse h sv s) \<and>
            within_view sv h (subAssign_sparse h sv s) \<and>
            within_view sv h (multAssign_sparse cfg h sv s)) \<and>
         (c < unat (sv_size sv) \<and> unat (IT_size cfg) dvd c \<and>
          length reg = unat (IT_size cfg) \<longrightarrow>
            within_view sv h (subvector_storeu cfg h sv (word_of_nat c) reg)) \<and>
         (sv_aligned sv \<and> sv_rest sv \<noteq> 0 \<longrightarrow>
            unat (sv_offset sv) + unat (sv_size sv) = unat (dv_size (h (sv_vector sv))))"
proof -
  note b1 = valid_view_nat(1) [OF assms(2)]
  have b2: "unat (dv_size (h (sv_vector sv))) \<le> length (dv_data (h (sv_vector sv)))"
    using assms(3) by (simp add: wf_dvec_def)
  have f: "within_view sv h (fill h sv x)" "within_view sv h (reset h sv)"
    using fill_inv [where sv = sv and h = h and x = x, OF b1 b2]
      fill_inv [where sv = sv and h = h and x = 0, OF b1 b2]
    by (auto simp: within_view_iff reset_fill assign_inv_def)
  have sc: "within_view sv h (scale h sv x)"
    using scale_frame [where sv = sv and h = h, OF b1 b2] by (simp add: within_view_iff)
  have cp: "within_view sv h (copy_assign cfg h sv v)"
    if "wf_dense cfg h (Subvec v)" "sv_size v = sv_size sv"
    using copy_assign_inv [OF assms that] by (auto simp: within_view_iff assign_inv_def)
  have ops: "within_view sv h (op_assign cfg h sv rhs) \<and>
            within_view sv h (op_add_assign cfg h sv rhs) \<and>
            within_view sv h (op_sub_assign cfg h sv rhs) \<and>
            within_view sv h (op_mult_assign cfg h sv rhs) \<and>
            within_view sv h (assign cfg h sv rhs) \<and>
            within_view sv h (addAssign cfg h sv rhs) \<and>
            within_view sv h (subAssign cfg h sv rhs) \<and>
            within_view sv h (multAssign cfg h sv rhs)"
    if "wf_operand cfg h rhs" "size_op h rhs = sv_size sv"
    using operator_frame [OF assms that] kernel_frame [OF assms that]
    by (simp add: within_view_iff)
  have dk: "within_view sv h (assign_default h sv d) \<and>
            within_view sv h (addAssign_default h sv d) \<and>
            within_view sv h (subAssign_default h sv d) \<and>
            within_view sv h (multAssign_default h sv d) \<and>
            within_view sv h (assign_vectorized cfg h sv d) \<and>
            within_view sv h (addAssign_vectorized cfg h sv d) \<and>
            within_view sv h (subAssign_vectorized cfg h sv d) \<and>
            within_view sv h (multAssign_vectorized cfg h sv d)"
    if "wf_dense cfg h d" "size_dense h d = sv_size sv"
    using dense_kernel_frame [OF assms that] by (simp add: within_view_iff)
  have sk: "within_view sv h (assign_sparse h sv s) \<and>
            within_view sv h (addAssign_sparse h sv s) \<and>
            within_view sv h (subAssign_sparse h sv s) \<and>
            within_view sv h (multAssign_sparse cfg h sv s)"
    if "wf_svec s" "svec_size s = sv_size sv"
    using sparse_kernel_frame [OF assms(2,3) that] by (simp add: within_view_iff)
  have st: "within_view sv h (subvector_storeu cfg h sv (word_of_nat c) reg)"
    if "c < unat (sv_size sv)" "unat (IT_size cfg) dvd c" "length reg = unat (IT_size cfg)"
    using storeu_frame [OF assms that] by (simp add: within_view_iff)
  have al: "unat (sv_offset sv) + unat (sv_size sv) = unat (dv_size (h (sv_vector sv)))"
    if "sv_aligned sv" "sv_rest sv \<noteq> 0"
    using aligned_tail_flush [OF assms(1,2) that] .
  from f sc cp ops dk sk st al show ?thesis by blast
qed

theorem mutating_operations_frame_witness:
  "(\<exists>h'. op_add_assign example_config example_heap example_view34 (Dense (Temp example_tens))
            = Inr h' \<and>
      dv_size (h' 0) = 10 \<and>
      map (\<lambda>j. dv_data (h' 0) ! j) [0, 1, 2, 7, 8, 9] = [0, 1, 2, 7, 8, 9]) \<and>
   (\<exists>h'. op_mult_assign example_config example_heap example_view34 (Sparse example_sparse)
            = Inr h' \<and>
      dv_size (h' 0) = 10 \<and>
      map (\<lambda>j. dv_data (h' 0) ! j) [0, 1, 2, 7, 8, 9] = [0, 1, 2, 7, 8, 9]) \<and>
   (\<exists>h'. fill example_heap example_view34 42 = Inr h' \<and>
      dv_size (h' 0) = 10 \<and>
      map (\<lambda>j. dv_data (h' 0) ! j) [0, 1, 2, 7, 8, 9] = [0, 1, 2, 7, 8, 9]) \<and>
   (\<exists>h'. op_add_assign example_config example_heap example_view35
            (Dense (Subvec example_view55)) = Inr h' \<and>
      dv_size (h' 0) = 10 \<and>
      map (\<lambda>j. dv_data (h' 0) ! j) [0, 1, 2, 8, 9, 10, 11] = [0, 1, 2, 8, 9, 0, 0]) \<and>
   (\<exists>h'. op_sub_assign example_config example_heap2 example_view46
            (Dense (Subvec example_source16)) = Inr h' \<and>
      h' 1 = example_source \<and>
      map (\<lambda>j. dv_data (h' 0) ! j) [0, 1, 2, 3] = [0, 1, 2, 3])"
proof -
  have c: "wf_config example_config" using wf_config_examples by simp
  have v: "valid_view example_config example_heap example_view34"
    "wf_dvec example_config (example_heap (sv_vector example_view34))"
    by (simp_all add: example_view34_def example_heap_def example_parent_def
        example_config_def valid_view_def DenseSubvector_def wf_dvec_def
        dvd_eq_mod_eq_0 mod_Suc)
  have o: "wf_operand example_config example_heap (Dense (Temp example_tens)) \<and>
      size_op example_heap (Dense (Temp example_tens)) = sv_size example_view34"
    "wf_operand example_config example_heap (Sparse example_sparse) \<and>
      size_op example_heap (Sparse example_sparse) = sv_size example_view34"
    by (simp_all add: example_tens_def example_sparse_def example_view34_def
        example_config_def wf_dvec_def wf_svec_def dvd_eq_mod_eq_0 mod_Suc)
  have fr: "dv_size (h' 0) = 10 \<and>
      map (\<lambda>j. dv_data (h' 0) ! j) [0, 1, 2, 7, 8, 9] = [0, 1, 2, 7, 8, 9]"
    if "frame example_view34 example_heap h'" for h' :: "int heap"
  proof -
    from that have s: "dv_size (h' 0) = 10"
      and e: "\<forall>j<10. j < 3 \<or> 7 \<le> j \<longrightarrow> dv_data (h' 0) ! j = dv_data example_parent ! j"
      by (simp_all add: frame_def same_shape_def example_view34_def example_heap_def
          example_parent_def)
    from e have "dv_data (h' 0) ! 0 = 0" "dv_data (h' 0) ! 1 = 1" "dv_data (h' 0) ! 2 = 2"
      "dv_data (h' 0) ! 7 = 7" "dv_data (h' 0) ! 8 = 8" "dv_data (h' 0) ! 9 = 9"
      by (simp_all add: example_parent_def)
    with s show ?thesis by simp
  qed
  from mutating_operations_frame [OF c v, where rhs = "Dense (Temp example_tens)"] o(1)
  have 1: "within_view example_view34 example_heap
      (op_add_assign example_config example_heap example_view34 (Dense (Temp example_tens)))"
    by blast
  from mutating_operations_frame [OF c v, where rhs = "Sparse example_sparse"] o(2)
  have 2: "within_view example_view34 example_heap
      (op_mult_assign example_config example_heap example_view34 (Sparse example_sparse))"
    by blast
  from mutating_operations_frame [OF c v, where x = 42]
  have 3: "within_view example_view34 example_heap (fill example_heap example_view34 42)"
    by blast
  have v35: "valid_view example_config example_heap example_view35"
    "wf_dvec example_config (example_heap (sv_vector example_view35))"
    and o35: "wf_operand example_config example_heap (Dense (Subvec example_view55)) \<and>
      size_op example_heap (Dense (Subvec example_view55)) = sv_size example_view35"
    by (simp_all add: example_view35_def example_view55_def example_heap_def
        example_parent_def example_config_def valid_view_def DenseSubvector_def wf_dvec_def
        size_sv_def dvd_eq_mod_eq_0 mod_Suc)
  from mutating_operations_frame [OF c v35, where rhs = "Dense (Subvec example_view55)"] o35
  have "within_view example_view35 example_heap
      (op_add_assign example_config example_heap example_view35 (Dense (Subvec example_view55)))"
    by blast
  then obtain g where g: "op_add_assign example_config example_heap example_view35
      (Dense (Subvec example_view55)) = Inr g" "frame example_view35 example_heap g"
    unfolding within_view_iff by blast
  from g(2) have gs: "dv_size (g 0) = 10"
    and ge: "\<forall>j<10. j < 3 \<or> 8 \<le> j \<longrightarrow> dv_data (g 0) ! j = dv_data example_parent ! j"
    and gp: "\<forall>j\<ge>10. j < 12 \<longrightarrow> dv_data (g 0) ! j = dv_data example_parent ! j"
    by (simp_all add: frame_def same_shape_def example_view35_def example_heap_def
        example_parent_def)
  from ge gp have "dv_data (g 0) ! 0 = 0" "dv_data (g 0) ! 1 = 1" "dv_data (g 0) ! 2 = 2"
    "dv_data (g 0) ! 8 = 8" "dv_data (g 0) ! 9 = 9" "dv_data (g 0) ! 10 = 0"
    "dv_data (g 0) ! 11 = 0"
    by (simp_all add: example_parent_def)
  with g(1) gs have 4: "\<exists>h'. op_add_assign example_config example_heap example_view35
            (Dense (Subvec example_view55)) = Inr h' \<and>
      dv_size (h' 0) = 10 \<and>
      map (\<lambda>j. dv_data (h' 0) ! j) [0, 1, 2, 8, 9, 10, 11] = [0, 1, 2, 8, 9, 0, 0]"
    by simp
  have v46: "valid_view example_config example_heap2 example_view46"
    "wf_dvec example_config (example_heap2 (sv_vector example_view46))"
    and o46: "wf_operand example_config example_heap2 (Dense (Subvec example_source16)) \<and>
      size_op example_heap2 (Dense (Subvec example_source16)) = sv_size example_view46"
    by (simp_all add: example_view46_def example_source16_def example_heap2_def
        example_source_def example_heap_def example_parent_def example_config_def
        valid_view_def DenseSubvector_def wf_dvec_def size_sv_def dvd_eq_mod_eq_0 mod_Suc)
  from mutating_operations_frame [OF c v46, where rhs = "Dense (Subvec example_source16)"] o46
  have "within_view example_view46 example_heap2
      (op_sub_assign example_config example_heap2 example_view46
         (Dense (Subvec example_source16)))"
    by blast
  then obtain k where k: "op_sub_assign example_config example_heap2 example_view46
      (Dense (Subvec example_source16)) = Inr k" "frame example_view46 example_heap2 k"
    unfolding within_view_iff by blast
  from k(2) have k1: "k 1 = example_source"
    and ke: "\<forall>j<10. j < 4 \<or> 10 \<le> j \<longrightarrow> dv_data (k 0) ! j = dv_data example_parent ! j"
    by (simp_all add: frame_def same_shape_def example_view46_def example_heap2_def
        example_heap_def example_parent_def)
  from ke have "dv_data (k 0) ! 0 = 0" "dv_data (k 0) ! 1 = 1" "dv_data (k 0) ! 2 = 2"
    "dv_data (k 0) ! 3 = 3"
    by (simp_all add: example_parent_def)
  with k(1) k1 have 5: "\<exists>h'. op_sub_assign example_config example_heap2 example_view46
            (Dense (Subvec example_source16)) = Inr h' \<and>
      h' 1 = example_source \<and>
      map (\<lambda>j. dv_data (h' 0) ! j) [0, 1, 2, 3] = [0, 1, 2, 3]"
    by simp
  from 1 2 3 fr have "(\<exists>h'. op_add_assign example_config example_heap example_view34
            (Dense (Temp example_tens)) = Inr h' \<and>
      dv_size (h' 0) = 10 \<and>
      map (\<lambda>j. dv_data (h' 0) ! j) [0, 1, 2, 7, 8, 9] = [0, 1, 2, 7, 8, 9]) \<and>
   (\<exists>h'. op_mult_assign example_config example_heap example_view34 (Sparse example_sparse)
            = Inr h' \<and>
      dv_size (h' 0) = 10 \<and>
      map (\<lambda>j. dv_data (h' 0) ! j) [0, 1, 2, 7, 8, 9] = [0, 1, 2, 7, 8, 9]) \<and>
   (\<exists>h'. fill example_heap example_view34 42 = Inr h' \<and>
      dv_size (h' 0) = 10 \<and>
      map (\<lambda>j. dv_data (h' 0) ! j) [0, 1, 2, 7, 8, 9] = [0, 1, 2, 7, 8, 9])"
    unfolding within_view_iff by blast
  with 4 5 show ?thesis by blast
qed

end
